(* ===== verification/Prelude.thy ===== *)
theory Prelude
  imports Main "HOL-Library.Word" "HOL-Library.AList"
begin

text \<open>
  What every component shares: the machine integers of the Go code as words, Go strings as
  byte strings, instants and durations, Go maps as association lists with their update,
  lookup and iteration, and the generic lemmas the component proofs rest on.
\<close>

section \<open>Collections\<close>

text \<open>
  The facts that a group of proofs shares are collected by name: the frame conditions of the
  relay's operations.
\<close>

named_theorems relay_frame "which parts of the relay's state an operation leaves as they are"

section \<open>Types\<close>

type_synonym byte = "8 word"
type_synonym u16 = "16 word"
type_synonym u32 = "32 word"
type_synonym u64 = "64 word"

text \<open>A Go \<^verbatim>\<open>int32\<close> has the same bits as \<^verbatim>\<open>uint32\<close> and is read with \<open>sint\<close>.\<close>

type_synonym i32 = "32 word"

text \<open>
  A Go \<^verbatim>\<open>time.Time\<close> is an instant in nanoseconds since the zero time, so \<^verbatim>\<open>IsZero\<close> is the
  test against 0; a \<^verbatim>\<open>time.Duration\<close> is a number of nanoseconds. \<^verbatim>\<open>Time.Sub\<close> saturates at
  the bounds of a 64-bit integer.
\<close>

type_synonym instant = int
type_synonym duration = int

definition is_zero_time :: "instant \<Rightarrow> bool" where
  "is_zero_time t \<longleftrightarrow> t = 0"

definition duration_max :: duration where
  "duration_max = 2 ^ 63 - 1"

definition time_sub :: "instant \<Rightarrow> instant \<Rightarrow> duration" where
  "time_sub t u = max (- (2 ^ 63)) (min duration_max (t - u))"

definition millisecond :: duration where
  "millisecond = 1000000"

definition second :: duration where
  "second = 1000 * millisecond"

definition minute :: duration where
  "minute = 60 * second"

definition hour :: duration where
  "hour = 60 * minute"

lemmas duration_defs = millisecond_def second_def minute_def hour_def

lemma time_sub_self [simp]: "time_sub t t = 0"
  by (simp add: time_sub_def duration_max_def)

lemma time_sub_ge_iff:
  assumes "- (2 ^ 63) < d" and "d \<le> duration_max"
  shows "d \<le> time_sub t u \<longleftrightarrow> d \<le> t - u"
  using assms by (auto simp: time_sub_def duration_max_def)

section \<open>Strings and bytes\<close>

text \<open>
  A Go string is a byte string and so is the Isabelle type \<open>string\<close>, whose characters are
  bytes; \<open>bytes_of\<close> is the conversion \<^verbatim>\<open>[]byte(s)\<close>.
\<close>

definition bytes_of :: "string \<Rightarrow> byte list" where
  "bytes_of s = map of_char s"

definition string_of :: "byte list \<Rightarrow> string" where
  "string_of b = map (\<lambda>w. char_of (unat w)) b"

definition NL :: char where "NL = CHR 0x0A"
definition CR :: char where "CR = CHR 0x0D"
definition TAB :: char where "TAB = CHR 0x09"
definition ESC :: char where "ESC = CHR 0x1B"
definition BSLASH :: char where "BSLASH = CHR 0x5C"
definition SQUOTE :: char where "SQUOTE = CHR 0x27"
definition DQUOTE :: char where "DQUOTE = CHR 0x22"
definition BACKTICK :: char where "BACKTICK = CHR 0x60"

lemmas char_defs = NL_def CR_def TAB_def ESC_def BSLASH_def SQUOTE_def DQUOTE_def BACKTICK_def

text \<open>\<^verbatim>\<open>strings.ReplaceAll\<close> for a one-byte pattern, \<^verbatim>\<open>strings.Join\<close> and \<^verbatim>\<open>strings.TrimRight\<close>.\<close>

definition replace_char :: "char \<Rightarrow> string \<Rightarrow> string \<Rightarrow> string" where
  "replace_char c new s = concat (map (\<lambda>x. if x = c then new else [x]) s)"

fun join :: "string \<Rightarrow> string list \<Rightarrow> string" where
  "join sep [] = []"
| "join sep [x] = x"
| "join sep (x # y # xs) = x @ sep @ join sep (y # xs)"

definition trim_left :: "(char \<Rightarrow> bool) \<Rightarrow> string \<Rightarrow> string" where
  "trim_left p s = dropWhile p s"

definition trim_right :: "(char \<Rightarrow> bool) \<Rightarrow> string \<Rightarrow> string" where
  "trim_right p s = rev (dropWhile p (rev s))"

text \<open>
  \<^verbatim>\<open>strings.TrimSpace\<close>: the white space of Unicode by its UTF-8 encodings, removed from both
  ends; from the right the reversed string loses the reversed encodings.
\<close>

definition space_runes :: "string list" where
  "space_runes =
     [[CHR 0x09], [CHR 0x0A], [CHR 0x0B], [CHR 0x0C], [CHR 0x0D], [CHR 0x20],
      [CHR 0xC2, CHR 0x85], [CHR 0xC2, CHR 0xA0], [CHR 0xE1, CHR 0x9A, CHR 0x80]]
     @ map (\<lambda>c. [CHR 0xE2, CHR 0x80, c])
         [CHR 0x80, CHR 0x81, CHR 0x82, CHR 0x83, CHR 0x84, CHR 0x85, CHR 0x86, CHR 0x87, CHR 0x88,
          CHR 0x89, CHR 0x8A, CHR 0xA8, CHR 0xA9, CHR 0xAF]
     @ [[CHR 0xE2, CHR 0x81, CHR 0x9F], [CHR 0xE3, CHR 0x80, CHR 0x80]]"

definition starts_with :: "string \<Rightarrow> string \<Rightarrow> bool" where
  "starts_with w s \<longleftrightarrow> take (length w) s = w"

definition ends_with :: "string \<Rightarrow> string \<Rightarrow> bool" where
  "ends_with w s \<longleftrightarrow> starts_with (rev w) (rev s)"

fun contains :: "string \<Rightarrow> string \<Rightarrow> bool" where
  "contains w [] \<longleftrightarrow> w = []"
| "contains w (c # s) \<longleftrightarrow> starts_with w (c # s) \<or> contains w s"

function trim_runes :: "string list \<Rightarrow> string \<Rightarrow> string" where
  "trim_runes ws s =
     (case find (\<lambda>w. w \<noteq> [] \<and> starts_with w s) ws of
        None \<Rightarrow> s
      | Some w \<Rightarrow> trim_runes ws (drop (length w) s))"
  by pat_completeness auto
termination
  by (relation "measure (\<lambda>(ws, s). length s)")
     (auto simp: find_Some_iff starts_with_def intro!: diff_less)

declare trim_runes.simps [simp del]

definition trim_space :: "string \<Rightarrow> string" where
  "trim_space s = rev (trim_runes (map rev space_runes) (rev (trim_runes space_runes s)))"

text \<open>
  The iteration over the runes of a string: each rune is the bytes of its UTF-8 encoding, and a
  byte that begins no valid encoding is the replacement character U+FFFD, one byte wide.
\<close>

definition byte_in :: "nat \<Rightarrow> nat \<Rightarrow> char \<Rightarrow> bool" where
  "byte_in a b c \<longleftrightarrow> (let n = (of_char c :: nat) in a \<le> n \<and> n \<le> b)"

definition rune_error :: string where
  "rune_error = [CHR 0xEF, CHR 0xBF, CHR 0xBD]"

definition second_byte_ok :: "char \<Rightarrow> char \<Rightarrow> bool" where
  "second_byte_ok c d \<longleftrightarrow>
     (if c = CHR 0xE0 then byte_in 0xA0 0xBF d
      else if c = CHR 0xED then byte_in 0x80 0x9F d
      else if c = CHR 0xF0 then byte_in 0x90 0xBF d
      else if c = CHR 0xF4 then byte_in 0x80 0x8F d
      else byte_in 0x80 0xBF d)"

definition rune_width :: "string \<Rightarrow> nat" where
  "rune_width s = (case s of
     [] \<Rightarrow> 0
   | c # r \<Rightarrow>
       if byte_in 0 0x7F c then 1
       else
         let n = (if byte_in 0xC2 0xDF c then 2 else if byte_in 0xE0 0xEF c then 3
                  else if byte_in 0xF0 0xF4 c then 4 else 0) in
         if n \<noteq> 0 \<and> n \<le> length s \<and> second_byte_ok c (s ! 1)
            \<and> list_all (byte_in 0x80 0xBF) (take (n - 2) (drop 2 s)) then n else 0)"

function utf8_runes :: "string \<Rightarrow> string list" where
  "utf8_runes s = (if s = [] then [] else
     let n = rune_width s in
     if n = 0 then rune_error # utf8_runes (drop 1 s) else take n s # utf8_runes (drop n s))"
  by pat_completeness auto
termination
  by (relation "measure length") auto

declare utf8_runes.simps [simp del]

definition is_ascii :: "char \<Rightarrow> bool" where
  "is_ascii c \<longleftrightarrow> byte_in 0 0x7F c"

lemma utf8_runes_Nil [simp]: "utf8_runes [] = []"
  by (subst utf8_runes.simps) simp

lemma utf8_runes_ascii: "is_ascii c \<Longrightarrow> utf8_runes (c # s) = [c] # utf8_runes s"
  by (subst utf8_runes.simps) (simp add: rune_width_def is_ascii_def)

text \<open>\<^verbatim>\<open>strings.Split\<close> at a one-byte separator.\<close>

fun split_at :: "char \<Rightarrow> string \<Rightarrow> string list" where
  "split_at c [] = [[]]"
| "split_at c (x # s) = (if x = c then [] # split_at c s else
     (case split_at c s of [] \<Rightarrow> [[x]] | w # ws \<Rightarrow> (x # w) # ws))"

lemma split_at_not_Nil [simp]: "split_at c s \<noteq> []"
  by (cases s) (auto split: list.splits)

lemma split_at_line: "c \<notin> set w \<Longrightarrow> split_at c (w @ c # s) = w # split_at c s"
  by (induction w) auto

lemma split_at_last: "c \<notin> set w \<Longrightarrow> split_at c w = [w]"
  by (induction w) auto

lemma split_at_subset: "w \<in> set (split_at c s) \<Longrightarrow> set w \<subseteq> set s - {c}"
proof (induction s arbitrary: w)
  case (Cons x s)
  show ?case
  proof (cases "x = c")
    case False
    obtain v vs where v: "split_at c s = v # vs"
      by (meson neq_Nil_conv split_at_not_Nil)
    from Cons.prems False v have "w = x # v \<or> w \<in> set vs" by auto
    with Cons.IH [of v] Cons.IH [of w] v False show ?thesis by auto
  qed (use Cons in fastforce)
qed simp

lemma starts_with_append [simp]: "starts_with w (w @ s)"
  by (simp add: starts_with_def)

lemma contains_iff: "contains w s \<longleftrightarrow> (\<exists>u v. s = u @ w @ v)"
proof (induction s)
  case (Cons c s)
  have "starts_with w (c # s) \<longleftrightarrow> (\<exists>v. c # s = w @ v)"
    by (metis append_take_drop_id starts_with_append starts_with_def)
  then show ?case
    using Cons by (auto simp: Cons_eq_append_conv)
qed simp

lemma trim_runes_subset: "set (trim_runes ws s) \<subseteq> set s"
proof (induction ws s rule: trim_runes.induct)
  case (1 ws s)
  then show ?case
    by (subst trim_runes.simps) (auto split: option.splits dest: in_set_dropD)
qed

lemma trim_space_subset: "set (trim_space s) \<subseteq> set s"
  using trim_runes_subset [of "map rev space_runes" "rev (trim_runes space_runes s)"]
    trim_runes_subset [of space_runes s] by (auto simp: trim_space_def)

lemma replace_char_Nil [simp]: "replace_char c new [] = []"
  by (simp add: replace_char_def)

lemma replace_char_Cons [simp]:
  "replace_char c new (x # s) = (if x = c then new else [x]) @ replace_char c new s"
  by (simp add: replace_char_def)

lemma join_Cons: "xs \<noteq> [] \<Longrightarrow> join sep (x # xs) = x @ sep @ join sep xs"
  by (cases xs) simp_all

lemma trim_right_Nil_iff: "trim_right p s = [] \<longleftrightarrow> (\<forall>c \<in> set s. p c)"
  by (simp add: trim_right_def)

lemma trim_right_last: "trim_right p s \<noteq> [] \<Longrightarrow> \<not> p (last (trim_right p s))"
  by (simp add: trim_right_def last_rev hd_dropWhile)

text \<open>Lines of text, each ended by a newline, and the long dash in UTF-8.\<close>

definition unlines :: "string list \<Rightarrow> string" where
  "unlines ls = concat (map (\<lambda>l. l @ [NL]) ls)"

lemma unlines_simps [simp]: "unlines [] = ''''" "unlines (l # ls) = l @ NL # unlines ls"
  by (simp_all add: unlines_def)

lemma split_unlines: "\<forall>l \<in> set ls. NL \<notin> set l \<Longrightarrow> split_at NL (unlines ls) = ls @ ['''']"
  by (induction ls) (simp_all add: split_at_line)

lemma unlines_append: "unlines ls @ unlines ks = unlines (ls @ ks)"
  by (simp add: unlines_def)

definition em_dash :: string where
  "em_dash = [CHR 0xE2, CHR 0x80, CHR 0x94]"

section \<open>Go maps\<close>

text \<open>
  A Go map is an association list whose keys are distinct. The order of the list stands for
  one iteration order of the map, which Go leaves unspecified; no theorem of the development
  depends on it. Assigning an existing key keeps its place, a new key goes to the end.
\<close>

type_synonym ('k, 'v) gomap = "('k \<times> 'v) list"

definition mget :: "('k, 'v) gomap \<Rightarrow> 'k \<Rightarrow> 'v option" where
  "mget m k = map_of m k"

definition mput :: "'k \<Rightarrow> 'v \<Rightarrow> ('k, 'v) gomap \<Rightarrow> ('k, 'v) gomap" where
  "mput k v m = AList.update k v m"

definition mdel :: "'k \<Rightarrow> ('k, 'v) gomap \<Rightarrow> ('k, 'v) gomap" where
  "mdel k m = filter (\<lambda>p. fst p \<noteq> k) m"

definition mkeys :: "('k, 'v) gomap \<Rightarrow> 'k list" where
  "mkeys m = map fst m"

definition mvals :: "('k, 'v) gomap \<Rightarrow> 'v list" where
  "mvals m = map snd m"

definition mmap :: "('k \<Rightarrow> 'v \<Rightarrow> 'w) \<Rightarrow> ('k, 'v) gomap \<Rightarrow> ('k, 'w) gomap" where
  "mmap f m = map (\<lambda>(k, v). (k, f k v)) m"

definition mwf :: "('k, 'v) gomap \<Rightarrow> bool" where
  "mwf m \<longleftrightarrow> distinct (map fst m)"

lemma mget_Nil [simp]: "mget [] k = None"
  by (simp add: mget_def)

lemma mget_Cons: "mget ((k', v) # m) k = (if k = k' then Some v else mget m k)"
  by (simp add: mget_def)

lemma mget_mput [simp]: "mget (mput k v m) k' = (if k' = k then Some v else mget m k')"
  by (simp add: mget_def mput_def update_conv')

lemma mget_mdel [simp]: "mget (mdel k m) k' = (if k' = k then None else mget m k')"
  by (induction m) (auto simp: mget_def mdel_def)

lemma mget_mmap [simp]: "mget (mmap f m) k = map_option (f k) (mget m k)"
  by (induction m) (auto simp: mget_def mmap_def)

lemma mwf_Nil [simp]: "mwf []"
  by (simp add: mwf_def)

lemma mwf_mput [simp]: "mwf m \<Longrightarrow> mwf (mput k v m)"
  by (simp add: mwf_def mput_def distinct_update)

lemma mwf_mdel [simp]: "mwf m \<Longrightarrow> mwf (mdel k m)"
  by (simp add: mwf_def mdel_def distinct_map_filter)

lemma mwf_mmap [simp]: "mwf (mmap f m) = mwf m"
  by (simp add: mwf_def mmap_def comp_def case_prod_beta)

lemma mget_in_set: "mget m k = Some v \<Longrightarrow> (k, v) \<in> set m"
  by (simp add: mget_def map_of_SomeD)

lemma mwf_mget_iff: "mwf m \<Longrightarrow> mget m k = Some v \<longleftrightarrow> (k, v) \<in> set m"
  by (auto simp: mwf_def mget_def map_of_eq_Some_iff)

lemma mget_filter:
  "mwf m \<Longrightarrow> mget (filter P m) k = (case mget m k of None \<Rightarrow> None | Some v \<Rightarrow> if P (k, v) then Some v else None)"
proof (induction m)
  case (Cons x m)
  obtain a b where x: "x = (a, b)" by fastforce
  have "mget m a = None"
    using Cons.prems by (auto simp: mwf_def mget_def x map_of_eq_None_iff)
  moreover have "mwf m"
    using Cons.prems by (simp add: mwf_def)
  ultimately show ?case
    using Cons.IH by (auto simp: x mget_Cons split: option.splits)
qed simp

lemma mwf_filter [simp]: "mwf m \<Longrightarrow> mwf (filter P m)"
  by (simp add: mwf_def distinct_map_filter)

lemma mget_None_iff: "mget m k = None \<longleftrightarrow> k \<notin> set (mkeys m)"
  by (auto simp: mget_def mkeys_def map_of_eq_None_iff)

lemma mkeys_iff: "k \<in> set (mkeys m) \<longleftrightarrow> (\<exists>v. mget m k = Some v)"
  by (metis mget_None_iff not_None_eq)

section \<open>Words, take and drop\<close>

lemma unat_u64_less: "unat (w :: u64) < 18446744073709551616"
proof -
  have "unat w < 2 ^ LENGTH(64)" by (rule unsigned_less)
  then show ?thesis by simp
qed

lemma drop_append_le: "n \<le> length xs \<Longrightarrow> drop n (xs @ ys) = drop n xs @ ys"
  by simp

section \<open>Decimal numbers\<close>

text \<open>\<^verbatim>\<open>strconv.FormatUint\<close>, \<^verbatim>\<open>strconv.ParseUint\<close> with base ten, and \<^verbatim>\<open>strconv.Atoi\<close>.\<close>

definition digit_char :: "nat \<Rightarrow> char" where
  "digit_char n = char_of (48 + n)"

definition is_digit :: "char \<Rightarrow> bool" where
  "is_digit c \<longleftrightarrow> byte_in 48 57 c"

definition digit_value :: "char \<Rightarrow> nat" where
  "digit_value c = of_char c - 48"

fun format_uint :: "nat \<Rightarrow> string" where
  "format_uint n = (if n < 10 then [digit_char n] else format_uint (n div 10) @ [digit_char (n mod 10)])"

declare format_uint.simps [simp del]

definition format_int :: "int \<Rightarrow> string" where
  "format_int n = (if n < 0 then ''-'' @ format_uint (nat (- n)) else format_uint (nat n))"

definition decimal_value :: "string \<Rightarrow> nat" where
  "decimal_value s = foldl (\<lambda>a c. 10 * a + digit_value c) 0 s"

definition parse_uint :: "nat \<Rightarrow> string \<Rightarrow> nat option" where
  "parse_uint bits s =
     (if s \<noteq> '''' \<and> list_all is_digit s \<and> decimal_value s < 2 ^ bits then Some (decimal_value s) else None)"

definition atoi :: "string \<Rightarrow> int option" where
  "atoi s =
     (let neg = starts_with ''-'' s;
          digits = (if neg \<or> starts_with ''+'' s then drop 1 s else s);
          v = (if neg then - int (decimal_value digits) else int (decimal_value digits))
      in if digits \<noteq> '''' \<and> list_all is_digit digits \<and> - (2 ^ 63) \<le> v \<and> v < 2 ^ 63 then Some v else None)"

text \<open>\<^verbatim>\<open>hex.EncodeToString\<close>.\<close>

definition hex_digit :: "nat \<Rightarrow> char" where
  "hex_digit n = (if n < 10 then char_of (48 + n) else char_of (87 + n))"

definition hex_encode :: "byte list \<Rightarrow> string" where
  "hex_encode b = concat (map (\<lambda>w. [hex_digit (unat w div 16), hex_digit (unat w mod 16)]) b)"

lemma of_char_digit_char: "n < 10 \<Longrightarrow> (of_char (digit_char n) :: nat) = 48 + n"
  by (simp add: digit_char_def)

lemma digit_char_simps [simp]: "n < 10 \<Longrightarrow> is_digit (digit_char n)" "n < 10 \<Longrightarrow> digit_value (digit_char n) = n"
  by (simp_all add: is_digit_def byte_in_def digit_value_def of_char_digit_char)

lemma format_uint_digits: "list_all is_digit (format_uint n)"
  by (induction n rule: format_uint.induct) (subst format_uint.simps, simp)

lemma format_uint_not_Nil [simp]: "format_uint n \<noteq> []"
  by (subst format_uint.simps) simp

lemma decimal_value_snoc: "decimal_value (s @ [c]) = 10 * decimal_value s + digit_value c"
  by (simp add: decimal_value_def)

lemma decimal_value_format: "decimal_value (format_uint n) = n"
proof (induction n rule: format_uint.induct)
  case (1 n)
  show ?case
  proof (cases "n < 10")
    case True
    then have "format_uint n = [] @ [digit_char n]"
      by (subst format_uint.simps) simp
    with True show ?thesis
      by (simp only: decimal_value_snoc) (simp add: decimal_value_def)
  next
    case False
    then show ?thesis
      using 1 by (subst format_uint.simps) (simp add: decimal_value_snoc)
  qed
qed

lemma parse_format_uint: "n < 2 ^ bits \<Longrightarrow> parse_uint bits (format_uint n) = Some n"
  by (simp add: parse_uint_def format_uint_digits decimal_value_format)

lemma format_uint_inject [simp]: "format_uint m = format_uint n \<longleftrightarrow> m = n"
  by (metis decimal_value_format)

lemma unat_u32_less: "unat (w :: u32) < 2 ^ 32"
proof -
  have "unat w < 2 ^ LENGTH(32)" by (rule unsigned_less)
  then show ?thesis by simp
qed

end
