(* ===== verification/Frames.thy ===== *)
theory Frames
  imports Prelude
begin

text \<open>
  The binary frames of the data plane (\<^verbatim>\<open>internal/proto/frame.go\<close>): the 18-byte header in
  network byte order, its decoder and the relay's header-only decoder, the split of a large
  payload into frames, and the payloads of resize and end-of-stream frames. The lemmas show
  that decoding inverts encoding, that both decoders agree, and that a chunked payload is
  put together again without loss.
\<close>

unbundle bit_operations_syntax

section \<open>Big-endian integers\<close>

definition put_uint16 :: "u16 \<Rightarrow> byte list" where
  "put_uint16 v = [ucast (drop_bit 8 v), ucast v]"

definition put_uint32 :: "u32 \<Rightarrow> byte list" where
  "put_uint32 v = [ucast (drop_bit 24 v), ucast (drop_bit 16 v), ucast (drop_bit 8 v), ucast v]"

definition put_uint64 :: "u64 \<Rightarrow> byte list" where
  "put_uint64 v = put_uint32 (ucast (drop_bit 32 v)) @ put_uint32 (ucast v)"

definition get_uint16 :: "byte list \<Rightarrow> u16" where
  "get_uint16 b = push_bit 8 (ucast (b ! 0)) OR ucast (b ! 1)"

definition get_uint32 :: "byte list \<Rightarrow> u32" where
  "get_uint32 b = push_bit 24 (ucast (b ! 0)) OR push_bit 16 (ucast (b ! 1))
     OR push_bit 8 (ucast (b ! 2)) OR ucast (b ! 3)"

definition get_uint64 :: "byte list \<Rightarrow> u64" where
  "get_uint64 b = push_bit 32 (ucast (get_uint32 (take 4 b))) OR ucast (get_uint32 (drop 4 b))"

lemma length_put_uint [simp]:
  "length (put_uint16 a) = 2" "length (put_uint32 b) = 4" "length (put_uint64 c) = 8"
  by (simp_all add: put_uint16_def put_uint32_def put_uint64_def)

lemma get_put_uint16 [simp]: "get_uint16 (put_uint16 v) = v"
  by (rule bit_word_eqI) (auto simp: get_uint16_def put_uint16_def bit_simps)

lemma get_put_uint32 [simp]: "get_uint32 (put_uint32 v) = v"
proof (rule bit_word_eqI)
  fix n
  assume "n < LENGTH(32)"
  consider "n < 8" | "8 \<le> n" "n < 16" | "16 \<le> n" "n < 24" | "24 \<le> n"
    by linarith
  then show "bit (get_uint32 (put_uint32 v)) n = bit v n"
    using \<open>n < LENGTH(32)\<close>
    by cases (auto simp: get_uint32_def put_uint32_def bit_simps)
qed

lemma get_put_uint64 [simp]: "get_uint64 (put_uint64 v) = v"
  by (rule bit_word_eqI) (auto simp: get_uint64_def put_uint64_def bit_simps)

lemma list_length_2E:
  assumes "length b = 2"
  obtains b0 b1 where "b = [b0, b1]"
  using assms by (auto simp: numeral_eq_Suc length_Suc_conv)

lemma list_length_4E:
  assumes "length b = 4"
  obtains b0 b1 b2 b3 where "b = [b0, b1, b2, b3]"
  using assms by (auto simp: numeral_eq_Suc length_Suc_conv)

lemma bit_beyond [simp]:
  "\<not> bit (b :: byte) (8 + n)" "\<not> bit (b :: byte) (16 + n)" "\<not> bit (b :: byte) (24 + n)"
  "\<not> bit (w :: u32) (32 + n)"
  using bit_imp_le_length [of b "8 + n"] bit_imp_le_length [of b "16 + n"]
    bit_imp_le_length [of b "24 + n"] bit_imp_le_length [of w "32 + n"] by auto

lemma put_get_uint16: "length b = 2 \<Longrightarrow> put_uint16 (get_uint16 b) = b"
  by (elim list_length_2E)
     (auto simp: get_uint16_def put_uint16_def bit_simps dest: bit_imp_le_length intro!: bit_word_eqI)

lemma put_get_uint32: "length b = 4 \<Longrightarrow> put_uint32 (get_uint32 b) = b"
  by (elim list_length_4E)
     (auto simp: get_uint32_def put_uint32_def bit_simps dest: bit_imp_le_length intro!: bit_word_eqI)

lemma put_get_uint64:
  assumes "length b = 8"
  shows "put_uint64 (get_uint64 b) = b"
proof -
  have "ucast (drop_bit 32 (get_uint64 b)) = get_uint32 (take 4 b)"
    and "ucast (get_uint64 b) = get_uint32 (drop 4 b)"
    by (auto simp: get_uint64_def bit_simps dest: bit_imp_le_length intro!: bit_word_eqI)
  then have "put_uint64 (get_uint64 b) = take 4 b @ drop 4 b"
    using assms by (simp add: put_uint64_def put_get_uint32)
  then show ?thesis by simp
qed

section \<open>Frames\<close>

definition Version :: byte where "Version = 1"
definition HeaderSize :: nat where "HeaderSize = 18"
definition MaxPayload :: nat where "MaxPayload = 65535"

type_synonym frame_type = byte

definition FrameOutput :: frame_type where "FrameOutput = 1"
definition FrameInput :: frame_type where "FrameInput = 2"
definition FrameResize :: frame_type where "FrameResize = 3"
definition FrameSnapshot :: frame_type where "FrameSnapshot = 4"
definition FrameEOF :: frame_type where "FrameEOF = 5"
definition FrameAck :: frame_type where "FrameAck = 6"

definition FlagMore :: byte where "FlagMore = push_bit 0 1"
definition FlagReset :: byte where "FlagReset = push_bit 1 1"

lemmas frame_type_defs =
  FrameOutput_def FrameInput_def FrameResize_def FrameSnapshot_def FrameEOF_def FrameAck_def
lemmas flag_defs = FlagMore_def FlagReset_def

text \<open>The errors of the package; \<^verbatim>\<open>ErrVersion\<close> is wrapped with the version byte found.\<close>

datatype frame_error = ErrShort | ErrVersion byte | ErrLength | ErrPayloadBig | ErrBadPayload

record frame =
  fr_type :: frame_type
  fr_flags :: byte
  fr_sid :: u32
  fr_seq :: u64
  fr_payload :: "byte list"

definition Marshal :: "frame \<Rightarrow> frame_error + byte list" where
  "Marshal f =
     (if length (fr_payload f) > MaxPayload then Inl ErrPayloadBig
      else Inr ([Version, fr_type f, fr_flags f, 0] @ put_uint32 (fr_sid f) @ put_uint64 (fr_seq f)
             @ put_uint16 (word_of_nat (length (fr_payload f))) @ fr_payload f))"

definition bslice :: "nat \<Rightarrow> nat \<Rightarrow> 'a list \<Rightarrow> 'a list" where
  "bslice i j b = take (j - i) (drop i b)"

definition Unmarshal :: "byte list \<Rightarrow> frame_error + frame" where
  "Unmarshal b =
     (if length b < HeaderSize then Inl ErrShort
      else if b ! 0 \<noteq> Version then Inl (ErrVersion (b ! 0))
      else let n = unat (get_uint16 (bslice 16 18 b)) in
        if length b \<noteq> HeaderSize + n then Inl ErrLength
        else Inr \<lparr>fr_type = b ! 1, fr_flags = b ! 2, fr_sid = get_uint32 (bslice 4 8 b),
                  fr_seq = get_uint64 (bslice 8 16 b), fr_payload = drop HeaderSize b\<rparr>)"

definition PeekHeader :: "byte list \<Rightarrow> frame_error + (frame_type \<times> u32)" where
  "PeekHeader b =
     (if length b < HeaderSize then Inl ErrShort
      else if b ! 0 \<noteq> Version then Inl (ErrVersion (b ! 0))
      else let n = unat (get_uint16 (bslice 16 18 b)) in
        if length b \<noteq> HeaderSize + n then Inl ErrLength
        else Inr (b ! 1, get_uint32 (bslice 4 8 b)))"

text \<open>
  A frame on the wire: \<open>wire_header\<close> is the layout of the first eighteen bytes with the
  reserved byte left open, which both directions of the codec are compared with.
\<close>

definition wire_header :: "byte \<Rightarrow> frame \<Rightarrow> byte list" where
  "wire_header reserved f = [Version, fr_type f, fr_flags f, reserved]
     @ put_uint32 (fr_sid f) @ put_uint64 (fr_seq f) @ put_uint16 (word_of_nat (length (fr_payload f)))"

lemma length_wire_header [simp]: "length (wire_header r f) = HeaderSize"
  by (simp add: wire_header_def HeaderSize_def)

lemma Marshal_wire:
  "Marshal f = (if length (fr_payload f) > MaxPayload then Inl ErrPayloadBig
     else Inr (wire_header 0 f @ fr_payload f))"
  by (simp add: Marshal_def wire_header_def)

lemma unat_of_length:
  "length (fr_payload f) \<le> MaxPayload \<Longrightarrow>
   unat (word_of_nat (length (fr_payload f)) :: u16) = length (fr_payload f)"
  by (simp add: unat_of_nat MaxPayload_def)

lemma wire_header_fields:
  fixes r f rest
  defines "b \<equiv> wire_header r f @ rest"
  shows "b ! 0 = Version" "b ! Suc 0 = fr_type f" "b ! 2 = fr_flags f" "b ! 3 = r"
    "bslice 4 8 b = put_uint32 (fr_sid f)" "bslice 8 16 b = put_uint64 (fr_seq f)"
    "bslice 16 18 b = put_uint16 (word_of_nat (length (fr_payload f)))" "drop HeaderSize b = rest"
  by (simp_all add: b_def wire_header_def bslice_def HeaderSize_def)

lemma Unmarshal_wire:
  assumes "length (fr_payload f) \<le> MaxPayload"
  shows "Unmarshal (wire_header r f @ fr_payload f) = Inr f"
  using assms by (simp add: Unmarshal_def wire_header_fields unat_of_length)

lemma length_bslice [simp]: "length (bslice i j xs) = min (j - i) (length xs - i)"
  by (simp add: bslice_def min.commute)

lemma take_drop_bslice: "i \<le> j \<Longrightarrow> drop i b = bslice i j b @ drop j b"
  using append_take_drop_id [of "j - i" "drop i b"] by (simp add: bslice_def)

lemma frame_bytes_split:
  assumes "length b \<ge> HeaderSize"
  shows "[b ! 0, b ! 1, b ! 2, b ! 3] @ bslice 4 8 b @ bslice 8 16 b @ bslice 16 18 b @ drop HeaderSize b = b"
proof -
  have "drop 4 b = bslice 4 8 b @ bslice 8 16 b @ bslice 16 18 b @ drop 18 b"
    using take_drop_bslice [of 4 8 b] take_drop_bslice [of 8 16 b] take_drop_bslice [of 16 18 b] by simp
  moreover have "take 4 b = [b ! 0, b ! 1, b ! 2, b ! 3]"
  proof -
    have "length (take 4 b) = 4"
      using assms by (simp add: HeaderSize_def)
    then obtain b0 b1 b2 b3 where bs: "take 4 b = [b0, b1, b2, b3]"
      by (rule list_length_4E)
    have "b ! i = [b0, b1, b2, b3] ! i" if "i < 4" for i
      using that by (simp flip: bs)
    from this [of 0] this [of 1] this [of 2] this [of 3] show ?thesis
      by (simp add: bs)
  qed
  ultimately have "[b ! 0, b ! 1, b ! 2, b ! 3] @ bslice 4 8 b @ bslice 8 16 b @ bslice 16 18 b @ drop 18 b
      = take 4 b @ drop 4 b"
    by (simp only:)
  then show ?thesis
    by (simp only: HeaderSize_def append_take_drop_id)
qed

lemma unat_u16_le: "unat (w :: u16) \<le> 65535"
proof -
  have "unat w < 2 ^ LENGTH(16)"
    by (rule unsigned_less)
  then show ?thesis by simp
qed

lemma Unmarshal_Inr:
  assumes "Unmarshal b = Inr f"
  shows "b = wire_header (b ! 3) f @ fr_payload f" and "length (fr_payload f) \<le> MaxPayload"
proof -
  from assms have len: "length b = HeaderSize + unat (get_uint16 (bslice 16 18 b))"
    and ver: "b ! 0 = Version"
    and f: "f = \<lparr>fr_type = b ! 1, fr_flags = b ! 2, fr_sid = get_uint32 (bslice 4 8 b),
                  fr_seq = get_uint64 (bslice 8 16 b), fr_payload = drop HeaderSize b\<rparr>"
    by (auto simp: Unmarshal_def Let_def split: if_splits)
  have n: "length (fr_payload f) = unat (get_uint16 (bslice 16 18 b))"
    using len by (simp add: f)
  then show "length (fr_payload f) \<le> MaxPayload"
    by (simp add: MaxPayload_def unat_u16_le)
  have hdr: "18 \<le> length b"
    by (simp add: len HeaderSize_def)
  then have lens: "length (bslice 4 8 b) = 4" "length (bslice 8 16 b) = 8" "length (bslice 16 18 b) = 2"
    by simp_all
  have "wire_header (b ! 3) f = [b ! 0, b ! 1, b ! 2, b ! 3] @ bslice 4 8 b @ bslice 8 16 b @ bslice 16 18 b"
    using n put_get_uint32 [OF lens(1)] put_get_uint64 [OF lens(2)] put_get_uint16 [OF lens(3)]
    by (simp add: wire_header_def f ver)
  moreover have "fr_payload f = drop HeaderSize b"
    by (simp add: f)
  ultimately have "wire_header (b ! 3) f @ fr_payload f
      = [b ! 0, b ! 1, b ! 2, b ! 3] @ bslice 4 8 b @ bslice 8 16 b @ bslice 16 18 b @ drop HeaderSize b"
    by (simp only: append_assoc)
  also have "\<dots> = b"
    by (rule frame_bytes_split) (simp add: hdr HeaderSize_def)
  finally show "b = wire_header (b ! 3) f @ fr_payload f" by simp
qed

section \<open>Chunking\<close>

definition chunk_end :: "byte list \<Rightarrow> nat \<Rightarrow> nat" where
  "chunk_end payload off =
     (let end = off + MaxPayload in if end > length payload then length payload else end)"

lemma chunk_end_gt: "off < length payload \<Longrightarrow> off < chunk_end payload off"
  by (simp add: chunk_end_def Let_def MaxPayload_def)

lemma chunk_end_le: "chunk_end payload off \<le> length payload"
  by (simp add: chunk_end_def Let_def)

lemma chunk_end_diff: "chunk_end payload off - off \<le> MaxPayload"
  by (auto simp: chunk_end_def Let_def)

lemmas chunk_end_bounds = chunk_end_gt chunk_end_le chunk_end_diff

function chunk_loop :: "frame_type \<Rightarrow> u32 \<Rightarrow> byte list \<Rightarrow> byte \<Rightarrow> u64 \<Rightarrow> nat \<Rightarrow> frame list" where
  "chunk_loop t sid payload extra seq off =
     (if off < length payload then
        let end = chunk_end payload off;
            flags = (if off = 0 then extra else 0) OR (if end < length payload then FlagMore else 0);
            seq' = (if t = FrameOutput then seq + word_of_nat (end - off) else seq)
        in \<lparr>fr_type = t, fr_flags = flags, fr_sid = sid, fr_seq = seq, fr_payload = bslice off end payload\<rparr>
             # chunk_loop t sid payload extra seq' end
      else [])"
  by pat_completeness auto
termination
  by (relation "measure (\<lambda>(t, sid, payload, extra, seq, off). length payload - off)")
     (auto intro!: diff_less_mono2 chunk_end_bounds)

declare chunk_loop.simps [simp del]

definition Chunk :: "frame_type \<Rightarrow> u32 \<Rightarrow> u64 \<Rightarrow> byte list \<Rightarrow> byte \<Rightarrow> frame list" where
  "Chunk t sid seq payload extra =
     (if payload = [] then
        [\<lparr>fr_type = t, fr_flags = extra, fr_sid = sid, fr_seq = seq, fr_payload = []\<rparr>]
      else chunk_loop t sid payload extra seq 0)"

text \<open>
  What a receiver of the frames expects: every frame begins where the one before ended.
\<close>

fun contiguous :: "u64 \<Rightarrow> frame list \<Rightarrow> bool" where
  "contiguous s [] \<longleftrightarrow> True"
| "contiguous s (f # fs) \<longleftrightarrow> fr_seq f = s \<and> contiguous (s + word_of_nat (length (fr_payload f))) fs"

definition chunk_flags :: "bool \<Rightarrow> byte \<Rightarrow> frame list \<Rightarrow> bool" where
  "chunk_flags first extra fs \<longleftrightarrow> (\<forall>i < length fs. fr_flags (fs ! i) =
     (if i = 0 \<and> first then extra else 0) OR (if Suc i < length fs then FlagMore else 0))"

lemma chunk_flags_Cons:
  "chunk_flags first extra (f # fs) \<longleftrightarrow>
     fr_flags f = (if first then extra else 0) OR (if fs \<noteq> [] then FlagMore else 0)
     \<and> chunk_flags False extra fs"
  by (auto simp: chunk_flags_def nth_Cons less_Suc_eq_0_disj split: nat.splits)

lemma chunk_loop_done: "length payload \<le> off \<Longrightarrow> chunk_loop t sid payload extra seq off = []"
  by (subst chunk_loop.simps) simp

lemma chunk_loop_step:
  "off < length payload \<Longrightarrow> chunk_loop t sid payload extra seq off =
     \<lparr>fr_type = t, fr_flags = (if off = 0 then extra else 0)
        OR (if chunk_end payload off < length payload then FlagMore else 0),
      fr_sid = sid, fr_seq = seq, fr_payload = bslice off (chunk_end payload off) payload\<rparr>
     # chunk_loop t sid payload extra
         (if t = FrameOutput then seq + word_of_nat (chunk_end payload off - off) else seq)
         (chunk_end payload off)"
  by (subst chunk_loop.simps) (simp add: Let_def)

lemma chunk_loop_Nil_iff: "chunk_loop t sid payload extra seq off = [] \<longleftrightarrow> length payload \<le> off"
  by (cases "off < length payload") (simp_all add: chunk_loop_step chunk_loop_done)

text \<open>The induction that follows the loop: from the end of each piece to its beginning.\<close>

lemma chunk_loop_cases_induct [case_names stop step]:
  assumes stop: "\<And>seq off. length payload \<le> off \<Longrightarrow> P seq off"
    and step: "\<And>seq off. off < length payload \<Longrightarrow>
      (\<And>seq'. P seq' (chunk_end payload off)) \<Longrightarrow> P seq off"
  shows "P (seq :: u64) off"
proof (induction "length payload - off" arbitrary: seq off rule: less_induct)
  case less
  show ?case
  proof (cases "off < length payload")
    case True
    then have "length payload - chunk_end payload off < length payload - off"
      by (auto intro!: diff_less_mono2 chunk_end_bounds)
    then show ?thesis using True less step by blast
  qed (use stop in simp)
qed

lemma chunk_loop_concat:
  "concat (map fr_payload (chunk_loop t sid payload extra seq off)) = drop off payload"
proof (induction seq off rule: chunk_loop_cases_induct [where payload = payload])
  case (step seq off)
  then show ?case
    using take_drop_bslice [of off "chunk_end payload off" payload] chunk_end_gt [of off payload]
    by (simp add: chunk_loop_step)
qed (simp add: chunk_loop_done)

lemma chunk_loop_frames:
  "\<forall>f \<in> set (chunk_loop t sid payload extra seq off).
     fr_type f = t \<and> fr_sid f = sid \<and> 0 < length (fr_payload f) \<and> length (fr_payload f) \<le> MaxPayload"
proof (induction seq off rule: chunk_loop_cases_induct [where payload = payload])
  case (step seq off)
  then show ?case
    using chunk_end_gt [of off payload] chunk_end_diff [of payload off]
    by (auto simp: chunk_loop_step simp flip: length_greater_0_conv)
qed (simp add: chunk_loop_done)

lemma chunk_loop_flags: "chunk_flags (off = 0) extra (chunk_loop t sid payload extra seq off)"
proof (induction seq off rule: chunk_loop_cases_induct [where payload = payload])
  case (step seq off)
  have "chunk_end payload off \<noteq> 0"
    using chunk_end_gt [OF step(1)] by simp
  with step show ?case
    by (simp add: chunk_loop_step chunk_flags_Cons chunk_loop_Nil_iff)
qed (simp add: chunk_loop_done chunk_flags_def)

lemma chunk_loop_seq:
  "(if t = FrameOutput then contiguous seq (chunk_loop t sid payload extra seq off)
    else \<forall>f \<in> set (chunk_loop t sid payload extra seq off). fr_seq f = seq)"
proof (induction seq off rule: chunk_loop_cases_induct [where payload = payload])
  case (step seq off)
  have "min (chunk_end payload off - off) (length payload - off) = chunk_end payload off - off"
    using chunk_end_le [of payload off] by simp
  with step show ?case
    by (auto simp: chunk_loop_step split: if_splits)
qed (simp add: chunk_loop_done)

section \<open>Resize and end-of-stream payloads\<close>

definition ResizePayload :: "u16 \<Rightarrow> u16 \<Rightarrow> byte list" where
  "ResizePayload cols rows = put_uint16 cols @ put_uint16 rows"

definition ParseResize :: "byte list \<Rightarrow> frame_error + (u16 \<times> u16)" where
  "ParseResize p = (if length p \<noteq> 4 then Inl ErrBadPayload
     else Inr (get_uint16 (bslice 0 2 p), get_uint16 (bslice 2 4 p)))"

text \<open>
  A Go \<^verbatim>\<open>int32\<close> is a 32-bit word read with \<open>sint\<close>; the conversion to \<^verbatim>\<open>uint32\<close> keeps the bits.
\<close>

definition EOFPayload :: "i32 \<Rightarrow> byte list" where
  "EOFPayload code = put_uint32 code"

definition ParseEOF :: "byte list \<Rightarrow> frame_error + i32" where
  "ParseEOF p = (if length p \<noteq> 4 then Inl ErrBadPayload else Inr (get_uint32 p))"

section \<open>The codec as an interface\<close>

text \<open>
  What the routing code relies on: a codec whose encoder fails only on long payloads, whose
  decoder accepts exactly the encodings up to the reserved byte, and whose header reader
  agrees with the decoder.
\<close>

locale frame_codec =
  fixes enc :: "frame \<Rightarrow> frame_error + byte list"
    and dec :: "byte list \<Rightarrow> frame_error + frame"
    and peek :: "byte list \<Rightarrow> frame_error + (frame_type \<times> u32)"
    and fits :: "frame \<Rightarrow> bool"
  assumes enc_fits: "fits f \<Longrightarrow> \<exists>b. enc f = Inr b"
    and dec_enc: "enc f = Inr b \<Longrightarrow> dec b = Inr f"
    and peek_dec: "peek b = map_sum id (\<lambda>f. (fr_type f, fr_sid f)) (dec b)"
begin

lemma enc_inj: "enc f = Inr b \<Longrightarrow> enc g = Inr b \<Longrightarrow> f = g"
  using dec_enc by (metis sum.inject(2))

lemma peek_enc: "enc f = Inr b \<Longrightarrow> peek b = Inr (fr_type f, fr_sid f)"
  by (simp add: peek_dec dec_enc)

lemma enc_dec_all:
  "\<forall>f \<in> set fs. fits f \<Longrightarrow> \<exists>bs. map enc fs = map Inr bs \<and> map dec bs = map Inr fs"
proof (induction fs)
  case (Cons f fs)
  then obtain b bs where "enc f = Inr b" "map enc fs = map Inr bs" "map dec bs = map Inr fs"
    using enc_fits by fastforce
  then show ?case
    by (intro exI [of _ "b # bs"]) (simp add: dec_enc)
qed simp

end

lemma Marshal_Unmarshal_eq: "Marshal f = Inr b \<Longrightarrow> Unmarshal b = Inr f"
  by (auto simp: Marshal_wire Unmarshal_wire split: if_splits)

lemma PeekHeader_eq: "PeekHeader b = map_sum id (\<lambda>f. (fr_type f, fr_sid f)) (Unmarshal b)"
  by (simp add: PeekHeader_def Unmarshal_def Let_def)

interpretation codec: frame_codec Marshal Unmarshal PeekHeader "\<lambda>f. length (fr_payload f) \<le> MaxPayload"
  by unfold_locales (auto simp: Marshal_Unmarshal_eq PeekHeader_eq Marshal_wire)

section \<open>Properties\<close>

text \<open>C31: Decoding inverts encoding: every frame whose payload fits is encoded into 18 header
  bytes and its payload, and decoding these bytes gives the frame back, field by field.\<close>

theorem frame_roundtrip:
  assumes "length (fr_payload f) \<le> MaxPayload"
  shows "\<exists>b. Marshal f = Inr b \<and> length b = HeaderSize + length (fr_payload f) \<and> Unmarshal b = Inr f"
  using assms by (simp add: Marshal_wire Unmarshal_wire)

theorem frame_roundtrip_witness:
  "\<exists>b. Marshal \<lparr>fr_type = FrameInput, fr_flags = 0, fr_sid = 7, fr_seq = 300, fr_payload = [1, 2]\<rparr> = Inr b
     \<and> length b = HeaderSize + 2
     \<and> Unmarshal b = Inr \<lparr>fr_type = FrameInput, fr_flags = 0, fr_sid = 7, fr_seq = 300, fr_payload = [1, 2]\<rparr>"
  using frame_roundtrip [of "\<lparr>fr_type = FrameInput, fr_flags = 0, fr_sid = 7, fr_seq = 300, fr_payload = [1, 2]\<rparr>"]
  by (simp add: MaxPayload_def)

text \<open>C35: The decoder accepts nothing but encodings: a byte string it accepts is the encoding
  of the frame it returns, except for the reserved fourth byte, which it ignores; and the
  relay's header reader accepts exactly the same byte strings, with the same type and session.\<close>

theorem unmarshal_sound:
  "(case Unmarshal b of
      Inl e \<Rightarrow> PeekHeader b = Inl e
    | Inr f \<Rightarrow> Marshal f = Inr (b[3 := 0]) \<and> PeekHeader b = Inr (fr_type f, fr_sid f))"
proof (cases "Unmarshal b")
  case (Inl e)
  then show ?thesis by (simp add: codec.peek_dec)
next
  case (Inr f)
  have "(wire_header r f)[3 := 0] = wire_header 0 f" for r
    by (simp add: wire_header_def numeral_3_eq_3)
  then have "(wire_header r f @ fr_payload f)[3 := 0] = wire_header 0 f @ fr_payload f" for r
    by (simp add: list_update_append HeaderSize_def)
  with Unmarshal_Inr [OF Inr] have "Marshal f = Inr (b[3 := 0])"
    by (metis Marshal_wire linorder_not_less)
  with Inr show ?thesis by (simp add: codec.peek_dec)
qed

lemma Chunk_spec:
  fixes t sid seq payload extra
  defines "fs \<equiv> Chunk t sid seq payload extra"
  shows "fs \<noteq> [] \<and> concat (map fr_payload fs) = payload
    \<and> (\<forall>f \<in> set fs. fr_type f = t \<and> fr_sid f = sid \<and> (\<exists>b. Marshal f = Inr b))
    \<and> chunk_flags True extra fs
    \<and> (if t = FrameOutput then contiguous seq fs else \<forall>f \<in> set fs. fr_seq f = seq)"
proof (cases "payload = []")
  case True
  then show ?thesis
    by (simp add: fs_def Chunk_def chunk_flags_def codec.enc_fits)
next
  case False
  then have fs: "fs = chunk_loop t sid payload extra seq 0"
    by (simp add: fs_def Chunk_def)
  show ?thesis
    unfolding fs using False chunk_loop_flags [of 0 extra t sid payload seq]
      chunk_loop_seq [of t seq sid payload extra 0]
    using chunk_loop_frames [of t sid payload extra seq 0]
    by (auto simp: chunk_loop_Nil_iff chunk_loop_concat intro: codec.enc_fits)
qed

text \<open>C34: Splitting a payload loses nothing and every piece can be sent: the payloads of the
  frames concatenate to the payload, each frame fits, carries the requested type and session,
  only the first has the extra flag, all but the last have the more flag, and the sequence
  numbers of output frames advance by the bytes sent (other types repeat theirs).\<close>

theorem chunk_reassembles:
  fixes t sid seq payload extra
  defines "fs \<equiv> Chunk t sid seq payload extra"
  shows "fs \<noteq> [] \<and> concat (map fr_payload fs) = payload
    \<and> (\<forall>f \<in> set fs. fr_type f = t \<and> fr_sid f = sid \<and> (\<exists>b. Marshal f = Inr b))
    \<and> chunk_flags True extra fs
    \<and> (if t = FrameOutput then contiguous seq fs else \<forall>f \<in> set fs. fr_seq f = seq)"
  unfolding fs_def by (rule Chunk_spec)

theorem chunk_reassembles_witness:
  "concat (map fr_payload (Chunk FrameOutput 7 100 (replicate 70000 65) FlagReset)) = replicate 70000 65
   \<and> contiguous 100 (Chunk FrameOutput 7 100 (replicate 70000 65) FlagReset)"
  using chunk_reassembles [of FrameOutput 7 100 "replicate 70000 65" FlagReset]
  by (simp del: replicate_Suc)

text \<open>The resize and exit payloads are decoded to the values they were built from, and a
  payload of any other length is refused.\<close>

theorem control_payload_roundtrip:
  "ParseResize (ResizePayload cols rows) = Inr (cols, rows) \<and> ParseEOF (EOFPayload code) = Inr code
   \<and> (length p \<noteq> 4 \<longleftrightarrow> ParseResize p = Inl ErrBadPayload) \<and> (length p \<noteq> 4 \<longleftrightarrow> ParseEOF p = Inl ErrBadPayload)"
  by (auto simp: ParseResize_def ResizePayload_def ParseEOF_def EOFPayload_def bslice_def)

end
