(* ===== verification/Ring.thy ===== *)
theory Ring
  imports Prelude
begin

text \<open>
  The scrollback of a session (\<^verbatim>\<open>internal/session/ring.go\<close>): a byte ring of fixed capacity
  that also counts, modulo 2 to the 64, every byte ever written. The refinement relation
  \<open>ring_holds r xs\<close> says that \<open>r\<close> is what remains after the stream \<open>xs\<close> was written; each
  operation is proved against it, and the locale \<open>scrollback\<close> is the contract a session uses.
\<close>

section \<open>The ring\<close>

text \<open>
  The mutex is not modelled: every method holds it from its first to its last statement, so
  calls are atomic. Indices and lengths are Go ints that stay below the capacity or the
  length of a slice in memory.
\<close>

record ring =
  rg_buf :: "byte list"
  rg_start :: nat
  rg_n :: nat
  rg_seq :: u64

text \<open>\<^verbatim>\<open>NewRing\<close> panics on a capacity that is not positive (None).\<close>

definition NewRing :: "int \<Rightarrow> ring option" where
  "NewRing capacity = (if capacity \<le> 0 then None
     else Some \<lparr>rg_buf = replicate (nat capacity) 0, rg_start = 0, rg_n = 0, rg_seq = 0\<rparr>)"

text \<open>\<^verbatim>\<open>copy(dst[i:], src)\<close>: as many bytes as fit; it returns how many.\<close>

definition copy_at :: "nat \<Rightarrow> byte list \<Rightarrow> byte list \<Rightarrow> byte list \<times> nat" where
  "copy_at i src dst =
     (let k = min (length src) (length dst - i) in (take i dst @ take k src @ drop (i + k) dst, k))"

definition ring_Write :: "byte list \<Rightarrow> ring \<Rightarrow> ring \<times> u64" where
  "ring_Write p r =
     (let startSeq = rg_seq r;
          r = r\<lparr>rg_seq := rg_seq r + word_of_nat (length p)\<rparr>;
          c = length (rg_buf r) in
      if length p \<ge> c then
        (r\<lparr>rg_buf := fst (copy_at 0 (drop (length p - c) p) (rg_buf r)), rg_start := 0, rg_n := c\<rparr>, startSeq)
      else
        let end = (rg_start r + rg_n r) mod c;
            (buf1, first) = copy_at end p (rg_buf r);
            buf2 = (if first < length p then fst (copy_at 0 (drop first p) buf1) else buf1);
            r = r\<lparr>rg_buf := buf2\<rparr> in
        if rg_n r + length p > c then
          let overflow = rg_n r + length p - c in
          (r\<lparr>rg_start := (rg_start r + overflow) mod c, rg_n := c\<rparr>, startSeq)
        else (r\<lparr>rg_n := rg_n r + length p\<rparr>, startSeq))"

definition ring_Seq :: "ring \<Rightarrow> u64" where "ring_Seq r = rg_seq r"
definition ring_Len :: "ring \<Rightarrow> nat" where "ring_Len r = rg_n r"
definition ring_Cap :: "ring \<Rightarrow> nat" where "ring_Cap r = length (rg_buf r)"

definition copyLast :: "nat \<Rightarrow> ring \<Rightarrow> byte list" where
  "copyLast k r =
     (let out = replicate k 0 in
      if k = 0 then out
      else let c = length (rg_buf r);
               from = (rg_start r + rg_n r - k) mod c;
               (out1, first) = copy_at 0 (drop from (rg_buf r)) out in
        if first < k then fst (copy_at first (take (k - first) (rg_buf r)) out1) else out1)"

definition ring_Tail :: "int \<Rightarrow> ring \<Rightarrow> byte list \<times> u64" where
  "ring_Tail m r =
     (let m = (if m > int (rg_n r) then int (rg_n r) else m);
          m = (if m < 0 then 0 else m)
      in (copyLast (nat m) r, rg_seq r))"

definition ring_Delta :: "u64 \<Rightarrow> ring \<Rightarrow> byte list option" where
  "ring_Delta lastSeq r =
     (let oldest = rg_seq r - word_of_nat (rg_n r) in
      if lastSeq < oldest \<or> lastSeq > rg_seq r then None
      else Some (copyLast (unat (rg_seq r - lastSeq)) r))"

section \<open>What a ring holds\<close>

definition ring_ok :: "ring \<Rightarrow> bool" where
  "ring_ok r \<longleftrightarrow> 0 < length (rg_buf r) \<and> rg_start r < length (rg_buf r) \<and> rg_n r \<le> length (rg_buf r)"

text \<open>The i-th oldest stored byte and all of them, oldest first.\<close>

definition ring_at :: "ring \<Rightarrow> nat \<Rightarrow> byte" where
  "ring_at r i = rg_buf r ! ((rg_start r + i) mod length (rg_buf r))"

definition ring_contents :: "ring \<Rightarrow> byte list" where
  "ring_contents r = map (ring_at r) [0..<rg_n r]"

definition last_bytes :: "nat \<Rightarrow> 'a list \<Rightarrow> 'a list" where
  "last_bytes k xs = drop (length xs - k) xs"

definition ring_holds :: "ring \<Rightarrow> byte list \<Rightarrow> bool" where
  "ring_holds r xs \<longleftrightarrow> ring_ok r \<and> rg_seq r = word_of_nat (length xs)
     \<and> ring_contents r = last_bytes (length (rg_buf r)) xs"

lemma length_ring_contents [simp]: "length (ring_contents r) = rg_n r"
  by (simp add: ring_contents_def)

lemma length_last_bytes [simp]: "length (last_bytes k xs) = min k (length xs)"
  by (simp add: last_bytes_def)

lemma last_bytes_all: "length xs \<le> k \<Longrightarrow> last_bytes k xs = xs"
  by (simp add: last_bytes_def)

lemma last_bytes_append_long: "k \<le> length ys \<Longrightarrow> last_bytes k (xs @ ys) = last_bytes k ys"
  by (simp add: last_bytes_def)

lemma last_bytes_last_bytes:
  assumes "j \<le> k"
  shows "last_bytes j (last_bytes k xs) = last_bytes j xs"
proof -
  have "length xs - (length xs - k) - j + (length xs - k) = length xs - j"
    if "k \<le> length xs" using that assms by simp
  then show ?thesis
    by (cases "k \<le> length xs") (simp_all add: last_bytes_def)
qed

lemma last_bytes_append: "last_bytes k (last_bytes k xs @ ys) = last_bytes k (xs @ ys)"
proof (cases "length ys \<le> k")
  case True
  then have "last_bytes k (zs @ ys) = last_bytes (k - length ys) zs @ ys" for zs :: "'a list"
    by (simp add: last_bytes_def diff_diff_right)
  then show ?thesis
    by (simp add: last_bytes_last_bytes)
qed (simp add: last_bytes_append_long)

lemma nth_last_bytes:
  "k \<le> length xs \<Longrightarrow> i < k \<Longrightarrow> last_bytes k xs ! i = xs ! (length xs - k + i)"
  by (simp add: last_bytes_def)

lemma ring_holds_n: "ring_holds r xs \<Longrightarrow> rg_n r = min (length (rg_buf r)) (length xs)"
  unfolding ring_holds_def by (metis length_last_bytes length_ring_contents)

section \<open>Copying and the ring's arithmetic\<close>

lemma length_copy_at [simp]: "i \<le> length dst \<Longrightarrow> length (fst (copy_at i src dst)) = length dst"
  by (auto simp: copy_at_def Let_def)

lemma snd_copy_at: "snd (copy_at i src dst) = min (length src) (length dst - i)"
  by (simp add: copy_at_def Let_def)

lemma nth_copy_at:
  "i \<le> length dst \<Longrightarrow> j < length dst \<Longrightarrow> fst (copy_at i src dst) ! j =
     (if i \<le> j \<and> j < i + length src then src ! (j - i) else dst ! j)"
  by (auto simp: copy_at_def Let_def nth_append min_def)

text \<open>A sum below twice the modulus wraps at most once.\<close>

lemma mod_once: "a < 2 * (c::nat) \<Longrightarrow> a mod c = (if a < c then a else a - c)"
  by (simp add: mod_if)

text \<open>Two copies write a block that may wrap around the end of the buffer.\<close>

definition wrap_copy :: "nat \<Rightarrow> byte list \<Rightarrow> byte list \<Rightarrow> byte list" where
  "wrap_copy end p buf =
     (let (buf1, first) = copy_at end p buf
      in if first < length p then fst (copy_at 0 (drop first p) buf1) else buf1)"

lemma length_wrap_copy [simp]: "end \<le> length buf \<Longrightarrow> length (wrap_copy end p buf) = length buf"
  by (simp add: wrap_copy_def case_prod_beta Let_def)

lemma nth_wrap_copy:
  assumes "end < length buf" and "length p < length buf" and "j < length buf"
  shows "wrap_copy end p buf ! j =
    (if end \<le> j \<and> j < end + length p then p ! (j - end)
     else if j + length buf < end + length p then p ! (j + length buf - end) else buf ! j)"
  using assms
  by (auto simp: wrap_copy_def case_prod_beta Let_def nth_copy_at snd_copy_at min_def add.commute)

text \<open>
  The arithmetic of the wrapped block: \<open>e\<close> is where it begins, \<open>j\<close> the place of the q-th
  byte counted from the start \<open>s\<close>.
\<close>

lemma ring_index_arith:
  fixes s n L c q e j :: nat
  assumes "s < c" "n \<le> c" "L < c" "q < n + L" "n + L \<le> c + q"
    and "e < c" "e = s + n \<or> e + c = s + n" and "j < c" "j = s + q \<or> j + c = s + q \<or> j + 2 * c = s + q"
  shows "q < n \<Longrightarrow> \<not> (e \<le> j \<and> j < e + L) \<and> \<not> j + c < e + L"
    and "n \<le> q \<Longrightarrow> (e \<le> j \<and> j < e + L \<and> j - e = q - n) \<or> (j < e \<and> j + c < e + L \<and> j + c - e = q - n)"
  using assms by arith+

lemma mod_place:
  fixes a c :: nat
  assumes "a < 3 * c"
  shows "a mod c = a \<or> a mod c + c = a \<or> a mod c + 2 * c = a"
proof -
  have "a div c < 3"
    using assms by (simp add: less_mult_imp_div_less)
  then consider "a div c = 0" | "a div c = 1" | "a div c = 2"
    by linarith
  then show ?thesis
    using div_mult_mod_eq [of a c] by cases simp_all
qed

lemma mod_place2:
  fixes a c :: nat
  assumes "a < 2 * c"
  shows "a mod c = a \<or> a mod c + c = a"
proof -
  have "a div c < 2"
    using assms by (simp add: less_mult_imp_div_less)
  then consider "a div c = 0" | "a div c = 1"
    by linarith
  then show ?thesis
    using div_mult_mod_eq [of a c] by cases simp_all
qed

lemma wrap_copy_contents:
  assumes ok: "ring_ok r" and p: "length p < length (rg_buf r)"
    and q: "q < rg_n r + length p" "rg_n r + length p \<le> length (rg_buf r) + q"
  shows "wrap_copy ((rg_start r + rg_n r) mod length (rg_buf r)) p (rg_buf r)
           ! ((rg_start r + q) mod length (rg_buf r)) = (ring_contents r @ p) ! q"
proof -
  let ?c = "length (rg_buf r)"
  let ?e = "(rg_start r + rg_n r) mod ?c" and ?j = "(rg_start r + q) mod ?c"
  have start: "rg_start r < ?c" and n: "rg_n r \<le> ?c" and c: "0 < ?c"
    using ok by (auto simp: ring_ok_def)
  have e: "?e < ?c" "?e = rg_start r + rg_n r \<or> ?e + ?c = rg_start r + rg_n r"
    using start n c mod_place2 [of "rg_start r + rg_n r" ?c] by auto
  have j: "?j < ?c" "?j = rg_start r + q \<or> ?j + ?c = rg_start r + q \<or> ?j + 2 * ?c = rg_start r + q"
    using start n c p q mod_place [of "rg_start r + q" ?c] by auto
  note arith = ring_index_arith [OF start n p q e j]
  show ?thesis
  proof (cases "q < rg_n r")
    case True
    then show ?thesis
      using arith(1) [OF True]
      by (auto simp: nth_wrap_copy e(1) p j(1) nth_append ring_contents_def ring_at_def)
  next
    case False
    with arith(2) show ?thesis
      by (auto simp: nth_wrap_copy e(1) p j(1) nth_append)
  qed
qed

lemma ring_Write_snd [simp]: "snd (ring_Write p r) = rg_seq r"
  by (simp add: ring_Write_def Let_def case_prod_beta)

lemma ring_Write_fst:
  "fst (ring_Write p r) =
     (let c = length (rg_buf r) in
      if length p \<ge> c then
        \<lparr>rg_buf = fst (copy_at 0 (last_bytes c p) (rg_buf r)), rg_start = 0, rg_n = c,
         rg_seq = rg_seq r + word_of_nat (length p)\<rparr>
      else \<lparr>rg_buf = wrap_copy ((rg_start r + rg_n r) mod c) p (rg_buf r),
         rg_start = (if rg_n r + length p > c then (rg_start r + (rg_n r + length p - c)) mod c else rg_start r),
         rg_n = min c (rg_n r + length p), rg_seq = rg_seq r + word_of_nat (length p)\<rparr>)"
  by (simp add: ring_Write_def wrap_copy_def last_bytes_def Let_def case_prod_beta min_def)

lemma ring_Write_contents:
  assumes "ring_ok r"
  shows "length (rg_buf (fst (ring_Write p r))) = length (rg_buf r)"
    and "ring_ok (fst (ring_Write p r))"
    and "ring_contents (fst (ring_Write p r)) = last_bytes (length (rg_buf r)) (ring_contents r @ p)"
proof -
  let ?c = "length (rg_buf r)" and ?r' = "fst (ring_Write p r)"
  show len: "length (rg_buf ?r') = ?c"
    using assms by (simp add: ring_Write_fst Let_def ring_ok_def)
  have "rg_start ?r' < ?c" "rg_n ?r' \<le> ?c"
    using assms by (simp_all add: ring_Write_fst Let_def ring_ok_def)
  then show "ring_ok ?r'"
    using assms by (simp add: ring_ok_def len)
  show "ring_contents ?r' = last_bytes ?c (ring_contents r @ p)"
  proof (rule nth_equalityI)
    show "length (ring_contents ?r') = length (last_bytes ?c (ring_contents r @ p))"
      by (auto simp: ring_Write_fst Let_def)
  next
    fix i
    assume "i < length (ring_contents ?r')"
    then have i: "i < rg_n ?r'" by simp
    show "ring_contents ?r' ! i = last_bytes ?c (ring_contents r @ p) ! i"
    proof (cases "length p \<ge> ?c")
      case True
      with i show ?thesis
        by (simp add: ring_Write_fst Let_def ring_contents_def ring_at_def nth_copy_at last_bytes_append_long)
    next
      case False
      define o' where "o' = (if rg_n r + length p > ?c then rg_n r + length p - ?c else 0)"
      have n': "rg_n ?r' + o' = rg_n r + length p"
        using False by (auto simp: ring_Write_fst Let_def o'_def)
      have "(rg_start ?r' + i) mod ?c = (rg_start r + (o' + i)) mod ?c"
        using False by (auto simp: ring_Write_fst Let_def o'_def mod_add_left_eq add.assoc)
      then have "ring_contents ?r' ! i
          = wrap_copy ((rg_start r + rg_n r) mod ?c) p (rg_buf r) ! ((rg_start r + (o' + i)) mod ?c)"
        using i len False by (simp add: ring_contents_def ring_at_def) (simp add: ring_Write_fst Let_def)
      also have "\<dots> = (ring_contents r @ p) ! (o' + i)"
        using assms False i n' by (intro wrap_copy_contents) (auto simp: o'_def)
      also have "\<dots> = last_bytes ?c (ring_contents r @ p) ! i"
        using i n' by (simp add: last_bytes_def o'_def nth_drop add.commute del: drop_append split: if_splits)
      finally show ?thesis .
    qed
  qed
qed

lemma nth_two_copies:
  assumes "f < length buf" and "k \<le> length buf" and "i < k"
  shows "(let (out1, first) = copy_at 0 (drop f buf) (replicate k 0)
          in if first < k then fst (copy_at first (take (k - first) buf) out1) else out1) ! i
    = (if f + i < length buf then buf ! (f + i) else buf ! (f + i - length buf))"
proof (cases "length buf - f < k")
  case True
  then show ?thesis
    using assms by (cases "length buf - f \<le> i") (auto simp: Let_def case_prod_beta snd_copy_at nth_copy_at add.commute)
next
  case False
  with assms have "f + i < length buf" by simp
  then show ?thesis
    using assms False by (simp add: Let_def case_prod_beta snd_copy_at nth_copy_at)
qed

lemma copyLast_contents:
  assumes ok: "ring_ok r" and k: "k \<le> rg_n r"
  shows "copyLast k r = last_bytes k (ring_contents r)"
proof (cases "k = 0")
  case True
  then show ?thesis by (simp add: copyLast_def last_bytes_def)
next
  case False
  let ?c = "length (rg_buf r)"
  let ?f = "(rg_start r + rg_n r - k) mod ?c"
  define a where "a = rg_start r + rg_n r - k"
  have start: "rg_start r < ?c" and n: "rg_n r \<le> ?c" and c: "0 < ?c"
    using ok by (auto simp: ring_ok_def)
  have f: "?f < ?c" "?f = a \<or> ?f + ?c = a"
    using start n c k mod_place2 [of a ?c] by (auto simp: a_def)
  have len: "length (copyLast k r) = k"
    by (simp add: copyLast_def Let_def case_prod_beta snd_copy_at)
  show ?thesis
  proof (rule nth_equalityI)
    fix i
    assume "i < length (copyLast k r)"
    then have i: "i < k" by (simp add: len)
    have j: "(a + i) mod ?c = (if ?f + i < ?c then ?f + i else ?f + i - ?c)"
    proof -
      have "(a + i) mod ?c = (?f + i) mod ?c"
        by (simp add: a_def mod_add_left_eq)
      also have "\<dots> = (if ?f + i < ?c then ?f + i else ?f + i - ?c)"
        using f(1) i k n by (intro mod_once) linarith
      finally show ?thesis .
    qed
    have "last_bytes k (ring_contents r) ! i = ring_at r (rg_n r - k + i)"
      using i k by (simp add: nth_last_bytes ring_contents_def)
    also have "\<dots> = rg_buf r ! ((a + i) mod ?c)"
      using k by (simp add: ring_at_def a_def add.assoc)
    also have "\<dots> = copyLast k r ! i"
      using nth_two_copies [OF f(1) _ i] k n False unfolding j
      by (simp add: copyLast_def Let_def a_def)
    finally show "copyLast k r ! i = last_bytes k (ring_contents r) ! i" ..
  qed (simp add: len min_absorb1 k)
qed

section \<open>The operations against the stream written\<close>

text \<open>A stream shorter than this many bytes does not wrap the 64-bit counter.\<close>

definition stream_bound :: nat where "stream_bound = 2 ^ 64"

lemma NewRing_holds: "NewRing c = Some r \<Longrightarrow> ring_holds r [] \<and> ring_Cap r = nat c \<and> 0 < ring_Cap r"
  by (auto simp: NewRing_def ring_holds_def ring_ok_def ring_contents_def last_bytes_def ring_Cap_def
      split: if_splits)

lemma ring_Cap_Write [simp]: "ring_ok r \<Longrightarrow> ring_Cap (fst (ring_Write p r)) = ring_Cap r"
  by (simp add: ring_Cap_def ring_Write_contents)

lemma rg_seq_Write [simp]: "rg_seq (fst (ring_Write p r)) = rg_seq r + word_of_nat (length p)"
  by (simp add: ring_Write_fst Let_def)

lemma Write_holds: "ring_holds r xs \<Longrightarrow> ring_holds (fst (ring_Write p r)) (xs @ p)"
  by (simp add: ring_holds_def ring_Write_contents last_bytes_append)

lemma Tail_holds:
  "ring_holds r xs \<Longrightarrow> ring_Tail m r
     = (last_bytes (min (nat m) (ring_Cap r)) xs, word_of_nat (length xs))"
proof -
  assume h: "ring_holds r xs"
  then have ok: "ring_ok r" and cont: "ring_contents r = last_bytes (ring_Cap r) xs"
    and seq: "rg_seq r = word_of_nat (length xs)" and n: "rg_n r = min (ring_Cap r) (length xs)"
    by (simp_all add: ring_holds_def ring_Cap_def ring_holds_n [OF h])
  have "fst (ring_Tail m r) = copyLast (min (nat m) (rg_n r)) r"
    by (auto simp: ring_Tail_def Let_def min_def)
  also have "\<dots> = last_bytes (min (nat m) (rg_n r)) (last_bytes (ring_Cap r) xs)"
    by (simp add: copyLast_contents ok cont)
  also have "\<dots> = last_bytes (min (nat m) (rg_n r)) xs"
    by (simp add: last_bytes_last_bytes n)
  also have "\<dots> = last_bytes (min (nat m) (ring_Cap r)) xs"
    by (auto simp: n last_bytes_def min_def)
  finally show ?thesis
    by (simp add: prod_eq_iff) (simp add: ring_Tail_def Let_def seq)
qed

lemma Delta_holds:
  assumes h: "ring_holds r xs" and bound: "length xs < stream_bound"
  shows "ring_Delta (word_of_nat m) r = (if m mod stream_bound \<le> length xs
      \<and> length xs - m mod stream_bound \<le> ring_Cap r then Some (drop (m mod stream_bound) xs) else None)"
proof -
  let ?m = "word_of_nat m :: u64" and ?k = "m mod stream_bound"
  have ok: "ring_ok r" and cont: "ring_contents r = last_bytes (ring_Cap r) xs"
    and seq: "rg_seq r = word_of_nat (length xs)" and n: "rg_n r = min (ring_Cap r) (length xs)"
    using h by (simp_all add: ring_holds_def ring_Cap_def ring_holds_n [OF h])
  have uns: "unat (rg_seq r) = length xs" and unm: "unat ?m = ?k"
    using bound by (simp_all add: seq unat_of_nat stream_bound_def)
  have "word_of_nat (length xs) - word_of_nat (rg_n r) = (word_of_nat (length xs - rg_n r) :: u64)"
    by (simp add: n of_nat_diff)
  then have old: "unat (rg_seq r - word_of_nat (rg_n r)) = length xs - rg_n r"
    using bound by (simp add: seq unat_of_nat stream_bound_def)
  have diff: "unat (rg_seq r - ?m) = length xs - ?k" if "?k \<le> length xs"
    using that uns unm by (simp add: unat_sub word_le_nat_alt)
  show ?thesis
  proof (cases "?k \<le> length xs \<and> length xs - ?k \<le> rg_n r")
    case True
    then have "ring_Delta ?m r = Some (copyLast (length xs - ?k) r)"
      by (auto simp: ring_Delta_def Let_def word_less_nat_alt old uns unm diff)
    also have "\<dots> = Some (drop ?k xs)"
      using True n by (simp add: copyLast_contents ok cont last_bytes_last_bytes) (simp add: last_bytes_def)
    finally show ?thesis
      using True n by simp
  next
    case False
    then have "ring_Delta ?m r = None"
      by (auto simp: ring_Delta_def Let_def word_less_nat_alt old uns unm)
    then show ?thesis
      using False n by (auto simp: min_def split: if_splits)
  qed
qed

section \<open>The scrollback as an interface\<close>

text \<open>
  What a session relies on: writes extend the stream, the tail is the end of the stream, and
  a delta is exactly what a client is missing or is refused. A client that received the
  first \<open>m\<close> bytes and gets a delta has the whole stream; one that is refused a delta gets a
  tail that ends at the current sequence number.
\<close>

locale scrollback =
  fixes holds :: "'r \<Rightarrow> byte list \<Rightarrow> bool"
    and put :: "byte list \<Rightarrow> 'r \<Rightarrow> 'r"
    and tail :: "int \<Rightarrow> 'r \<Rightarrow> byte list \<times> u64"
    and delta :: "u64 \<Rightarrow> 'r \<Rightarrow> byte list option"
    and cap :: "'r \<Rightarrow> nat"
  assumes holds_write: "holds r xs \<Longrightarrow> holds (put p r) (xs @ p)"
    and cap_write: "holds r xs \<Longrightarrow> cap (put p r) = cap r"
    and tail_holds: "holds r xs \<Longrightarrow> tail m r = (last_bytes (min (nat m) (cap r)) xs, word_of_nat (length xs))"
    and delta_holds: "holds r xs \<Longrightarrow> length xs < stream_bound \<Longrightarrow>
      delta w r = (if unat w \<le> length xs \<and> length xs - unat w \<le> cap r then Some (drop (unat w) xs) else None)"
begin

lemma holds_writes: "holds r xs \<Longrightarrow> holds (fold put ps r) (xs @ concat ps)"
proof (induction ps arbitrary: r xs)
  case (Cons p ps)
  from Cons.IH [OF holds_write [OF Cons.prems]] show ?case by simp
qed simp

lemma cap_writes: "holds r xs \<Longrightarrow> cap (fold put ps r) = cap r"
proof (induction ps arbitrary: r xs)
  case (Cons p ps)
  from Cons.IH [OF holds_write [OF Cons.prems]] cap_write [OF Cons.prems] show ?case by simp
qed simp

lemma delta_completes:
  "holds r xs \<Longrightarrow> length xs < stream_bound \<Longrightarrow> delta w r = Some d \<Longrightarrow> take (unat w) xs @ d = xs"
  by (auto simp: delta_holds split: if_splits)

lemma delta_current: "holds r xs \<Longrightarrow> length xs < stream_bound \<Longrightarrow> delta (snd (tail m r)) r = Some []"
  by (simp add: delta_holds tail_holds unat_of_nat stream_bound_def)

lemma tail_suffix: "holds r xs \<Longrightarrow> \<exists>ys. xs = ys @ fst (tail m r)"
  by (metis append_take_drop_id fst_conv last_bytes_def tail_holds)

text \<open>After any further writes, a client that saw the stream so far gets only what is new.\<close>

lemma delta_after_writes:
  assumes "holds r xs" and "length xs + length (concat ps) < stream_bound"
    and "length (concat ps) \<le> cap r"
  shows "delta (word_of_nat (length xs)) (fold put ps r) = Some (concat ps)"
  using delta_holds [OF holds_writes [OF assms(1), of ps]] assms cap_writes [OF assms(1), of ps]
  by (simp add: unat_of_nat stream_bound_def)

end

definition ring_write :: "byte list \<Rightarrow> ring \<Rightarrow> ring" where
  "ring_write p r = fst (ring_Write p r)"

lemma Delta_holds_unat:
  assumes "ring_holds r xs" and "length xs < stream_bound"
  shows "ring_Delta w r = (if unat w \<le> length xs \<and> length xs - unat w \<le> ring_Cap r
     then Some (drop (unat w) xs) else None)"
proof -
  have "unat w mod stream_bound = unat w"
    using unat_u64_less [of w] by (simp add: stream_bound_def)
  with Delta_holds [OF assms, of "unat w"] show ?thesis
    by simp
qed

interpretation scroll: scrollback ring_holds ring_write ring_Tail ring_Delta ring_Cap
  by unfold_locales
     (simp_all add: ring_write_def Write_holds Tail_holds Delta_holds_unat, simp add: ring_holds_def)

section \<open>Properties\<close>

text \<open>C32: The ring refines the byte stream: after any sequence of writes to a new ring, each of
  which may be longer than the ring or wrap around its end, the ring holds the last bytes of
  all that was written, up to its capacity, oldest first, its sequence number is the length
  of the stream modulo 2 to the 64, and the tail it returns is the end of that stream.\<close>

theorem ring_refines_stream:
  assumes "NewRing c = Some r0"
  shows "let r = fold ring_write ps r0; xs = concat ps in
    ring_contents r = last_bytes (nat c) xs \<and> ring_Seq r = word_of_nat (length xs)
    \<and> ring_Len r = min (nat c) (length xs) \<and> ring_Cap r = nat c
    \<and> ring_Tail m r = (last_bytes (min (nat m) (nat c)) xs, word_of_nat (length xs))"
proof -
  have 0: "ring_holds r0 []" "ring_Cap r0 = nat c"
    using NewRing_holds [OF assms] by auto
  define r xs where "r = fold ring_write ps r0" and "xs = concat ps"
  have h: "ring_holds r xs" and cap: "ring_Cap r = nat c"
    using scroll.holds_writes [OF 0(1), of ps] scroll.cap_writes [OF 0(1), of ps]
    by (simp_all add: r_def xs_def 0(2))
  have "ring_Tail m r = (last_bytes (min (nat m) (nat c)) xs, word_of_nat (length xs))"
    by (simp add: Tail_holds [OF h] cap)
  moreover have "ring_contents r = last_bytes (nat c) xs" "ring_Seq r = word_of_nat (length xs)"
    "ring_Len r = min (nat c) (length xs)"
    using h cap by (simp_all add: ring_holds_def ring_Seq_def ring_Len_def ring_Cap_def ring_holds_n [OF h])
  ultimately show ?thesis
    using cap by (simp add: Let_def flip: r_def xs_def)
qed

theorem ring_refines_stream_witness:
  "\<exists>r0. NewRing 4 = Some r0 \<and>
     ring_contents (fold ring_write [[1, 2, 3], [4, 5], [6]] r0) = [3, 4, 5, 6]"
proof -
  obtain r0 where r0: "NewRing 4 = Some r0"
    by (simp add: NewRing_def)
  from ring_refines_stream [OF r0, of "[[1, 2, 3], [4, 5], [6]]"] r0 show ?thesis
    by (auto simp: Let_def last_bytes_def)
qed



end
