(* ===== verification/Messages.thy ===== *)
theory Messages
  imports Prelude
begin

text \<open>
  The control plane's data model (\<^verbatim>\<open>internal/proto/messages.go\<close>): message types, the enumerations
  of session and approval states, and the records that agent, relay and clients exchange. The
  JSON text of a message is not modelled: a message is its decoded value. Each enumeration is a
  Go string type; a value that is none of its constants is kept by the last constructor, and
  the conversions from and to the strings are written out.
\<close>

section \<open>Enumerations\<close>

datatype msg_type =
    TAgentHello | THeartbeat | TSessionOpened | TSessionState | TSessionExited | TSessionClosed
  | TSessionUpdated | TApprovalNew | TApprovalClosed
  | TClientHello | TSessionOpen | TSessionAttach | TSessionDetach | TSessionResize | TSessionSignal
  | TSessionClose | TSessionSetMode | TApprovalDecide
  | TDeviceList | TDeviceState | TSessionList | TApprovalList | TAck | TError
  | TOther string

definition msg_types :: "(string \<times> msg_type) list" where
  "msg_types =
    [(''agent.hello'', TAgentHello), (''heartbeat'', THeartbeat), (''session.opened'', TSessionOpened),
     (''session.state'', TSessionState), (''session.exited'', TSessionExited),
     (''session.closed'', TSessionClosed), (''session.updated'', TSessionUpdated),
     (''approval.new'', TApprovalNew), (''approval.closed'', TApprovalClosed),
     (''client.hello'', TClientHello), (''session.open'', TSessionOpen),
     (''session.attach'', TSessionAttach), (''session.detach'', TSessionDetach),
     (''session.resize'', TSessionResize), (''session.signal'', TSessionSignal),
     (''session.close'', TSessionClose), (''session.set_mode'', TSessionSetMode),
     (''approval.decide'', TApprovalDecide), (''device.list'', TDeviceList),
     (''device.state'', TDeviceState), (''session.list'', TSessionList),
     (''approval.list'', TApprovalList), (''ack'', TAck), (''error'', TError)]"

datatype signal = SigEsc | SigCtrlC | SigEOF | SigKillResume | SigOther string

definition signals :: "(string \<times> signal) list" where
  "signals = [(''esc'', SigEsc), (''ctrl_c'', SigCtrlC), (''eof'', SigEOF), (''kill_resume'', SigKillResume)]"

datatype session_state =
    StateRunning | StateNeedsInput | StateIdle | StateFailed | StateExited | StateQuotaWait | StateUnknown
  | StateOther string

definition session_states :: "(string \<times> session_state) list" where
  "session_states =
    [(''running'', StateRunning), (''needs_input'', StateNeedsInput), (''idle'', StateIdle),
     (''failed'', StateFailed), (''exited'', StateExited), (''quota_wait'', StateQuotaWait),
     (''unknown'', StateUnknown)]"

datatype need_kind = NeedPermission | NeedQuestion | NeedOther string

definition need_kinds :: "(string \<times> need_kind) list" where
  "need_kinds = [(''permission'', NeedPermission), (''question'', NeedQuestion)]"

datatype signal_source =
    SourceHook | SourceHooksJSON | SourceNotify | SourceStatusLine | SourcePTY | SourceNone | SourceOther string

definition signal_sources :: "(string \<times> signal_source) list" where
  "signal_sources =
    [(''hook'', SourceHook), (''hooks_json'', SourceHooksJSON), (''notify'', SourceNotify),
     (''statusline'', SourceStatusLine), (''pty_heuristic'', SourcePTY), (''none'', SourceNone)]"

datatype confidence = ConfidenceHigh | ConfidenceLow | ConfidenceOther string

definition confidences :: "(string \<times> confidence) list" where
  "confidences = [(''high'', ConfidenceHigh), (''low'', ConfidenceLow)]"

datatype approval_mode = ApprovalNotify | ApprovalRemoteFirst | ModeOther string

definition approval_modes :: "(string \<times> approval_mode) list" where
  "approval_modes = [(''notify'', ApprovalNotify), (''remote_first'', ApprovalRemoteFirst)]"

datatype approval_level = LevelHook | LevelKeys | LevelSuspect | LevelOther string

definition approval_levels :: "(string \<times> approval_level) list" where
  "approval_levels = [(''A'', LevelHook), (''B'', LevelKeys), (''C'', LevelSuspect)]"

datatype approval_status =
    ApprovalPending | ApprovalAllowed | ApprovalDenied | ApprovalClosedLocal | ApprovalFallback
  | StatusOther string

definition approval_statuses :: "(string \<times> approval_status) list" where
  "approval_statuses =
    [(''pending'', ApprovalPending), (''allowed'', ApprovalAllowed), (''denied'', ApprovalDenied),
     (''closed_local'', ApprovalClosedLocal), (''fallback'', ApprovalFallback)]"

text \<open>The tools are plain strings: a request may name any.\<close>

abbreviation ToolClaude :: string where "ToolClaude \<equiv> ''claude''"
abbreviation ToolCodex :: string where "ToolCodex \<equiv> ''codex''"
abbreviation ToolGrok :: string where "ToolGrok \<equiv> ''grok''"
abbreviation ToolShell :: string where "ToolShell \<equiv> ''shell''"

text \<open>
  A value of an enumeration is read from its string by the table, and written by the table
  searched the other way; strings outside the table go through the last constructor.
\<close>

definition enum_of :: "(string \<times> 'a) list \<Rightarrow> (string \<Rightarrow> 'a) \<Rightarrow> string \<Rightarrow> 'a" where
  "enum_of tbl other s = (case map_of tbl s of Some v \<Rightarrow> v | None \<Rightarrow> other s)"

fun enum_string :: "(string \<times> 'a) list \<Rightarrow> ('a \<Rightarrow> string) \<Rightarrow> 'a \<Rightarrow> string" where
  "enum_string [] raw v = raw v"
| "enum_string ((s, w) # tbl) raw v = (if v = w then s else enum_string tbl raw v)"

definition msg_type_of :: "string \<Rightarrow> msg_type" where "msg_type_of = enum_of msg_types TOther"

definition msg_type_string :: "msg_type \<Rightarrow> string" where
  "msg_type_string = enum_string msg_types (\<lambda>t. case t of TOther s \<Rightarrow> s | _ \<Rightarrow> '''')"

definition session_state_of :: "string \<Rightarrow> session_state" where
  "session_state_of = enum_of session_states StateOther"

definition session_state_string :: "session_state \<Rightarrow> string" where
  "session_state_string = enum_string session_states (\<lambda>t. case t of StateOther s \<Rightarrow> s | _ \<Rightarrow> '''')"

definition approval_status_of :: "string \<Rightarrow> approval_status" where
  "approval_status_of = enum_of approval_statuses StatusOther"

definition approval_status_string :: "approval_status \<Rightarrow> string" where
  "approval_status_string = enum_string approval_statuses (\<lambda>t. case t of StatusOther s \<Rightarrow> s | _ \<Rightarrow> '''')"

lemma enum_string_not_in: "v \<notin> snd ` set tbl \<Longrightarrow> enum_string tbl raw v = raw v"
  by (induction tbl raw v rule: enum_string.induct) auto

lemma enum_string_in:
  "(s, v) \<in> set tbl \<Longrightarrow> distinct (map snd tbl) \<Longrightarrow> enum_string tbl raw v = s"
  by (induction tbl raw v rule: enum_string.induct) (auto simp: rev_image_eqI)

lemma enum_roundtrip:
  assumes "distinct (map snd tbl)" and "\<And>s. raw (other s) = s" and "\<And>s. other s \<notin> snd ` set tbl"
  shows "enum_string tbl raw (enum_of tbl other s) = s"
proof (cases "map_of tbl s")
  case None
  then show ?thesis by (simp add: enum_of_def enum_string_not_in assms(2,3))
next
  case (Some v)
  then show ?thesis using map_of_SomeD [OF Some] by (simp add: enum_of_def enum_string_in assms(1))
qed

lemma enum_roundtrip':
  assumes "distinct (map fst tbl)" and "v \<in> snd ` set tbl" and "distinct (map snd tbl)"
  shows "enum_of tbl other (enum_string tbl raw v) = v"
proof -
  from assms(2) obtain s where "(s, v) \<in> set tbl" by auto
  then show ?thesis using assms by (simp add: enum_string_in enum_of_def)
qed

section \<open>Records\<close>

text \<open>A 64-bit float is only stored and copied, so it is its bit pattern.\<close>

type_synonym float64 = "64 word"

record resumable =
  re_tool :: string
  re_name :: string
  re_cwd :: string

record session_info =
  si_sid :: u32
  si_device_id :: string
  si_name :: string
  si_tool :: string
  si_shell :: string
  si_cwd :: string
  si_preset :: string
  si_permission_mode :: string
  si_approval_mode :: approval_mode
  si_state :: session_state
  si_kind :: need_kind
  si_source :: signal_source
  si_confidence :: confidence
  si_started_at :: instant
  si_last_output_at :: instant
  si_cols :: u16
  si_rows :: u16
  si_seq :: u64
  si_cost_usd :: "float64 option"
  si_context_pct :: "float64 option"
  si_exit_code :: "i32 option"
  si_resumable :: "resumable option"
  si_pty_alive :: bool

text \<open>The raw JSON of a tool input is an opaque string.\<close>

record approval =
  ap_key :: string
  ap_sid :: u32
  ap_device_id :: string
  ap_agent :: string
  ap_tool :: string
  ap_summary :: string
  ap_input :: string
  ap_cwd :: string
  ap_level :: approval_level
  ap_mode :: approval_mode
  ap_created_at :: instant
  ap_hook_timeout_at :: "instant option"
  ap_status :: approval_status
  ap_decided_by :: string
  ap_decided_at :: "instant option"

record device_info =
  di_id :: string
  di_name :: string
  di_os :: string
  di_agent_version :: string
  di_online :: bool
  di_last_seen :: instant
  di_rtt_ms :: int
  di_fingerprint :: string
  di_power :: string

record open_request =
  or_shell :: string
  or_cwd :: string
  or_tool :: string
  or_name :: string
  or_preset :: string
  or_permission_mode :: string
  or_approval_mode :: approval_mode
  or_resume :: string
  or_cols :: u16
  or_rows :: u16
  or_extra :: "string list"

record session_health =
  sh_sid :: u32
  sh_pty_alive :: bool
  sh_last_output_at :: instant
  sh_seq :: u64

record heartbeat =
  hb_seq :: u64
  hb_sent_at :: instant
  hb_power :: string
  hb_sessions :: "session_health list"

text \<open>The envelope. Its zero value is the message all of whose fields are absent.\<close>

record msg =
  m_t :: msg_type
  m_req_id :: string
  m_device_id :: string
  m_client_id :: string
  m_sid :: u32
  m_agent_id :: string
  m_version :: string
  m_os :: string
  m_caps :: "string list"
  m_sessions :: "session_info list"
  m_session :: "session_info option"
  m_devices :: "device_info list"
  m_device :: "device_info option"
  m_approvals :: "approval list"
  m_approval :: "approval option"
  m_heartbeat :: "heartbeat option"
  m_open :: "open_request option"
  m_last_seq :: u64
  m_cols :: u16
  m_rows :: u16
  m_sig :: signal
  m_mode :: approval_mode
  m_state :: session_state
  m_kind :: need_kind
  m_source :: signal_source
  m_confidence :: confidence
  m_code :: "i32 option"
  m_resumable :: "resumable option"
  m_key :: string
  m_decision :: string
  m_by :: string
  m_error :: string

definition Msg0 :: "msg_type \<Rightarrow> msg" where
  "Msg0 t = \<lparr>m_t = t, m_req_id = '''', m_device_id = '''', m_client_id = '''', m_sid = 0,
     m_agent_id = '''', m_version = '''', m_os = '''', m_caps = [],
     m_sessions = [], m_session = None, m_devices = [], m_device = None, m_approvals = [],
     m_approval = None, m_heartbeat = None, m_open = None, m_last_seq = 0, m_cols = 0, m_rows = 0,
     m_sig = SigOther '''', m_mode = ModeOther '''', m_state = StateOther '''', m_kind = NeedOther '''',
     m_source = SourceOther '''', m_confidence = ConfidenceOther '''', m_code = None,
     m_resumable = None, m_key = '''', m_decision = '''', m_by = '''', m_error = ''''\<rparr>"

lemma Msg0_simps [simp]:
  "m_t (Msg0 t) = t" "m_sid (Msg0 t) = 0" "m_session (Msg0 t) = None" "m_approval (Msg0 t) = None"
  "m_device_id (Msg0 t) = ''''" "m_key (Msg0 t) = ''''" "m_error (Msg0 t) = ''''" "m_req_id (Msg0 t) = ''''"
  by (simp_all add: Msg0_def)

section \<open>Properties\<close>

text \<open>No message type, session state or approval status is lost or confused on the wire: every
  string read as one of them is written back as the same string, and every named constant is
  read back as itself.\<close>

theorem enum_wire_roundtrip:
  "msg_type_string (msg_type_of s) = s \<and> session_state_string (session_state_of s) = s
   \<and> approval_status_string (approval_status_of s) = s
   \<and> map (msg_type_of \<circ> msg_type_string \<circ> snd) msg_types = map snd msg_types
   \<and> map (session_state_of \<circ> session_state_string \<circ> snd) session_states = map snd session_states
   \<and> map (approval_status_of \<circ> approval_status_string \<circ> snd) approval_statuses = map snd approval_statuses"
proof (intro conjI)
  show "msg_type_string (msg_type_of s) = s"
    unfolding msg_type_string_def msg_type_of_def by (rule enum_roundtrip) (auto simp: msg_types_def)
  show "session_state_string (session_state_of s) = s"
    unfolding session_state_string_def session_state_of_def
    by (rule enum_roundtrip) (auto simp: session_states_def)
  show "approval_status_string (approval_status_of s) = s"
    unfolding approval_status_string_def approval_status_of_def
    by (rule enum_roundtrip) (auto simp: approval_statuses_def)
qed (code_simp+)

end
