(* ===== verification/Heuristic.thy ===== *)
theory Heuristic
  imports Prelude
begin

text \<open>
  The heuristic that guesses from the terminal alone whether a session waits for its user
  (\<^verbatim>\<open>internal/session/heuristic.go\<close>): the removal of escape sequences, the prompt pattern, the
  last visible line, and the evaluation that raises and clears verdicts. The regular
  expressions of the source are written out as scanners. The lemmas show that stripping
  leaves no control characters, that no verdict is raised without its evidence, and that the
  verdicts of a session follow a four-edge automaton.
\<close>

section \<open>Escape sequences\<close>

definition char_between :: "nat \<Rightarrow> nat \<Rightarrow> char \<Rightarrow> bool" where
  "char_between a b c \<longleftrightarrow> (let n = (of_char c :: nat) in a \<le> n \<and> n \<le> b)"

definition csi_param :: "char \<Rightarrow> bool" where
  "csi_param c \<longleftrightarrow> char_between 0x30 0x39 c \<or> c = CHR 0x3B \<or> c = CHR 0x3F"

definition csi_inter :: "char \<Rightarrow> bool" where
  "csi_inter c \<longleftrightarrow> char_between 0x20 0x2F c"

definition csi_final :: "char \<Rightarrow> bool" where
  "csi_final c \<longleftrightarrow> char_between 0x40 0x7E c"

definition BEL :: char where "BEL = CHR 0x07"

definition alnum :: "char \<Rightarrow> bool" where
  "alnum c \<longleftrightarrow> char_between 0x41 0x5A c \<or> char_between 0x61 0x7A c \<or> char_between 0x30 0x39 c"

definition strip_control :: "char \<Rightarrow> bool" where
  "strip_control c \<longleftrightarrow> char_between 0 8 c \<or> c = CHR 0x0B \<or> c = CHR 0x0C
     \<or> char_between 0x0E 0x1F c \<or> c = CHR 0x7F"

text \<open>
  The alternatives of \<^verbatim>\<open>ansiRe\<close>, in its order; each gives the text after the match. The
  character classes of the first are disjoint, so greedy runs need no backtracking; the
  second ends at the first bell or escape character.
\<close>

definition csi_rest :: "string \<Rightarrow> string option" where
  "csi_rest s = (case dropWhile csi_inter (dropWhile csi_param s) of
     [] \<Rightarrow> None | c # r \<Rightarrow> if csi_final c then Some r else None)"

definition osc_rest :: "string \<Rightarrow> string option" where
  "osc_rest s = (case dropWhile (\<lambda>c. c \<noteq> BEL \<and> c \<noteq> ESC) s of
     [] \<Rightarrow> None
   | c # r \<Rightarrow> if c = BEL then Some r
       else (case r of [] \<Rightarrow> None | d # r' \<Rightarrow> if d = BSLASH then Some r' else None))"

definition esc_rest :: "string \<Rightarrow> string option" where
  "esc_rest s = (case s of
     [] \<Rightarrow> None
   | c # r \<Rightarrow>
       if c = CHR ''['' then csi_rest r
       else if c = CHR '']'' then osc_rest r
       else if c = CHR ''('' \<or> c = CHR '')'' then
         (case r of [] \<Rightarrow> None | d # r' \<Rightarrow> if alnum d then Some r' else None)
       else if c \<in> {CHR ''='', CHR ''>'', CHR ''7'', CHR ''8''} then Some r
       else None)"

definition ansi_match :: "string \<Rightarrow> string option" where
  "ansi_match s = (case s of
     [] \<Rightarrow> None
   | c # r \<Rightarrow>
       (case (if c = ESC then esc_rest r else None) of
          Some r' \<Rightarrow> Some r'
        | None \<Rightarrow> if strip_control c then Some r else None))"

lemma csi_rest_length: "csi_rest s = Some r \<Longrightarrow> length r < length s"
  using length_dropWhile_le [of csi_param s] length_dropWhile_le [of csi_inter "dropWhile csi_param s"]
  by (auto simp: csi_rest_def split: list.splits if_splits)

lemma osc_rest_length: "osc_rest s = Some r \<Longrightarrow> length r < length s"
  using length_dropWhile_le [of "\<lambda>c. c \<noteq> BEL \<and> c \<noteq> ESC" s]
  by (auto simp: osc_rest_def split: list.splits if_splits)

lemma esc_rest_length: "esc_rest s = Some r \<Longrightarrow> length r < length s"
  unfolding esc_rest_def
  by (split list.split_asm, simp, split if_split_asm, fastforce dest: csi_rest_length,
      split if_split_asm, fastforce dest: osc_rest_length, auto split: if_split_asm list.split_asm)

lemma ansi_match_length: "ansi_match s = Some r \<Longrightarrow> length r < length s"
  by (auto simp: ansi_match_def split: list.splits if_splits option.splits dest: esc_rest_length)

text \<open>\<^verbatim>\<open>ReplaceAllString\<close> with the empty string: leftmost matches, one after the other.\<close>

function StripANSI :: "string \<Rightarrow> string" where
  "StripANSI s =
     (case ansi_match s of
        Some r \<Rightarrow> StripANSI r
      | None \<Rightarrow> (case s of [] \<Rightarrow> [] | c # r \<Rightarrow> c # StripANSI r))"
  by pat_completeness auto
termination
  by (relation "measure length") (auto dest: ansi_match_length)

declare StripANSI.simps [simp del]

lemma StripANSI_Nil [simp]: "StripANSI [] = []"
  by (subst StripANSI.simps) (simp add: ansi_match_def)

lemma StripANSI_match: "ansi_match s = Some r \<Longrightarrow> StripANSI s = StripANSI r"
  by (subst StripANSI.simps) simp

lemma StripANSI_Cons: "ansi_match (c # r) = None \<Longrightarrow> StripANSI (c # r) = c # StripANSI r"
  by (subst StripANSI.simps) simp

lemma ESC_control [simp]: "strip_control ESC"
  by (simp add: strip_control_def char_between_def ESC_def)

lemma ansi_match_None_iff: "ansi_match (c # r) = None \<longleftrightarrow> \<not> strip_control c"
  by (auto simp: ansi_match_def split: option.splits if_splits)

lemma StripANSI_induct [case_names nil match plain]:
  assumes "P []"
    and "\<And>s r. ansi_match s = Some r \<Longrightarrow> P r \<Longrightarrow> P s"
    and "\<And>c s. \<not> strip_control c \<Longrightarrow> P s \<Longrightarrow> P (c # s)"
  shows "P s"
proof (induction s rule: length_induct)
  case (1 s)
  show ?case
  proof (cases s)
    case (Cons c r)
    show ?thesis
    proof (cases "ansi_match s")
      case None
      then show ?thesis
        using 1 assms(3) [of c r] by (simp add: Cons ansi_match_None_iff)
    next
      case (Some r')
      then show ?thesis
        using 1 assms(2) [OF Some] ansi_match_length [OF Some] by blast
    qed
  qed (simp add: assms(1))
qed

lemma StripANSI_plain: "\<forall>c \<in> set s. \<not> strip_control c \<Longrightarrow> StripANSI s = s"
  by (induction s) (simp_all add: StripANSI_Cons ansi_match_None_iff)

lemma StripANSI_no_control: "\<forall>c \<in> set (StripANSI s). \<not> strip_control c"
  by (induction s rule: StripANSI_induct) (simp_all add: StripANSI_match StripANSI_Cons ansi_match_None_iff)

lemma StripANSI_append_plain:
  "\<forall>c \<in> set t. \<not> strip_control c \<Longrightarrow> StripANSI (t @ s) = t @ StripANSI s"
  by (induction t) (simp_all add: StripANSI_Cons ansi_match_None_iff)

section \<open>Prompts and the last line\<close>

definition lower :: "char \<Rightarrow> char" where
  "lower c = (if char_between 0x41 0x5A c then char_of (of_char c + 32 :: nat) else c)"

text \<open>The space class of the regular expressions.\<close>

definition re_space :: "char \<Rightarrow> bool" where
  "re_space c \<longleftrightarrow> c \<in> {CHR 0x09, CHR 0x0A, CHR 0x0C, CHR 0x0D, CHR 0x20}"

definition RANGLE :: string where "RANGLE = [CHR 0xE2, CHR 0x80, CHR 0xBA]"

definition MatchPrompt :: "string \<Rightarrow> bool" where
  "MatchPrompt line =
     (let s = trim_right (\<lambda>c. c = CHR 0x20 \<or> c = TAB) line;
          l = map lower s;
          t = trim_right re_space s
      in contains ''(y/n)'' l \<or> contains ''[y/n]'' l \<or> contains ''allow?'' l
         \<or> ends_with ''?'' t \<or> ends_with RANGLE t)"

fun drop_crlf :: "string \<Rightarrow> string" where
  "drop_crlf [] = []"
| "drop_crlf [c] = [c]"
| "drop_crlf (c # d # s) = (if c = CR \<and> d = NL then NL # drop_crlf s else c # drop_crlf (d # s))"

text \<open>The loop over the lines from the last to the first.\<close>

fun last_nonempty :: "string list \<Rightarrow> string" where
  "last_nonempty [] = ''''"
| "last_nonempty (l # ls) = (let t = trim_space l in if t \<noteq> '''' then t else last_nonempty ls)"

definition LastLine :: "string \<Rightarrow> string" where
  "LastLine tail =
     (let clean = StripANSI tail;
          clean = drop_crlf clean;
          clean = replace_char CR [NL] clean
      in last_nonempty (rev (split_at NL clean)))"

lemma set_drop_crlf: "set (drop_crlf s) \<subseteq> set s"
  by (induction s rule: drop_crlf.induct) auto

lemma last_nonempty_cases: "last_nonempty ls = '''' \<or> (\<exists>l \<in> set ls. last_nonempty ls = trim_space l)"
  by (induction ls) (auto simp: Let_def)

lemma last_nonempty_empty: "last_nonempty ls = '''' \<longleftrightarrow> (\<forall>l \<in> set ls. trim_space l = '''')"
  by (induction ls) (auto simp: Let_def)

lemma LastLine_chars: "set (LastLine s) \<subseteq> set (StripANSI s) - {NL, CR}"
proof -
  let ?t = "drop_crlf (StripANSI s)" let ?u = "replace_char CR [NL] ?t"
  have "set ?u \<subseteq> set ?t - {CR} \<union> {NL}"
    by (auto simp: replace_char_def split: if_splits)
  then have "set ?u - {NL} \<subseteq> set (StripANSI s) - {NL, CR}"
    using set_drop_crlf [of "StripANSI s"] by auto
  then have "set (trim_space l) \<subseteq> set (StripANSI s) - {NL, CR}" if "l \<in> set (split_at NL ?u)" for l
    using trim_space_subset [of l] split_at_subset [OF that] by blast
  moreover have "LastLine s = '''' \<or> (\<exists>l \<in> set (split_at NL ?u). LastLine s = trim_space l)"
    using last_nonempty_cases [of "rev (split_at NL ?u)"] by (simp add: LastLine_def Let_def)
  ultimately show ?thesis
    by (elim disjE bexE) simp_all
qed

section \<open>Evaluation\<close>

definition SilenceForSuspect :: duration where "SilenceForSuspect = 5 * minute"
definition SilenceForUnknown :: duration where "SilenceForUnknown = 10 * minute"
definition SuspectDebounce :: duration where "SuspectDebounce = 15 * second"
definition StructuredFreshFor :: duration where "StructuredFreshFor = 5 * minute"

lemmas threshold_defs =
  SilenceForSuspect_def SilenceForUnknown_def SuspectDebounce_def StructuredFreshFor_def

record heur_input =
  hi_tool :: string
  hi_last_output :: instant
  hi_last_structured :: instant
  hi_last_line :: string

record heur_state =
  candidateSince :: instant
  suspectAt :: instant
  unknownAt :: instant

datatype verdict_kind = VerdictNone | VerdictSuspect | VerdictCleared | VerdictUnknown | VerdictResumed

record verdict =
  vd_kind :: verdict_kind
  vd_line :: string

definition no_verdict :: verdict where
  "no_verdict = \<lparr>vd_kind = VerdictNone, vd_line = ''''\<rparr>"

definition just_verdict :: "verdict_kind \<Rightarrow> verdict" where
  "just_verdict k = \<lparr>vd_kind = k, vd_line = ''''\<rparr>"

definition structFresh :: "heur_input \<Rightarrow> instant \<Rightarrow> bool" where
  "structFresh i now \<longleftrightarrow> \<not> is_zero_time (hi_last_structured i)
     \<and> time_sub now (hi_last_structured i) < StructuredFreshFor"

definition structStale :: "heur_input \<Rightarrow> instant \<Rightarrow> bool" where
  "structStale i now \<longleftrightarrow> is_zero_time (hi_last_structured i)
     \<or> time_sub now (hi_last_structured i) \<ge> SilenceForUnknown"

text \<open>The part after the two early exits of an active verdict.\<close>

definition evaluate_quiet :: "heur_input \<Rightarrow> heur_state \<Rightarrow> instant \<Rightarrow> heur_state \<times> verdict" where
  "evaluate_quiet i st now =
     (let silence = time_sub now (hi_last_output i) in
      if structFresh i now then (st\<lparr>candidateSince := 0\<rparr>, no_verdict)
      else if silence \<ge> SilenceForSuspect \<and> MatchPrompt (hi_last_line i) then
        if is_zero_time (candidateSince st) then (st\<lparr>candidateSince := now\<rparr>, no_verdict)
        else if time_sub now (candidateSince st) \<ge> SuspectDebounce then
          (st\<lparr>suspectAt := now, unknownAt := 0, candidateSince := 0\<rparr>,
           \<lparr>vd_kind = VerdictSuspect, vd_line = hi_last_line i\<rparr>)
        else (st, no_verdict)
      else
        let st = st\<lparr>candidateSince := 0\<rparr> in
        if silence \<ge> SilenceForUnknown \<and> structStale i now \<and> is_zero_time (unknownAt st)
        then (st\<lparr>unknownAt := now\<rparr>, just_verdict VerdictUnknown)
        else (st, no_verdict))"

definition Evaluate :: "heur_input \<Rightarrow> heur_state \<Rightarrow> instant \<Rightarrow> heur_state \<times> verdict" where
  "Evaluate i st now =
     (if hi_tool i = '''' \<or> hi_tool i = ''shell'' then (st, no_verdict)
      else if \<not> is_zero_time (suspectAt st) then
        if hi_last_output i > suspectAt st \<or> structFresh i now
        then (st\<lparr>suspectAt := 0, candidateSince := 0\<rparr>, just_verdict VerdictCleared)
        else (st, no_verdict)
      else if \<not> is_zero_time (unknownAt st) \<and> (hi_last_output i > unknownAt st \<or> structFresh i now)
        then (st\<lparr>unknownAt := 0\<rparr>, just_verdict VerdictResumed)
      else evaluate_quiet i st now)"

definition heur_start :: heur_state where
  "heur_start = \<lparr>candidateSince = 0, suspectAt = 0, unknownAt = 0\<rparr>"

lemmas heur_defs = no_verdict_def just_verdict_def heur_start_def is_zero_time_def

text \<open>The verdicts of one session over a sequence of evaluations.\<close>

fun heur_run :: "heur_state \<Rightarrow> (heur_input \<times> instant) list \<Rightarrow> heur_state \<times> verdict list" where
  "heur_run st [] = (st, [])"
| "heur_run st ((i, now) # es) =
     (let (st', v) = Evaluate i st now; (st'', vs) = heur_run st' es in (st'', v # vs))"

text \<open>The evidence an evaluation needs before it may consider a session stuck on a prompt.\<close>

definition prompt_evidence :: "heur_input \<Rightarrow> instant \<Rightarrow> bool" where
  "prompt_evidence i now \<longleftrightarrow> hi_tool i \<noteq> '''' \<and> hi_tool i \<noteq> ''shell'' \<and> \<not> structFresh i now
     \<and> time_sub now (hi_last_output i) \<ge> SilenceForSuspect \<and> MatchPrompt (hi_last_line i)"

text \<open>The automaton of the verdicts.\<close>

datatype heur_mode = Quiet | Suspected | Lost

fun mode_step :: "heur_mode \<Rightarrow> verdict_kind \<Rightarrow> heur_mode option" where
  "mode_step m VerdictNone = Some m"
| "mode_step Quiet VerdictSuspect = Some Suspected"
| "mode_step Lost VerdictSuspect = Some Suspected"
| "mode_step Suspected VerdictCleared = Some Quiet"
| "mode_step Quiet VerdictUnknown = Some Lost"
| "mode_step Lost VerdictResumed = Some Quiet"
| "mode_step _ _ = None"

fun mode_run :: "heur_mode \<Rightarrow> verdict_kind list \<Rightarrow> heur_mode option" where
  "mode_run m [] = Some m"
| "mode_run m (k # ks) = (case mode_step m k of None \<Rightarrow> None | Some m' \<Rightarrow> mode_run m' ks)"

definition mode_of :: "heur_state \<Rightarrow> heur_mode" where
  "mode_of st = (if suspectAt st \<noteq> 0 then Suspected else if unknownAt st \<noteq> 0 then Lost else Quiet)"

definition heur_ok :: "heur_state \<Rightarrow> bool" where
  "heur_ok st \<longleftrightarrow> suspectAt st = 0 \<or> unknownAt st = 0"

lemma heur_start_simps [simp]:
  "heur_ok heur_start" "mode_of heur_start = Quiet" "candidateSince heur_start = 0"
  by (simp_all add: heur_ok_def mode_of_def heur_start_def)

lemma Evaluate_mode:
  assumes "heur_ok st" and "now \<noteq> 0" and "Evaluate i st now = (st', v)"
  shows "heur_ok st'" and "mode_step (mode_of st) (vd_kind v) = Some (mode_of st')"
  using assms
  by (auto simp: Evaluate_def evaluate_quiet_def Let_def heur_ok_def mode_of_def heur_defs split: if_splits)

lemma heur_run_mode:
  "heur_ok st \<Longrightarrow> \<forall>(i, now) \<in> set es. now \<noteq> 0 \<Longrightarrow> heur_run st es = (st', vs) \<Longrightarrow>
   heur_ok st' \<and> mode_run (mode_of st) (map vd_kind vs) = Some (mode_of st')"
proof (induction es arbitrary: st vs)
  case (Cons e es)
  obtain i now where e: "e = (i, now)" by fastforce
  obtain st1 v where st1: "Evaluate i st now = (st1, v)" by fastforce
  obtain vs1 where vs1: "heur_run st1 es = (st', vs1)" "vs = v # vs1"
    using Cons.prems(3) by (auto simp: e st1 split: prod.splits)
  have "now \<noteq> 0" using Cons.prems(2) by (simp add: e)
  note step = Evaluate_mode [OF Cons.prems(1) this st1]
  show ?case
    using Cons.IH [OF step(1) _ vs1(1)] Cons.prems(2) step(2) by (simp add: vs1(2))
qed simp

text \<open>
  The debounce: the evaluations of a run with their verdicts, and the invariant that the
  candidate is the time of an earlier evaluation since which every evaluation saw the
  evidence. The one exception is an evaluation that ends an unknown verdict: it leaves the
  candidate alone.
\<close>

type_synonym heur_event = "heur_input \<times> instant \<times> verdict"

fun heur_trace :: "heur_state \<Rightarrow> (heur_input \<times> instant) list \<Rightarrow> heur_event list" where
  "heur_trace st [] = []"
| "heur_trace st ((i, now) # es) =
     (let (st', v) = Evaluate i st now in (i, now, v) # heur_trace st' es)"

definition stays_candidate :: "heur_event \<Rightarrow> bool" where
  "stays_candidate e \<longleftrightarrow> (case e of (i, now, v) \<Rightarrow> prompt_evidence i now \<or> vd_kind v = VerdictResumed)"

definition debounced :: "heur_event list \<Rightarrow> instant \<Rightarrow> bool" where
  "debounced past t0 \<longleftrightarrow> (\<exists>before i0 v0 seen. past = before @ (i0, t0, v0) # seen
     \<and> prompt_evidence i0 t0 \<and> (\<forall>e \<in> set seen. stays_candidate e))"

definition candidate_ok :: "heur_event list \<Rightarrow> heur_state \<Rightarrow> bool" where
  "candidate_ok past st \<longleftrightarrow> (candidateSince st = 0 \<or> debounced past (candidateSince st))
     \<and> (suspectAt st \<noteq> 0 \<longrightarrow> candidateSince st = 0)"

lemma debounced_snoc: "debounced past t0 \<Longrightarrow> stays_candidate e \<Longrightarrow> debounced (past @ [e]) t0"
  unfolding debounced_def by force

lemma debounced_now: "prompt_evidence i now \<Longrightarrow> debounced (past @ [(i, now, v)]) now"
  unfolding debounced_def by force

lemma evaluate_quiet_evidence:
  "hi_tool i \<noteq> '''' \<Longrightarrow> hi_tool i \<noteq> ''shell'' \<Longrightarrow> evaluate_quiet i st now =
     (if prompt_evidence i now then
        if candidateSince st = 0 then (st\<lparr>candidateSince := now\<rparr>, no_verdict)
        else if time_sub now (candidateSince st) \<ge> SuspectDebounce then
          (st\<lparr>suspectAt := now, unknownAt := 0, candidateSince := 0\<rparr>,
           \<lparr>vd_kind = VerdictSuspect, vd_line = hi_last_line i\<rparr>)
        else (st, no_verdict)
      else if \<not> structFresh i now \<and> time_sub now (hi_last_output i) \<ge> SilenceForUnknown
          \<and> structStale i now \<and> unknownAt st = 0
        then (st\<lparr>candidateSince := 0, unknownAt := now\<rparr>, just_verdict VerdictUnknown)
        else (st\<lparr>candidateSince := 0\<rparr>, no_verdict))"
  by (auto simp: evaluate_quiet_def prompt_evidence_def Let_def is_zero_time_def)

lemma evaluate_quiet_candidate:
  assumes tool: "hi_tool i \<noteq> ''''" "hi_tool i \<noteq> ''shell''"
    and c: "candidate_ok past st" "suspectAt st = 0" and ev: "evaluate_quiet i st now = (st', v)"
  shows "candidate_ok (past @ [(i, now, v)]) st'"
    and "vd_kind v = VerdictSuspect \<Longrightarrow> prompt_evidence i now \<and> vd_line v = hi_last_line i
      \<and> (\<exists>t0. SuspectDebounce \<le> time_sub now t0 \<and> debounced past t0)"
proof -
  have "prompt_evidence i now \<Longrightarrow> stays_candidate (i, now, v)"
    by (simp add: stays_candidate_def)
  with c ev debounced_now [of i now past v] debounced_snoc [of past "candidateSince st" "(i, now, v)"]
  show "candidate_ok (past @ [(i, now, v)]) st'"
    unfolding evaluate_quiet_evidence [OF tool] by (auto simp: candidate_ok_def split: if_splits)
  show "vd_kind v = VerdictSuspect \<Longrightarrow> prompt_evidence i now \<and> vd_line v = hi_last_line i
      \<and> (\<exists>t0. SuspectDebounce \<le> time_sub now t0 \<and> debounced past t0)"
    using c ev unfolding evaluate_quiet_evidence [OF tool]
    by (auto simp: candidate_ok_def no_verdict_def just_verdict_def split: if_splits)
qed

lemma Evaluate_candidate:
  assumes tool: "hi_tool i \<noteq> ''''" "hi_tool i \<noteq> ''shell''"
    and c: "candidate_ok past st" and ev: "Evaluate i st now = (st', v)"
  shows "candidate_ok (past @ [(i, now, v)]) st'"
    and "vd_kind v = VerdictSuspect \<Longrightarrow> prompt_evidence i now \<and> vd_line v = hi_last_line i
      \<and> (\<exists>t0. SuspectDebounce \<le> time_sub now t0 \<and> debounced past t0)"
proof -
  consider "suspectAt st \<noteq> 0" "candidateSince st' = 0" "vd_kind v \<noteq> VerdictSuspect"
    | "suspectAt st = 0" "suspectAt st' = 0" "candidateSince st' = candidateSince st" "vd_kind v = VerdictResumed"
    | "suspectAt st = 0" "evaluate_quiet i st now = (st', v)"
    using ev tool c
    by (auto simp: Evaluate_def candidate_ok_def is_zero_time_def no_verdict_def just_verdict_def split: if_splits)
  then have "candidate_ok (past @ [(i, now, v)]) st' \<and> (vd_kind v = VerdictSuspect \<longrightarrow>
      prompt_evidence i now \<and> vd_line v = hi_last_line i
      \<and> (\<exists>t0. SuspectDebounce \<le> time_sub now t0 \<and> debounced past t0))"
  proof cases
    case 1
    then show ?thesis by (simp add: candidate_ok_def)
  next
    case 2
    then have "stays_candidate (i, now, v)"
      by (simp add: stays_candidate_def)
    with 2 c show ?thesis
      by (auto simp: candidate_ok_def intro: debounced_snoc)
  next
    case 3
    then show ?thesis
      using evaluate_quiet_candidate [OF tool c] by blast
  qed
  then show "candidate_ok (past @ [(i, now, v)]) st'"
    and "vd_kind v = VerdictSuspect \<Longrightarrow> prompt_evidence i now \<and> vd_line v = hi_last_line i
      \<and> (\<exists>t0. SuspectDebounce \<le> time_sub now t0 \<and> debounced past t0)"
    by simp_all
qed

lemma heur_trace_debounced:
  assumes "candidate_ok past st" and "tool \<noteq> ''''" "tool \<noteq> ''shell''"
    and "\<forall>e \<in> set es. hi_tool (fst e) = tool"
    and "heur_trace st es = before @ (i, now, v) # after" and "vd_kind v = VerdictSuspect"
  shows "prompt_evidence i now \<and> vd_line v = hi_last_line i
    \<and> (\<exists>t0. SuspectDebounce \<le> time_sub now t0 \<and> debounced (past @ before) t0)"
  using assms
proof (induction es arbitrary: past st before)
  case (Cons e es)
  obtain i1 now1 where e: "e = (i1, now1)" by fastforce
  obtain st1 v1 where st1: "Evaluate i1 st now1 = (st1, v1)" by fastforce
  have "hi_tool i1 \<noteq> ''''" "hi_tool i1 \<noteq> ''shell''"
    using Cons.prems by (auto simp: e)
  note step = Evaluate_candidate [OF this Cons.prems(1) st1]
  show ?case
  proof (cases before)
    case Nil
    then show ?thesis
      using Cons.prems(5, 6) step(2) by (simp add: e st1)
  next
    case (Cons b before')
    then have "b = (i1, now1, v1)" "heur_trace st1 es = before' @ (i, now, v) # after"
      using Cons.prems(5) by (simp_all add: e st1)
    with Cons.IH [OF step(1) Cons.prems(2,3) _ this(2) Cons.prems(6)] Cons.prems(4) show ?thesis
      by (simp add: \<open>before = b # before'\<close>)
  qed
qed simp

section \<open>Properties\<close>

text \<open>Stripping leaves no control character but tab, line feed and carriage return, whatever
  escape sequences or truncated sequences the terminal sent; it changes exactly the texts
  that contain one, so it is idempotent; and the last line of a terminal, which is shown to
  the user and matched against the prompts, has no control character but tab.\<close>

theorem strip_ansi_clean:
  "set (StripANSI s) \<inter> Collect strip_control = {}
   \<and> (StripANSI s = s \<longleftrightarrow> set s \<inter> Collect strip_control = {})
   \<and> StripANSI (StripANSI s) = StripANSI s
   \<and> set (LastLine s) \<inter> (Collect strip_control \<union> {NL, CR}) = {}"
proof -
  have clean: "set (StripANSI t) \<inter> Collect strip_control = {}" for t
    using StripANSI_no_control [of t] by auto
  have plain: "set t \<inter> Collect strip_control = {} \<Longrightarrow> StripANSI t = t" for t
    by (rule StripANSI_plain) auto
  show ?thesis
    using clean [of s] plain [of s] plain [of "StripANSI s"] LastLine_chars [of s] by auto
qed

text \<open>C37: The verdicts of a session follow the automaton of quiet, suspected and lost: a
  suspicion is raised once and stays until it is cleared, an unknown verdict is raised once
  and ends by resuming or by becoming a suspicion, and the memory of the heuristic always
  encodes the mode, so the two verdicts are never active together.\<close>

theorem verdicts_follow_automaton:
  assumes "\<forall>(i, now) \<in> set es. now \<noteq> 0" and "heur_run heur_start es = (st, vs)"
  shows "length vs = length es \<and> heur_ok st \<and> mode_run Quiet (map vd_kind vs) = Some (mode_of st)"
proof -
  have "heur_run s0 es = (s1, ws) \<Longrightarrow> length ws = length es" for s0 s1 ws
    by (induction es arbitrary: s0 ws) (auto split: prod.splits)
  with heur_run_mode [OF heur_start_simps(1) assms] assms(2) show ?thesis
    by (metis heur_start_simps(2))
qed

definition prompt_input :: "instant \<Rightarrow> heur_input" where
  "prompt_input out = \<lparr>hi_tool = ''claude'', hi_last_output = out, hi_last_structured = 0,
     hi_last_line = ''Proceed? (y/n)''\<rparr>"

lemma MatchPrompt_example: "MatchPrompt ''Proceed? (y/n)''"
  by code_simp

theorem verdicts_follow_automaton_witness:
  "\<exists>st vs. heur_run heur_start [(prompt_input second, 400 * second), (prompt_input second, 420 * second),
     (prompt_input (425 * second), 430 * second)] = (st, vs)
   \<and> map vd_kind vs = [VerdictNone, VerdictSuspect, VerdictCleared]
   \<and> mode_run Quiet (map vd_kind vs) = Some (mode_of st)"
proof -
  let ?es = "[(prompt_input second, 400 * second), (prompt_input second, 420 * second),
     (prompt_input (425 * second), 430 * second)]"
  obtain st vs where run: "heur_run heur_start ?es = (st, vs)" by fastforce
  have "map vd_kind vs = [VerdictNone, VerdictSuspect, VerdictCleared]"
    using run by (auto simp: Evaluate_def evaluate_quiet_def prompt_input_def heur_defs threshold_defs
        duration_defs time_sub_def duration_max_def structFresh_def MatchPrompt_example split: prod.splits)
  with verdicts_follow_automaton [OF _ run] run show ?thesis
    by (simp add: duration_defs)
qed

text \<open>C36: No suspicion without sustained evidence: when a run from the start raises a suspicion,
  the line it reports is a prompt, no structured signal is fresh and the terminal was silent
  for five minutes; and the same was found at an evaluation at least the debounce earlier,
  and at every evaluation since, except one that ends an unknown verdict.\<close>

theorem suspect_is_debounced:
  assumes "tool \<noteq> ''''" and "tool \<noteq> ''shell''" and "\<forall>e \<in> set es. hi_tool (fst e) = tool"
    and "heur_trace heur_start es = before @ (i, now, v) # after" and "vd_kind v = VerdictSuspect"
  shows "prompt_evidence i now \<and> vd_line v = hi_last_line i
    \<and> (\<exists>t0. SuspectDebounce \<le> time_sub now t0 \<and> debounced before t0)"
  using heur_trace_debounced [of "[]", OF _ assms] by (simp add: candidate_ok_def heur_start_def)

theorem suspect_is_debounced_witness:
  "\<exists>t0. SuspectDebounce \<le> time_sub (420 * second) t0
     \<and> debounced [(prompt_input second, 400 * second, no_verdict)] t0"
proof -
  have "heur_trace heur_start [(prompt_input second, 400 * second), (prompt_input second, 420 * second)]
    = [(prompt_input second, 400 * second, no_verdict)]
      @ (prompt_input second, 420 * second, \<lparr>vd_kind = VerdictSuspect, vd_line = ''Proceed? (y/n)''\<rparr>) # []"
    by (simp add: Evaluate_def evaluate_quiet_def prompt_input_def heur_defs threshold_defs
        duration_defs time_sub_def duration_max_def structFresh_def MatchPrompt_example)
  from suspect_is_debounced [OF _ _ _ this, of "''claude''"] show ?thesis
    by (simp add: prompt_input_def)
qed

text \<open>C38: A session stuck on a prompt is reported: when its terminal shows a prompt, has been
  silent for five minutes and no structured signal is fresh at two evaluations at least the
  debounce apart, a heuristic with no active verdict raises the suspicion at the second one,
  also when it has meanwhile given the session up as unknown.\<close>

theorem stuck_prompt_is_reported:
  assumes "suspectAt st = 0" and "unknownAt st = 0 \<or> hi_last_output i1 \<le> unknownAt st \<and> hi_last_output i2 \<le> unknownAt st"
    and "t1 \<noteq> 0" and "candidateSince st = 0 \<or> candidateSince st \<le> t1"
    and "prompt_evidence i1 t1" and "prompt_evidence i2 t2" and "SuspectDebounce \<le> t2 - t1"
  shows "let (st1, v1) = Evaluate i1 st t1; (st2, v2) = Evaluate i2 st1 t2
    in vd_kind v1 = VerdictSuspect \<or> v2 = \<lparr>vd_kind = VerdictSuspect, vd_line = hi_last_line i2\<rparr>"
proof -
  have tools: "hi_tool i \<noteq> '''' \<and> hi_tool i \<noteq> ''shell'' \<and> \<not> structFresh i t" if "prompt_evidence i t" for i t
    using that by (simp add: prompt_evidence_def)
  have ev: "Evaluate i s t = evaluate_quiet i s t"
    if "prompt_evidence i t" "suspectAt s = 0" "unknownAt s = 0 \<or> hi_last_output i \<le> unknownAt s" for i s t
    using that tools [OF that(1)] by (auto simp: Evaluate_def is_zero_time_def)
  have wait: "SuspectDebounce \<le> time_sub t2 c" if "c \<le> t1" for c
    using assms(7) that by (simp add: time_sub_def duration_max_def threshold_defs duration_defs)
  obtain st1 v1 where 1: "Evaluate i1 st t1 = (st1, v1)" by fastforce
  have first: "vd_kind v1 = VerdictSuspect \<or> candidateSince st1 \<noteq> 0 \<and> candidateSince st1 \<le> t1
      \<and> suspectAt st1 = 0 \<and> unknownAt st1 = unknownAt st"
    using 1 assms(1-5) tools [OF assms(5)]
    by (auto simp: ev evaluate_quiet_evidence split: if_splits)
  have "snd (Evaluate i2 st1 t2) = \<lparr>vd_kind = VerdictSuspect, vd_line = hi_last_line i2\<rparr>"
    if "vd_kind v1 \<noteq> VerdictSuspect"
    using first that assms(2, 6) tools [OF assms(6)] wait [of "candidateSince st1"]
    by (auto simp: ev evaluate_quiet_evidence)
  then show ?thesis
    by (cases "vd_kind v1 = VerdictSuspect") (auto simp: 1 split: prod.splits)
qed

theorem stuck_prompt_is_reported_witness:
  "snd (Evaluate (prompt_input second) (fst (Evaluate (prompt_input second) heur_start (400 * second))) (415 * second))
    = \<lparr>vd_kind = VerdictSuspect, vd_line = ''Proceed? (y/n)''\<rparr>"
  using stuck_prompt_is_reported [of heur_start "prompt_input second" "prompt_input second" "400 * second" "415 * second"]
  by (auto simp: Evaluate_def evaluate_quiet_def prompt_evidence_def prompt_input_def heur_defs threshold_defs
        duration_defs time_sub_def duration_max_def structFresh_def MatchPrompt_example)

end
