(* ===== verification/Cmdline.thy ===== *)
theory Cmdline
  imports Messages
begin

text \<open>
  The command line that starts a tool (\<^verbatim>\<open>internal/session/cmdline.go\<close>): its parts, the quoting of
  each for the shell it is typed into and the TOML array of the Codex notifier. The shell's
  and TOML's readers of these notations are written as functions, and the lemmas show what they
  read back.
\<close>

section \<open>Quoting\<close>

definition quote_chars :: string where
  "quote_chars = [CHR '' '', TAB, DQUOTE, SQUOTE, BACKTICK] @ ''$&|;<>()[]{}*?!'' @ [BSLASH] @ ''#~^%,''"

definition sh_single_quote :: "string \<Rightarrow> string" where
  "sh_single_quote s = [SQUOTE] @ replace_char SQUOTE [SQUOTE, BSLASH, SQUOTE, SQUOTE] s @ [SQUOTE]"

definition QuoteArg :: "string \<Rightarrow> string \<Rightarrow> string" where
  "QuoteArg kind s =
     (if s \<noteq> '''' \<and> \<not> list_ex (\<lambda>c. c \<in> set quote_chars) s then s
      else if kind = ''pwsh'' \<or> kind = ''powershell'' then
        [SQUOTE] @ replace_char SQUOTE [SQUOTE, SQUOTE] s @ [SQUOTE]
      else if kind = ''cmd'' then [DQUOTE] @ replace_char DQUOTE [BSLASH, DQUOTE] s @ [DQUOTE]
      else sh_single_quote s)"

section \<open>TOML arrays\<close>

definition toml_rune :: "string \<Rightarrow> string" where
  "toml_rune r =
     (if r = [BSLASH] then [BSLASH, BSLASH]
      else if r = [DQUOTE] then [BSLASH, DQUOTE]
      else if r = [NL] then [BSLASH, CHR ''n'']
      else r)"

fun toml_items :: "bool \<Rightarrow> string list \<Rightarrow> string" where
  "toml_items first [] = []"
| "toml_items first (s # ss) =
     (if first then [] else '','') @ [DQUOTE] @ concat (map toml_rune (utf8_runes s)) @ [DQUOTE]
     @ toml_items False ss"

definition tomlStringArray :: "string list \<Rightarrow> string" where
  "tomlStringArray items = ''['' @ toml_items True items @ '']''"

section \<open>The command\<close>

record tool_spec =
  ts_tool :: string
  ts_name :: string
  ts_permission_mode :: string
  ts_resume :: string
  ts_extra :: "string list"
  ts_settings_path :: string
  ts_codex_notify :: "string list"
  ts_shell_kind :: string

text \<open>
  The parts with the quoting function as an argument; None for a plain shell. The same parts
  unquoted are the argument list the tool is meant to receive.
\<close>

definition command_parts :: "(string \<Rightarrow> string) \<Rightarrow> tool_spec \<Rightarrow> bool \<Rightarrow> string list option" where
  "command_parts q t resumeAfterKill =
     map_option (\<lambda>parts. parts @ map q (ts_extra t))
       (if ts_tool t = ToolClaude then Some (
          [''claude'']
          @ (if ts_name t \<noteq> '''' then [''--name'', q (ts_name t)] else [])
          @ (if ts_permission_mode t \<noteq> '''' then [''--permission-mode'', q (ts_permission_mode t)] else [])
          @ (if ts_settings_path t \<noteq> '''' then [''--settings'', q (ts_settings_path t)] else [])
          @ (if resumeAfterKill \<and> ts_name t \<noteq> '''' then [''--resume'', q (ts_name t)]
             else if resumeAfterKill then [''--continue'']
             else if ts_resume t = ''last'' \<or> ts_resume t = ''continue'' then [''--continue'']
             else if ts_resume t \<noteq> '''' then [''--resume'', q (ts_resume t)] else []))
        else if ts_tool t = ToolCodex then Some (
          [''codex'']
          @ (if resumeAfterKill \<or> ts_resume t = ''last'' then [''resume'', ''--last'']
             else if ts_resume t \<noteq> '''' then [''resume'', q (ts_resume t)] else [])
          @ (if ts_codex_notify t \<noteq> [] then [''-c'', q (''notify='' @ tomlStringArray (ts_codex_notify t))] else []))
        else if ts_tool t = ToolGrok then Some [''grok'']
        else None)"

definition Command :: "tool_spec \<Rightarrow> bool \<Rightarrow> string" where
  "Command t resumeAfterKill =
     (case command_parts (QuoteArg (ts_shell_kind t)) t resumeAfterKill of
        None \<Rightarrow> '''' | Some parts \<Rightarrow> join '' '' parts)"

section \<open>How a shell reads a command line\<close>

text \<open>
  The word splitting of a POSIX shell on what the quoting produces: blanks separate words,
  single quotes and backslashes are removed, and an unquoted line feed ends the command. The
  result is the words of the first command and the text after its line feed. Anything else
  the shell would interpret, and an unfinished quotation, is None.
\<close>

datatype sh_mode = Unquoted | SingleQuoted | Escaped

definition word_text :: "string option \<Rightarrow> string" where
  "word_text w = (case w of None \<Rightarrow> [] | Some u \<Rightarrow> u)"

definition word_flush :: "string option \<Rightarrow> string list" where
  "word_flush w = (case w of None \<Rightarrow> [] | Some u \<Rightarrow> [u])"

fun sh_lex :: "string option \<Rightarrow> sh_mode \<Rightarrow> string \<Rightarrow> (string list \<times> string) option" where
  "sh_lex w m [] = (if m = Unquoted then Some (word_flush w, []) else None)"
| "sh_lex w SingleQuoted (c # s) =
     (if c = SQUOTE then sh_lex (Some (word_text w)) Unquoted s
      else sh_lex (Some (word_text w @ [c])) SingleQuoted s)"
| "sh_lex w Escaped (c # s) =
     (if c = NL then None else sh_lex (Some (word_text w @ [c])) Unquoted s)"
| "sh_lex w Unquoted (c # s) =
     (if c = NL then Some (word_flush w, s)
      else if c = CHR '' '' \<or> c = TAB then
        map_option (\<lambda>(ws, rest). (word_flush w @ ws, rest)) (sh_lex None Unquoted s)
      else if c = SQUOTE then sh_lex (Some (word_text w)) SingleQuoted s
      else if c = BSLASH then sh_lex w Escaped s
      else if c \<in> set quote_chars then None
      else sh_lex (Some (word_text w @ [c])) Unquoted s)"

definition sh_words :: "string \<Rightarrow> (string list \<times> string) option" where
  "sh_words s = sh_lex None Unquoted s"

lemma word_simps [simp]: "word_text (Some u) = u" "word_text None = []" "word_flush None = []" "word_flush (Some u) = [u]"
  by (simp_all add: word_text_def word_flush_def)

definition sh_plain :: "char \<Rightarrow> bool" where
  "sh_plain c \<longleftrightarrow> c \<notin> set quote_chars \<and> c \<noteq> NL"

lemma quote_chars_mem [simp]:
  "CHR '' '' \<in> set quote_chars" "TAB \<in> set quote_chars" "SQUOTE \<in> set quote_chars" "BSLASH \<in> set quote_chars"
  by (simp_all add: quote_chars_def)

lemma NL_not_quote_char [simp]: "NL \<notin> set quote_chars"
  by (simp add: quote_chars_def char_defs)

lemma char_distinct [simp]:
  "CHR '' '' \<noteq> NL" "NL \<noteq> CHR '' ''" "NL \<noteq> TAB" "NL \<noteq> SQUOTE" "NL \<noteq> BSLASH" "SQUOTE \<noteq> CHR '' ''" "SQUOTE \<noteq> TAB" "SQUOTE \<noteq> NL"
  "BSLASH \<noteq> CHR '' ''" "BSLASH \<noteq> TAB" "BSLASH \<noteq> NL" "BSLASH \<noteq> SQUOTE" "SQUOTE \<noteq> BSLASH"
  "DQUOTE \<noteq> BSLASH" "BSLASH \<noteq> DQUOTE" "NL \<noteq> DQUOTE" "DQUOTE \<noteq> NL"
  by (simp_all add: char_defs)

lemma sh_lex_space: "sh_lex w Unquoted (CHR '' '' # s)
    = map_option (\<lambda>(ws, rest). (word_flush w @ ws, rest)) (sh_lex None Unquoted s)"
  by simp

lemma sh_lex_plains:
  "list_all sh_plain p \<Longrightarrow> p \<noteq> [] \<Longrightarrow> sh_lex w Unquoted (p @ s) = sh_lex (Some (word_text w @ p)) Unquoted s"
proof (induction p arbitrary: w)
  case (Cons c p)
  then have "sh_lex w Unquoted (c # p @ s) = sh_lex (Some (word_text w @ [c])) Unquoted (p @ s)"
    by (auto simp: sh_plain_def)
  with Cons show ?case by (cases "p = []") simp_all
qed simp

text \<open>What lies between the quotes, with every quote left, escaped and entered again.\<close>

lemma sh_lex_quoted_body:
  "sh_lex w SingleQuoted (replace_char SQUOTE [SQUOTE, BSLASH, SQUOTE, SQUOTE] b @ [SQUOTE] @ s)
    = sh_lex (Some (word_text w @ b)) Unquoted s"
  by (induction b arbitrary: w) simp_all

lemma sh_lex_single_quote: "sh_lex w Unquoted (sh_single_quote b @ s) = sh_lex (Some (word_text w @ b)) Unquoted s"
  using sh_lex_quoted_body [of "Some (word_text w)" b s]
  by (simp add: sh_single_quote_def del: append_Cons append_Nil) simp

text \<open>A quoted argument is typed as one word.\<close>

definition posix_kind :: "string \<Rightarrow> bool" where
  "posix_kind kind \<longleftrightarrow> kind \<noteq> ''pwsh'' \<and> kind \<noteq> ''powershell'' \<and> kind \<noteq> ''cmd''"

definition quotable :: "string \<Rightarrow> bool" where
  "quotable s \<longleftrightarrow> NL \<notin> set s \<or> list_ex (\<lambda>c. c \<in> set quote_chars) s"

lemma sh_lex_QuoteArg:
  assumes "posix_kind kind" and "quotable a"
  shows "sh_lex None Unquoted (QuoteArg kind a @ s) = sh_lex (Some a) Unquoted s"
proof (cases "a \<noteq> '''' \<and> \<not> list_ex (\<lambda>c. c \<in> set quote_chars) a")
  case True
  then have "list_all sh_plain a"
    using assms(2) by (auto simp: quotable_def sh_plain_def list_ex_iff list_all_iff)
  with True show ?thesis
    by (simp add: QuoteArg_def sh_lex_plains)
next
  case False
  then have "QuoteArg kind a = sh_single_quote a"
    using assms(1) by (auto simp: QuoteArg_def posix_kind_def)
  then show ?thesis by (simp add: sh_lex_single_quote)
qed

lemma QuoteArg_newline:
  assumes "posix_kind kind" and "\<not> quotable a"
  obtains u v where "a = u @ NL # v" and "sh_words (QuoteArg kind a) = Some (word_flush (if u = [] then None else Some u), v)"
proof -
  from assms(2) have nl: "NL \<in> set a" and raw: "\<not> list_ex (\<lambda>c. c \<in> set quote_chars) a"
    by (auto simp: quotable_def)
  then obtain u v where a: "a = u @ NL # v" and u: "NL \<notin> set u"
    by (meson split_list_first)
  have "list_all sh_plain u"
    using raw u by (auto simp: a sh_plain_def list_ex_iff list_all_iff)
  then have "sh_words (QuoteArg kind a) = Some (word_flush (if u = [] then None else Some u), v)"
    using raw by (cases "u = []") (simp_all add: sh_words_def QuoteArg_def a sh_lex_plains)
  with a show thesis by (rule that)
qed

text \<open>A part and the word it is read as; joined parts are read one by one.\<close>

definition part_reads :: "string \<Rightarrow> string \<Rightarrow> bool" where
  "part_reads p a \<longleftrightarrow> (\<forall>s. sh_lex None Unquoted (p @ s) = sh_lex (Some a) Unquoted s)"

lemma join_reads: "list_all2 part_reads ps as \<Longrightarrow> sh_words (join '' '' ps) = Some (as, '''')"
  unfolding sh_words_def
proof (induction rule: list_all2_induct)
  case (Cons p ps a as)
  show ?case
  proof (cases "ps = []")
    case True
    then have "sh_lex None Unquoted p = sh_lex (Some a) Unquoted []" "as = []"
      using Cons.hyps(1, 2) by (auto simp: part_reads_def dest: spec [of _ "[]"])
    with True show ?thesis by simp
  next
    case False
    then show ?thesis
      using Cons by (simp add: join_Cons part_reads_def sh_lex_space)
  qed
qed simp

lemma part_reads_QuoteArg: "posix_kind kind \<Longrightarrow> quotable a \<Longrightarrow> part_reads (QuoteArg kind a) a"
  by (simp add: part_reads_def sh_lex_QuoteArg)

lemma part_reads_plain: "p \<noteq> [] \<Longrightarrow> list_all sh_plain p \<Longrightarrow> part_reads p p"
  by (simp add: part_reads_def sh_lex_plains)

lemma part_reads_words [simp]:
  "part_reads ''claude'' ''claude''" "part_reads ''--name'' ''--name''"
  "part_reads ''--permission-mode'' ''--permission-mode''" "part_reads ''--settings'' ''--settings''"
  "part_reads ''--resume'' ''--resume''" "part_reads ''--continue'' ''--continue''"
  "part_reads ''codex'' ''codex''" "part_reads ''resume'' ''resume''" "part_reads ''--last'' ''--last''"
  "part_reads ''-c'' ''-c''" "part_reads ''grok'' ''grok''"
  by (rule part_reads_plain, simp, simp add: sh_plain_def quote_chars_def char_defs)+

definition command_quotable :: "tool_spec \<Rightarrow> bool" where
  "command_quotable t \<longleftrightarrow> quotable (ts_name t) \<and> quotable (ts_permission_mode t) \<and> quotable (ts_settings_path t)
     \<and> quotable (ts_resume t) \<and> list_all quotable (ts_extra t)"

lemma quotable_notify: "quotable (''notify='' @ tomlStringArray items)"
proof -
  have "CHR ''['' \<in> set quote_chars"
    by (simp add: quote_chars_def)
  then show ?thesis
    by (auto simp: quotable_def tomlStringArray_def list_ex_iff)
qed

lemma command_parts_reads:
  assumes "posix_kind (ts_shell_kind t)" and "command_quotable t"
  shows "rel_option (list_all2 part_reads) (command_parts (QuoteArg (ts_shell_kind t)) t r) (command_parts id t r)"
proof -
  let ?q = "QuoteArg (ts_shell_kind t)"
  have q: "quotable a \<Longrightarrow> part_reads (?q a) a" for a
    by (rule part_reads_QuoteArg [OF assms(1)])
  have extra: "list_all2 part_reads (map ?q (ts_extra t)) (ts_extra t)"
    using assms(2) q by (simp add: command_quotable_def list_all2_map1 list_all_iff list.rel_refl_strong)
  have args: "part_reads (?q (ts_name t)) (ts_name t)" "part_reads (?q (ts_permission_mode t)) (ts_permission_mode t)"
    "part_reads (?q (ts_settings_path t)) (ts_settings_path t)" "part_reads (?q (ts_resume t)) (ts_resume t)"
    "part_reads (?q (''notify='' @ tomlStringArray (ts_codex_notify t))) (''notify='' @ tomlStringArray (ts_codex_notify t))"
    using assms(2) q [OF quotable_notify] by (simp_all only: command_quotable_def q)
  show ?thesis
    unfolding command_parts_def
    by (simp add: extra args list_all2_appendI del: append_Cons append_Nil)
qed

section \<open>How TOML reads an array of strings\<close>

text \<open>
  A basic string: the escapes the code writes are read back, and an unescaped control character
  other than a tab is an error. The reader gives the text and what follows the closing quote.
\<close>

definition toml_control :: "char \<Rightarrow> bool" where
  "toml_control c \<longleftrightarrow> byte_in 0 0x1F c \<and> c \<noteq> TAB \<or> c = CHR 0x7F"

fun toml_string :: "string \<Rightarrow> (string \<times> string) option" where
  "toml_string [] = None"
| "toml_string [c] = (if c = DQUOTE then Some ([], []) else None)"
| "toml_string (c # d # s) =
     (if c = DQUOTE then Some ([], d # s)
      else if c = BSLASH then
        (if d = BSLASH \<or> d = DQUOTE then map_option (\<lambda>(t, r). (d # t, r)) (toml_string s)
         else if d = CHR ''n'' then map_option (\<lambda>(t, r). (NL # t, r)) (toml_string s)
         else None)
      else if toml_control c then None
      else map_option (\<lambda>(t, r). (c # t, r)) (toml_string (d # s)))"

function toml_rest :: "string \<Rightarrow> string list option" where
  "toml_rest s = (if s = '']'' then Some []
     else case s of
       [] \<Rightarrow> None
     | [c] \<Rightarrow> None
     | c # d # r \<Rightarrow> if c = CHR '','' \<and> d = DQUOTE then
         (case toml_string r of None \<Rightarrow> None
          | Some (t, r') \<Rightarrow> if length r' < length s then map_option (\<lambda>ts. t # ts) (toml_rest r') else None)
         else None)"
  by pat_completeness auto
termination
  by (relation "measure length") auto

declare toml_rest.simps [simp del]

definition toml_array :: "string \<Rightarrow> string list option" where
  "toml_array s = (case s of
     [] \<Rightarrow> None
   | c # r \<Rightarrow> if c \<noteq> CHR ''['' then None else if r = '']'' then Some [] else toml_rest (CHR '','' # r))"

definition toml_plain :: "string \<Rightarrow> bool" where
  "toml_plain r \<longleftrightarrow> r = [NL] \<or> r \<noteq> [] \<and> \<not> list_ex toml_control r
     \<and> (length r = 1 \<or> (DQUOTE \<notin> set r \<and> BSLASH \<notin> set r))"

lemma toml_control_simps [simp]: "toml_control NL" "\<not> toml_control BSLASH" "\<not> toml_control DQUOTE"
  by (simp_all add: toml_control_def byte_in_def char_defs)

lemma toml_string_char:
  "c \<noteq> DQUOTE \<Longrightarrow> c \<noteq> BSLASH \<Longrightarrow> \<not> toml_control c \<Longrightarrow>
   toml_string (c # s) = map_option (\<lambda>(t, r). (c # t, r)) (toml_string s)"
  by (cases s) auto

lemma toml_string_chars:
  "DQUOTE \<notin> set p \<Longrightarrow> BSLASH \<notin> set p \<Longrightarrow> \<not> list_ex toml_control p \<Longrightarrow>
   toml_string (p @ s) = map_option (\<lambda>(t, r). (p @ t, r)) (toml_string s)"
proof (induction p)
  case Nil
  then show ?case by (cases "toml_string s") auto
next
  case (Cons c p)
  then have "toml_string (c # p @ s) = map_option (\<lambda>(t, r). (c # t, r)) (toml_string (p @ s))"
    by (intro toml_string_char) auto
  with Cons show ?case by (cases "toml_string s") auto
qed

lemma toml_string_rune:
  assumes "toml_plain r"
  shows "toml_string (toml_rune r @ s) = map_option (\<lambda>(t, u). (r @ t, u)) (toml_string s)"
proof -
  consider "r = [NL]" | "r = [BSLASH]" | "r = [DQUOTE]"
    | "DQUOTE \<notin> set r" "BSLASH \<notin> set r" "\<not> list_ex toml_control r"
  proof (cases "length r = 1")
    case True
    then obtain c where "r = [c]" by (auto simp: length_Suc_conv)
    with assms that show thesis by (auto simp: toml_plain_def)
  qed (use assms that in \<open>auto simp: toml_plain_def\<close>)
  then show ?thesis
  proof cases
    case 4
    then have "r \<noteq> [NL]" by auto
    with 4 show ?thesis by (auto simp: toml_rune_def toml_string_chars)
  qed (simp_all add: toml_rune_def char_defs)
qed

lemma toml_string_runes:
  "list_all toml_plain rs \<Longrightarrow> toml_string (concat (map toml_rune rs) @ DQUOTE # s) = Some (concat rs, s)"
proof (induction rs)
  case Nil
  show ?case by (cases s) simp_all
qed (simp add: toml_string_rune)

lemma toml_rest_items:
  "list_all (list_all toml_plain \<circ> utf8_runes) ss \<Longrightarrow>
   toml_rest (toml_items False ss @ '']'') = Some (map (concat \<circ> utf8_runes) ss)"
proof (induction ss)
  case Nil
  show ?case by (subst toml_rest.simps) simp
next
  case (Cons s ss)
  then show ?case
    by (subst toml_rest.simps) (simp add: toml_string_runes)
qed

lemma toml_items_False: "toml_items False (s # ss) = CHR '','' # toml_items True (s # ss)"
  by simp

lemma utf8_width_plain: "toml_plain [c]" if "\<not> toml_control c \<or> c = NL" for c
  using that by (auto simp: toml_plain_def)

section \<open>Properties\<close>

text \<open>C40: Quoting is exact for the shells of the POSIX family: an argument, empty or with any
  quotes, blanks, dollars and backslashes, is read back by the shell as that one word and
  nothing more, with one exception that is characterised: an argument with a line feed and
  none of the characters the code quotes for is typed as it is, and the shell ends the command
  there, which leaves the rest to be run as another command.\<close>

theorem quote_arg_exact:
  assumes "posix_kind kind"
  shows "if quotable a then sh_words (QuoteArg kind a) = Some ([a], '''')
    else \<exists>u v. a = u @ NL # v \<and> sh_words (QuoteArg kind a) = Some (if u = '''' then [] else [u], v)"
proof (cases "quotable a")
  case True
  with sh_lex_QuoteArg [OF assms this, of "[]"] show ?thesis
    by (simp add: sh_words_def)
next
  case False
  then obtain u v where "a = u @ NL # v"
    "sh_words (QuoteArg kind a) = Some (word_flush (if u = [] then None else Some u), v)"
    by (rule QuoteArg_newline [OF assms])
  then have "a = u @ NL # v \<and> sh_words (QuoteArg kind a) = Some (if u = '''' then [] else [u], v)"
    by simp
  with False show ?thesis
    by (simp only: if_False) blast
qed

theorem quote_arg_exact_witness:
  "sh_words (QuoteArg ''sh'' ''it's $5'') = Some ([''it's $5''], '''')
   \<and> sh_words (QuoteArg ''sh'' (''a'' @ [NL] @ ''reboot'')) = Some ([''a''], ''reboot'')"
proof
  show "sh_words (QuoteArg ''sh'' ''it's $5'') = Some ([''it's $5''], '''')"
    using quote_arg_exact [of "''sh''" "''it's $5''"]
    by (simp add: posix_kind_def quotable_def char_defs)
  show "sh_words (QuoteArg ''sh'' (''a'' @ [NL] @ ''reboot'')) = Some ([''a''], ''reboot'')"
    by (simp add: sh_words_def QuoteArg_def quote_chars_def char_defs)
qed



text \<open>The notifier's array is read back by TOML as the same list of strings, quotes,
  backslashes and line feeds included, when their runes are valid in TOML (a rune that is not
  valid UTF-8 has become the replacement character).\<close>

theorem toml_array_roundtrip:
  assumes "list_all (list_all toml_plain \<circ> utf8_runes) items"
  shows "toml_array (tomlStringArray items) = Some (map (concat \<circ> utf8_runes) items)"
proof (cases items)
  case Nil
  then show ?thesis by (simp add: tomlStringArray_def toml_array_def)
next
  case (Cons s ss)
  have "toml_array (tomlStringArray items) = toml_rest (toml_items False items @ '']'')"
    by (simp add: tomlStringArray_def toml_array_def Cons char_defs)
  with toml_rest_items [OF assms] show ?thesis by simp
qed

theorem toml_array_roundtrip_witness:
  "toml_array (tomlStringArray [''/opt/tx'', [DQUOTE, BSLASH], ''codex-notify'']) = Some [''/opt/tx'', [DQUOTE, BSLASH], ''codex-notify'']"
proof -
  have r: "utf8_runes ''/opt/tx'' = map (\<lambda>c. [c]) ''/opt/tx''" "utf8_runes [DQUOTE, BSLASH] = [[DQUOTE], [BSLASH]]"
    "utf8_runes ''codex-notify'' = map (\<lambda>c. [c]) ''codex-notify''"
    by (simp_all add: utf8_runes_ascii is_ascii_def byte_in_def char_defs)
  show ?thesis
    using toml_array_roundtrip [of "[''/opt/tx'', [DQUOTE, BSLASH], ''codex-notify'']"]
    unfolding list.pred_inject comp_def list.map r
    by (simp add: toml_plain_def toml_control_def byte_in_def char_defs)
qed

end
