(* ===== verification/Persist.thy ===== *)
theory Persist
  imports Cmdline
begin

text \<open>
  Session persistence through tmux (\<^verbatim>\<open>internal/session/persist.go\<close>): the names of the tmux
  sessions, the listing that finds them again after a restart, the command that starts or
  re-attaches one, and the exit status its wrapper records. Running tmux and reading files are
  outside the program: a run of tmux is the parameter \<open>tmux\<close>, which maps the arguments and the
  state of the world to an output, marked as an error or not, and the next state.
\<close>

section \<open>Session names\<close>

definition PersistName :: "u32 \<Rightarrow> string" where
  "PersistName sid = ''tx-'' @ format_uint (unat sid)"

definition PersistSID :: "string \<Rightarrow> u32 option" where
  "PersistSID name =
     (if starts_with ''tx-'' name then map_option word_of_nat (parse_uint 32 (drop 3 name)) else None)"

section \<open>Running tmux\<close>

type_synonym 'w tmux = "string list \<Rightarrow> 'w \<Rightarrow> (string + string) \<times> 'w"

text \<open>The value of \<^verbatim>\<open>TX_TMUX_SERVER\<close> is an argument.\<close>

definition TmuxServer :: string where "TmuxServer = ''terminalx''"

definition tmuxServerName :: "string \<Rightarrow> string" where
  "tmuxServerName env = (let v = trim_space env in if v \<noteq> '''' then v else TmuxServer)"

definition tmuxArgs :: "string \<Rightarrow> string \<Rightarrow> string list \<Rightarrow> string list" where
  "tmuxArgs env conf args =
     (let base = [''-L'', tmuxServerName env];
          base = (if conf \<noteq> '''' then base @ [''-f'', conf] else base)
      in base @ args)"

definition tmuxRun :: "'w tmux \<Rightarrow> string \<Rightarrow> string \<Rightarrow> string list \<Rightarrow> 'w \<Rightarrow> (string + string) \<times> 'w" where
  "tmuxRun tmux env conf args w = tmux (tmuxArgs env conf args) w"

definition TmuxHasSession :: "'w tmux \<Rightarrow> string \<Rightarrow> string \<Rightarrow> string \<Rightarrow> 'w \<Rightarrow> bool \<times> 'w" where
  "TmuxHasSession tmux env conf name w =
     (let (r, w) = tmuxRun tmux env conf [''has-session'', ''-t'', ''='' @ name] w
      in (case r of Inl _ \<Rightarrow> False | Inr _ \<Rightarrow> True, w))"

definition session_lines :: "string \<Rightarrow> u32 list" where
  "session_lines out = List.map_filter (\<lambda>line. PersistSID (trim_space line)) (split_at NL out)"

definition TmuxSessions :: "'w tmux \<Rightarrow> string \<Rightarrow> string \<Rightarrow> 'w \<Rightarrow> u32 list \<times> 'w" where
  "TmuxSessions tmux env conf w =
     (let (r, w) = tmuxRun tmux env conf [''list-sessions'', ''-F'', ''#{session_name}''] w
      in (case r of Inl _ \<Rightarrow> [] | Inr out \<Rightarrow> session_lines out, w))"

definition TmuxKill :: "'w tmux \<Rightarrow> string \<Rightarrow> string \<Rightarrow> string \<Rightarrow> 'w \<Rightarrow> string option \<times> 'w" where
  "TmuxKill tmux env conf name w =
     (let (has, w) = TmuxHasSession tmux env conf name w in
      if \<not> has then (None, w)
      else let (r, w) = tmuxRun tmux env conf [''kill-session'', ''-t'', ''='' @ name] w
        in (case r of
              Inl out \<Rightarrow> Some (''session: tmux kill-session '' @ name @ '': '' @ trim_space out)
            | Inr _ \<Rightarrow> None, w))"

definition capture_text :: "string \<Rightarrow> string" where
  "capture_text out = replace_char NL [CR, NL] (trim_right (\<lambda>c. c = NL) out)"

definition TmuxCapture :: "'w tmux \<Rightarrow> string \<Rightarrow> string \<Rightarrow> string \<Rightarrow> nat \<Rightarrow> 'w \<Rightarrow> byte list \<times> 'w" where
  "TmuxCapture tmux env conf name lines w =
     (let (r, w) = tmuxRun tmux env conf [''capture-pane'', ''-p'', ''-e'', ''-J'',
        ''-S'', ''-'' @ format_uint lines, ''-t'', ''='' @ name @ '':''] w
      in (case r of Inl _ \<Rightarrow> [] | Inr out \<Rightarrow> bytes_of (capture_text out), w))"

section \<open>Launching\<close>

definition shQuote :: "string \<Rightarrow> string" where
  "shQuote s = [SQUOTE] @ replace_char SQUOTE [SQUOTE, BSLASH, SQUOTE, SQUOTE] s @ [SQUOTE]"

definition launch_script :: "string \<Rightarrow> string" where
  "launch_script exitFile =
     [DQUOTE] @ ''$@'' @ [DQUOTE] @ ''; s=$?; printf %d '' @ [DQUOTE] @ ''$s'' @ [DQUOTE] @ '' > ''
     @ shQuote exitFile @ ''; exit '' @ [DQUOTE] @ ''$s'' @ [DQUOTE]"

definition tmuxLaunch ::
  "string \<Rightarrow> string \<Rightarrow> string \<Rightarrow> u16 \<Rightarrow> u16 \<Rightarrow> string \<Rightarrow> string \<Rightarrow> string list \<Rightarrow> string \<Rightarrow> string list" where
  "tmuxLaunch env conf name cols rows cwd shell shellArgs exitFile =
     (let args = tmuxArgs env conf [''new-session'', ''-A'', ''-s'', name,
            ''-x'', format_uint (unat cols), ''-y'', format_uint (unat rows)];
          args = (if cwd \<noteq> '''' then args @ [''-c'', cwd] else args);
          args = args @ [''--'']
      in if exitFile = '''' then (args @ [shell]) @ shellArgs
         else (args @ [''/bin/sh'', ''-c'', launch_script exitFile, ''tx-session'', shell]) @ shellArgs)"

section \<open>Exit status\<close>

text \<open>
  The file system is a map from paths to contents; a read error other than a missing file is
  not modelled, and the removal is ignored when it fails, as here for a missing file.
\<close>

definition readExitFile :: "string \<Rightarrow> (string, string) gomap \<Rightarrow> i32 option \<times> (string, string) gomap" where
  "readExitFile path fs =
     (if path = '''' then (None, fs)
      else let b = mget fs path; fs = mdel path fs in
        (case b of None \<Rightarrow> None | Some s \<Rightarrow> map_option word_of_int (atoi (trim_space s)), fs))"

section \<open>Lemmas\<close>

lemma PersistSID_name: "PersistSID (PersistName sid) = Some sid"
proof -
  have "unat sid < 2 ^ 32" by (rule unat_u32_less)
  then show ?thesis
    by (simp add: PersistSID_def PersistName_def starts_with_def parse_format_uint del: power_numeral)
qed

lemma PersistSID_Some:
  assumes "PersistSID name = Some sid"
  shows "\<exists>ds. name = ''tx-'' @ ds \<and> ds \<noteq> '''' \<and> list_all is_digit ds \<and> decimal_value ds = unat sid"
proof -
  from assms have tx: "take 3 name = ''tx-''" and p: "parse_uint 32 (drop 3 name) \<noteq> None"
    and sid: "sid = word_of_nat (decimal_value (drop 3 name))"
    by (auto simp: PersistSID_def starts_with_def parse_uint_def numeral_3_eq_3 split: if_splits)
  have "name = ''tx-'' @ drop 3 name"
    using tx by (metis append_take_drop_id)
  moreover have "decimal_value (drop 3 name) = unat sid" "drop 3 name \<noteq> ''''" "list_all is_digit (drop 3 name)"
    using p by (auto simp: parse_uint_def sid unat_of_nat split: if_splits)
  ultimately show ?thesis by blast
qed

lemma map_filter_Cons: "List.map_filter f (x # xs) =
    (case f x of None \<Rightarrow> List.map_filter f xs | Some y \<Rightarrow> y # List.map_filter f xs)"
  by (simp add: List.map_filter_def split: option.split)

lemma map_filter_Nil [simp]: "List.map_filter f [] = []"
  by (simp add: List.map_filter_def)

lemma trim_space_Nil [simp]: "trim_space [] = []"
  by code_simp

lemma session_lines_names:
  "list_all (\<lambda>n. NL \<notin> set n \<and> trim_space n = n) names \<Longrightarrow>
   session_lines (concat (map (\<lambda>n. n @ [NL]) names)) = List.map_filter PersistSID names"
proof (induction names)
  case Nil
  show ?case
    by (simp add: session_lines_def map_filter_Cons PersistSID_def starts_with_def List.map_filter_def)
next
  case (Cons n names)
  then show ?case
    by (simp add: session_lines_def map_filter_Cons split_at_line split: option.split)
qed

text \<open>Text that begins and ends with an ordinary ASCII character is not trimmed.\<close>

definition plain_end :: "char \<Rightarrow> bool" where
  "plain_end c \<longleftrightarrow> byte_in 0x21 0x7E c"

lemma trim_runes_stop: "s \<noteq> [] \<Longrightarrow> hd s \<notin> hd ` set ws \<Longrightarrow> trim_runes ws s = s"
proof -
  assume s: "s \<noteq> []" "hd s \<notin> hd ` set ws"
  have "\<not> (w \<noteq> [] \<and> starts_with w s)" if "w \<in> set ws" for w
    using s that by (cases w; cases s) (auto simp: starts_with_def rev_image_eqI)
  then have "find (\<lambda>w. w \<noteq> [] \<and> starts_with w s) ws = None"
    by (auto simp: find_None_iff)
  then show ?thesis
    by (subst trim_runes.simps) simp
qed

lemma plain_end_heads: "plain_end c \<Longrightarrow> c \<notin> hd ` set space_runes \<and> c \<notin> hd ` set (map rev space_runes)"
  by (auto simp: space_runes_def plain_end_def byte_in_def)

lemma trim_space_plain: "s \<noteq> [] \<Longrightarrow> plain_end (hd s) \<Longrightarrow> plain_end (last s) \<Longrightarrow> trim_space s = s"
  using plain_end_heads [of "hd s"] plain_end_heads [of "last s"]
  by (simp add: trim_space_def trim_runes_stop hd_rev)

lemma digit_plain_end: "is_digit c \<Longrightarrow> plain_end c"
  by (simp add: is_digit_def plain_end_def byte_in_def Let_def)

lemma digits_ends:
  assumes "list_all is_digit ds" and "ds \<noteq> []"
  shows "plain_end (hd ds)" and "plain_end (last ds)" and "NL \<notin> set ds"
  using assms by (auto simp: list_all_iff is_digit_def byte_in_def char_defs intro!: digit_plain_end)

lemma PersistName_line: "NL \<notin> set (PersistName sid) \<and> trim_space (PersistName sid) = PersistName sid"
proof
  note d = digits_ends [OF format_uint_digits [of "unat sid"] format_uint_not_Nil]
  show "NL \<notin> set (PersistName sid)"
    using d(3) by (simp add: PersistName_def char_defs)
  show "trim_space (PersistName sid) = PersistName sid"
    by (rule trim_space_plain) (use d(2) in \<open>simp_all add: PersistName_def plain_end_def byte_in_def\<close>)
qed

lemma atoi_format: "n < 2 ^ 63 \<Longrightarrow> atoi (format_uint n) = Some (int n)"
proof -
  assume n: "n < 2 ^ 63"
  obtain d ds where ds: "format_uint n = d # ds"
    by (cases "format_uint n") auto
  have "is_digit d"
    using format_uint_digits [of n] by (simp add: ds)
  then have "\<not> starts_with ''-'' (format_uint n)" "\<not> starts_with ''+'' (format_uint n)"
    by (auto simp: ds starts_with_def is_digit_def byte_in_def)
  with n show ?thesis
    by (simp add: atoi_def Let_def format_uint_digits decimal_value_format)
qed

section \<open>Properties\<close>

text \<open>A session is found again by its name: the tmux name of a session id is parsed to the
  same id, different ids have different names, and a listing made of any such names, one on
  each line, is read as exactly these ids in order.\<close>

theorem persisted_sessions_found:
  "PersistSID (PersistName sid) = Some sid
   \<and> (PersistName sid = PersistName sid' \<longleftrightarrow> sid = sid')
   \<and> session_lines (concat (map (\<lambda>s. PersistName s @ [NL]) sids)) = sids"
proof (intro conjI)
  show "PersistSID (PersistName sid) = Some sid"
    by (rule PersistSID_name)
  show "PersistName sid = PersistName sid' \<longleftrightarrow> sid = sid'"
    by (metis PersistSID_name option.inject)
  have "session_lines (concat (map (\<lambda>n. n @ [NL]) (map PersistName sids)))
      = List.map_filter PersistSID (map PersistName sids)"
    by (rule session_lines_names) (simp add: list_all_iff PersistName_line)
  also have "\<dots> = sids"
    by (induction sids) (simp_all add: map_filter_Cons PersistSID_name)
  finally show "session_lines (concat (map (\<lambda>s. PersistName s @ [NL]) sids)) = sids"
    by (simp add: comp_def)
qed

text \<open>The exit status of the wrapper comes back: the decimal text it writes is read as the
  status, the file is gone afterwards so that a later generation cannot read it again, and no
  other file changes.\<close>

theorem exit_file_roundtrip:
  assumes "path \<noteq> ''''" and "n < 256"
  shows "\<exists>fs'. readExitFile path (mput path (format_uint n) fs) = (Some (word_of_nat n), fs')
    \<and> readExitFile path fs' = (None, fs') \<and> (\<forall>p. p \<noteq> path \<longrightarrow> mget fs' p = mget fs p)"
proof -
  have "trim_space (format_uint n) = format_uint n"
    by (rule trim_space_plain) (use digits_ends [OF format_uint_digits] in auto)
  then have r: "readExitFile path (mput path (format_uint n) fs)
      = (Some (word_of_nat n), mdel path (mput path (format_uint n) fs))"
    using assms by (simp add: readExitFile_def Let_def atoi_format)
  have "mdel path (mdel path (mput path (format_uint n) fs)) = mdel path (mput path (format_uint n) fs)"
    by (simp add: mdel_def)
  with r assms(1) show ?thesis
    by (simp add: readExitFile_def Let_def)
qed

theorem exit_file_roundtrip_witness:
  "\<exists>fs'. readExitFile ''/x'' (mput ''/x'' (format_uint 137) []) = (Some 137, fs') \<and> readExitFile ''/x'' fs' = (None, fs')"
  using exit_file_roundtrip [of "''/x''" 137 "[]"] by auto

end
