(* ===== verification/Session.thy ===== *)
theory Session
  imports Ring Heuristic Persist Frames
begin

text \<open>
  One terminal session (\<^verbatim>\<open>internal/session/session.go\<close>): its state, every operation on it, and the
  batching of its output. What an operation does to the outside (the terminal, tmux, the
  callbacks of the agent) is the list of its effects; what the outside decides (time, whether a
  process starts, what tmux and the file system say) is an argument. Each section of the code
  under the session's mutex is one definition; operations that block between sections are split
  there. The lemmas show that the output reaches the callback without gap or repetition, that an
  attaching client gets exactly what it misses, and that exits are reported once.
\<close>

section \<open>Options and state\<close>

definition DefaultRingSize :: int where "DefaultRingSize = 4194304"
definition DefaultCols :: u16 where "DefaultCols = 120"
definition DefaultRows :: u16 where "DefaultRows = 36"
definition SnapshotTail :: int where "SnapshotTail = 524288"

text \<open>The batch interval and the logger only affect timing and the log.\<close>

record session_opts =
  so_sid :: u32
  so_shell :: string
  so_cwd :: string
  so_tool :: tool_spec
  so_name :: string
  so_preset :: string
  so_approval_mode :: approval_mode
  so_env :: "string list"
  so_cols :: u16
  so_rows :: u16
  so_persist :: bool
  so_persist_conf :: string
  so_persist_state_dir :: string
  so_ring_size :: int
  so_on_output :: bool
  so_on_exit :: bool

datatype session_error =
    ErrExited | ErrPtyWrite | ErrPtyResize | ErrBadSize | ErrUnknownSignal signal
  | ErrKillInProgress | ErrRespawn | ErrStartShell | ErrBadCwd string | ErrNoShell
  | ErrAdoptNeedsPersist | ErrAdoptNeedsTmux | ErrTmuxGone string

datatype spawn_mode = spawnNew | spawnResume | spawnAttach

text \<open>
  A process generation is a number; the code's pointer equality of generations is equality of
  numbers. The launch effect holds the program and its arguments.
\<close>

datatype effect =
    Launch nat string "string list"
  | TypeTool nat string
  | PtyWrite nat "byte list"
  | PtyResize nat u16 u16
  | Terminate nat
  | KillTmux string
  | Output u64 "byte list"
  | Replayed "byte list" u64 bool
  | Exited i32 "resumable option"

record session =
  ss_opts :: session_opts
  ss_shell_path :: string
  ss_shell_kind :: string
  ss_shell_args :: "string list"
  ss_info :: session_info
  ss_cur :: "nat option"
  ss_next :: nat
  ss_ring :: ring
  ss_last_output :: instant
  ss_last_structured :: instant
  ss_attached :: nat
  ss_heur :: heur_state
  ss_tool_session_id :: string
  ss_tool_exited :: bool
  ss_killing :: bool
  ss_closed :: bool
  ss_suspended :: bool
  ss_persist :: bool
  ss_persist_name :: string
  ss_fast_reattaches :: nat
  ss_pending :: "byte list"
  ss_pending_seq :: u64
  ss_flush_timer :: bool

definition upd_info :: "(session_info \<Rightarrow> session_info) \<Rightarrow> session \<Rightarrow> session" where
  "upd_info f s = s\<lparr>ss_info := f (ss_info s)\<rparr>"

lemma upd_info_simps [simp]:
  "ss_opts (upd_info f s) = ss_opts s" "ss_info (upd_info f s) = f (ss_info s)" "ss_cur (upd_info f s) = ss_cur s"
  "ss_next (upd_info f s) = ss_next s" "ss_ring (upd_info f s) = ss_ring s" "ss_killing (upd_info f s) = ss_killing s"
  "ss_closed (upd_info f s) = ss_closed s" "ss_persist (upd_info f s) = ss_persist s"
  "ss_pending (upd_info f s) = ss_pending s" "ss_pending_seq (upd_info f s) = ss_pending_seq s"
  "ss_flush_timer (upd_info f s) = ss_flush_timer s" "ss_suspended (upd_info f s) = ss_suspended s"
  "ss_attached (upd_info f s) = ss_attached s" "ss_tool_exited (upd_info f s) = ss_tool_exited s"
  "ss_heur (upd_info f s) = ss_heur s" "ss_last_structured (upd_info f s) = ss_last_structured s"
  "ss_tool_session_id (upd_info f s) = ss_tool_session_id s"
  by (simp_all add: upd_info_def)

section \<open>Output\<close>

definition batch_limit :: nat where "batch_limit = 262144"

definition flushLocked :: "session \<Rightarrow> session \<times> effect list" where
  "flushLocked s =
     (let data = ss_pending s; seq = ss_pending_seq s;
          s = s\<lparr>ss_flush_timer := False, ss_pending := []\<rparr>
      in if data = [] \<or> \<not> so_on_output (ss_opts s) then (s, []) else (s, [Output seq data]))"

definition flush :: "session \<Rightarrow> session \<times> effect list" where
  "flush s = flushLocked s"

text \<open>The section of \<^verbatim>\<open>emit\<close> under the mutex, and the whole with the flush of a big batch.\<close>

definition emit_locked :: "instant \<Rightarrow> byte list \<Rightarrow> session \<Rightarrow> session \<times> bool" where
  "emit_locked now data s =
     (let (r, start) = ring_Write data (ss_ring s);
          s = s\<lparr>ss_ring := r, ss_last_output := now\<rparr>;
          s = upd_info (\<lambda>i. i\<lparr>si_last_output_at := now, si_seq := ring_Seq r\<rparr>) s;
          s = (if ss_pending s = [] then s\<lparr>ss_pending_seq := start\<rparr> else s);
          s = s\<lparr>ss_pending := ss_pending s @ data\<rparr>
      in (s\<lparr>ss_flush_timer := True\<rparr>, length (ss_pending s) \<ge> batch_limit))"

definition emit :: "instant \<Rightarrow> byte list \<Rightarrow> session \<Rightarrow> session \<times> effect list" where
  "emit now data s =
     (let (s, big) = emit_locked now data s in if big then flush s else (s, []))"

definition Replay :: "u64 \<Rightarrow> session \<Rightarrow> session \<times> effect list" where
  "Replay lastSeq s =
     (let (s, fx) = flushLocked s in
      case ring_Delta lastSeq (ss_ring s) of
        Some d \<Rightarrow> (s, fx @ [Replayed d (lastSeq + word_of_nat (length d)) True])
      | None \<Rightarrow> let (tail, end) = ring_Tail SnapshotTail (ss_ring s) in (s, fx @ [Replayed tail end False]))"

definition session_Delta :: "u64 \<Rightarrow> session \<Rightarrow> byte list option" where
  "session_Delta lastSeq s = ring_Delta lastSeq (ss_ring s)"

definition Snapshot :: "session \<Rightarrow> byte list \<times> u64" where
  "Snapshot s = ring_Tail SnapshotTail (ss_ring s)"

section \<open>Accessors and setters\<close>

definition Info :: "session \<Rightarrow> session \<times> session_info" where
  "Info s = (let s = upd_info (\<lambda>i. i\<lparr>si_seq := ring_Seq (ss_ring s)\<rparr>) s in (s, ss_info s))"

definition Health :: "session \<Rightarrow> session_health" where
  "Health s = \<lparr>sh_sid = so_sid (ss_opts s), sh_pty_alive = (ss_cur s \<noteq> None \<and> si_pty_alive (ss_info s)),
     sh_last_output_at = ss_last_output s, sh_seq = ring_Seq (ss_ring s)\<rparr>"

definition Alive :: "session \<Rightarrow> bool" where
  "Alive s \<longleftrightarrow> si_pty_alive (ss_info s) \<and> \<not> ss_closed s"

definition Tool :: "session \<Rightarrow> string" where
  "Tool s = (if ss_tool_exited s then ToolShell else si_tool (ss_info s))"

definition SetApprovalMode :: "approval_mode \<Rightarrow> session \<Rightarrow> session \<times> session_info" where
  "SetApprovalMode m s =
     (let s = (if m \<noteq> ModeOther '''' then upd_info (\<lambda>i. i\<lparr>si_approval_mode := m\<rparr>) s else s) in (s, ss_info s))"

definition structured_source :: "signal_source \<Rightarrow> bool" where
  "structured_source src \<longleftrightarrow> src \<in> {SourceHook, SourceHooksJSON, SourceNotify, SourceStatusLine}"

definition SetState ::
  "session_state \<Rightarrow> need_kind \<Rightarrow> signal_source \<Rightarrow> confidence \<Rightarrow> instant \<Rightarrow> session \<Rightarrow> session \<times> bool" where
  "SetState st kind src conf now s =
     (if si_state (ss_info s) = StateExited then (s, False)
      else
        let s = upd_info (\<lambda>i. i\<lparr>si_state := st, si_kind := kind, si_source := src, si_confidence := conf\<rparr>) s;
            s = (if structured_source src then s\<lparr>ss_last_structured := now\<rparr> else s)
        in (s, True))"

definition SetMetrics :: "float64 option \<Rightarrow> float64 option \<Rightarrow> instant \<Rightarrow> session \<Rightarrow> session \<times> session_info" where
  "SetMetrics cost ctxPct now s =
     (let s = (if cost \<noteq> None then upd_info (\<lambda>i. i\<lparr>si_cost_usd := cost\<rparr>) s else s);
          s = (if ctxPct \<noteq> None then upd_info (\<lambda>i. i\<lparr>si_context_pct := ctxPct\<rparr>) s else s);
          s = s\<lparr>ss_last_structured := now\<rparr>
      in (s, ss_info s))"

definition SetToolSession :: "string \<Rightarrow> session \<Rightarrow> session" where
  "SetToolSession sid s = s\<lparr>ss_tool_session_id := sid, ss_tool_exited := False\<rparr>"

definition ToolExited :: "session \<Rightarrow> session" where
  "ToolExited s = s\<lparr>ss_tool_exited := True\<rparr>"

definition Attach :: "session \<Rightarrow> session" where
  "Attach s = s\<lparr>ss_attached := ss_attached s + 1\<rparr>"

definition Detach :: "session \<Rightarrow> session" where
  "Detach s = (if ss_attached s > 0 then s\<lparr>ss_attached := ss_attached s - 1\<rparr> else s)"

definition resumableLocked :: "session \<Rightarrow> resumable" where
  "resumableLocked s =
     (let i = ss_info s; r = \<lparr>re_tool = si_tool i, re_name = '''', re_cwd = si_cwd i\<rparr> in
      if si_tool i = ToolClaude then
        (if si_name i \<noteq> '''' then r\<lparr>re_name := si_name i\<rparr> else r\<lparr>re_name := ss_tool_session_id s\<rparr>)
      else if si_tool i = ToolCodex then
        (let r = r\<lparr>re_name := ss_tool_session_id s\<rparr> in if re_name r = '''' then r\<lparr>re_name := ''last''\<rparr> else r)
      else r)"

section \<open>Processes\<close>

text \<open>\<^verbatim>\<open>filepath.Join\<close> of a clean directory and a name.\<close>

definition exitFile :: "session \<Rightarrow> string" where
  "exitFile s = (if \<not> ss_persist s \<or> so_persist_state_dir (ss_opts s) = '''' then ''''
     else so_persist_state_dir (ss_opts s) @ ''/exit'')"

text \<open>
  \<^verbatim>\<open>spawn\<close>: the new generation, or None when the terminal or the process could not be started
  (argument \<open>ok\<close>). The tool command is typed by a goroutine once the shell shows output.
\<close>

definition launch_argv :: "string \<Rightarrow> session \<Rightarrow> string \<times> string list" where
  "launch_argv env s =
     (if ss_persist s then
        (''tmux'', tmuxLaunch env (so_persist_conf (ss_opts s)) (ss_persist_name s)
           (si_cols (ss_info s)) (si_rows (ss_info s)) (so_cwd (ss_opts s)) (ss_shell_path s) (ss_shell_args s) (exitFile s))
      else (ss_shell_path s, ss_shell_args s))"

definition spawn :: "string \<Rightarrow> bool \<Rightarrow> spawn_mode \<Rightarrow> session \<Rightarrow> (nat \<times> session \<times> effect list) option" where
  "spawn env ok mode s =
     (if \<not> ok then None
      else let g = ss_next s; (name, argv) = launch_argv env s;
               line = Command (so_tool (ss_opts s)) (mode = spawnResume)
        in Some (g, s\<lparr>ss_next := g + 1\<rparr>,
             [Launch g name argv] @ (if mode \<noteq> spawnAttach \<and> line \<noteq> '''' then [TypeTool g line] else [])))"

text \<open>What the outside decides when a session starts.\<close>

record start_env =
  se_now :: instant
  se_sid :: u32
  se_cwd_is_dir :: bool
  se_default_cwd :: string
  se_shell :: "(string \<times> string \<times> string list) option"
  se_shell_name :: string
  se_tmux :: bool
  se_tmux_server :: string
  se_has_session :: bool
  se_history :: "byte list"
  se_spawn_ok :: bool

definition default_opts :: "start_env \<Rightarrow> session_opts \<Rightarrow> session_opts" where
  "default_opts e o1 =
     (let o1 = (if so_sid o1 = 0 then o1\<lparr>so_sid := se_sid e\<rparr> else o1);
          o1 = (if so_ring_size o1 \<le> 0 then o1\<lparr>so_ring_size := DefaultRingSize\<rparr> else o1);
          o1 = (if so_cols o1 = 0 then o1\<lparr>so_cols := DefaultCols\<rparr> else o1);
          o1 = (if so_rows o1 = 0 then o1\<lparr>so_rows := DefaultRows\<rparr> else o1);
          o1 = (if ts_tool (so_tool o1) = '''' then o1\<lparr>so_tool := (so_tool o1)\<lparr>ts_tool := ToolShell\<rparr>\<rparr> else o1)
      in (if so_approval_mode o1 = ModeOther '''' then o1\<lparr>so_approval_mode := ApprovalNotify\<rparr> else o1))"

definition new_info :: "start_env \<Rightarrow> session_opts \<Rightarrow> session_info" where
  "new_info e o1 =
     \<lparr>si_sid = so_sid o1, si_device_id = '''', si_name = so_name o1, si_tool = ts_tool (so_tool o1),
      si_shell = se_shell_name e, si_cwd = so_cwd o1, si_preset = so_preset o1,
      si_permission_mode = ts_permission_mode (so_tool o1), si_approval_mode = so_approval_mode o1,
      si_state = StateRunning, si_kind = NeedOther '''', si_source = SourceNone, si_confidence = ConfidenceLow,
      si_started_at = se_now e, si_last_output_at = se_now e, si_cols = so_cols o1, si_rows = so_rows o1,
      si_seq = 0, si_cost_usd = None, si_context_pct = None, si_exit_code = None, si_resumable = None,
      si_pty_alive = True\<rparr>"

definition new_session :: "start_env \<Rightarrow> session_opts \<Rightarrow> string \<times> string \<times> string list \<Rightarrow> ring \<Rightarrow> session" where
  "new_session e o1 sh r =
     (case sh of (path, kind, args) \<Rightarrow>
      let persist = (so_persist o1 \<and> se_tmux e \<and> so_persist_conf o1 \<noteq> '''') in
      \<lparr>ss_opts = o1, ss_shell_path = path, ss_shell_kind = kind, ss_shell_args = args,
       ss_info = new_info e o1, ss_cur = None, ss_next = 0, ss_ring = r, ss_last_output = se_now e,
       ss_last_structured = 0, ss_attached = 0, ss_heur = heur_start, ss_tool_session_id = '''',
       ss_tool_exited = False, ss_killing = False, ss_closed = False, ss_suspended = False,
       ss_persist = persist, ss_persist_name = (if persist then PersistName (so_sid o1) else ''''),
       ss_fast_reattaches = 0, ss_pending = [], ss_pending_seq = 0, ss_flush_timer = False\<rparr>)"

definition start_spawn :: "start_env \<Rightarrow> spawn_mode \<Rightarrow> session \<Rightarrow> session_error + (session \<times> effect list)" where
  "start_spawn e mode s =
     (case spawn (se_tmux_server e) (se_spawn_ok e) mode s of
        None \<Rightarrow> Inl ErrStartShell
      | Some (g, s, fx) \<Rightarrow> Inr (s\<lparr>ss_cur := Some g\<rparr>, fx))"

text \<open>What follows once the shell is resolved and the ring allocated.\<close>

definition launch_session ::
  "start_env \<Rightarrow> session_opts \<Rightarrow> string \<times> string \<times> string list \<Rightarrow> ring \<Rightarrow> bool \<Rightarrow> session_error + (session \<times> effect list)" where
  "launch_session e o1 sh r adopt =
     (let s = new_session e o1 sh r in
      if adopt then
        if \<not> ss_persist s then Inl ErrAdoptNeedsTmux
        else if \<not> se_has_session e then Inl (ErrTmuxGone (ss_persist_name s))
        else start_spawn e spawnAttach
          (if se_history e \<noteq> [] then s\<lparr>ss_ring := fst (ring_Write (se_history e) (ss_ring s))\<rparr> else s)
      else start_spawn e spawnNew s)"

definition start :: "start_env \<Rightarrow> session_opts \<Rightarrow> bool \<Rightarrow> session_error + (session \<times> effect list)" where
  "start e o0 adopt =
     (let o1 = default_opts e o0 in
      if so_cwd o1 \<noteq> '''' \<and> \<not> se_cwd_is_dir e then Inl (ErrBadCwd (so_cwd o1))
      else
        let o1 = (if so_cwd o1 = '''' then o1\<lparr>so_cwd := se_default_cwd e\<rparr> else o1) in
        case (se_shell e, NewRing (so_ring_size o1)) of
          (Some (path, kind, args), Some r) \<Rightarrow>
            let o1 = o1\<lparr>so_tool := (so_tool o1)\<lparr>ts_shell_kind := kind\<rparr>\<rparr>
            in launch_session e o1 (path, kind, args) r adopt
        | _ \<Rightarrow> Inl ErrNoShell)"

definition Start :: "start_env \<Rightarrow> session_opts \<Rightarrow> session_error + (session \<times> effect list)" where
  "Start e o0 = start e o0 False"

definition Adopt :: "start_env \<Rightarrow> session_opts \<Rightarrow> session_error + (session \<times> effect list)" where
  "Adopt e o0 = (if \<not> so_persist o0 then Inl ErrAdoptNeedsPersist else start e o0 True)"

section \<open>Input and control\<close>

definition current :: "session \<Rightarrow> session_error + nat" where
  "current s = (case ss_cur s of
     None \<Rightarrow> Inl ErrExited
   | Some g \<Rightarrow> if \<not> si_pty_alive (ss_info s) \<or> ss_closed s then Inl ErrExited else Inr g)"

text \<open>The terminal accepts a write or a resize unless the argument \<open>ok\<close> says otherwise.\<close>

definition session_Write :: "bool \<Rightarrow> byte list \<Rightarrow> session \<Rightarrow> session_error option \<times> effect list" where
  "session_Write ok p s = (case current s of
     Inl e \<Rightarrow> (Some e, [])
   | Inr g \<Rightarrow> if ok then (None, [PtyWrite g p]) else (Some ErrPtyWrite, []))"

definition Resize :: "bool \<Rightarrow> u16 \<Rightarrow> u16 \<Rightarrow> session \<Rightarrow> session_error option \<times> session \<times> effect list" where
  "Resize ok cols rows s =
     (if cols = 0 \<or> rows = 0 then (Some ErrBadSize, s, [])
      else
        let s = upd_info (\<lambda>i. i\<lparr>si_cols := cols, si_rows := rows\<rparr>) s in
        case ss_cur s of
          None \<Rightarrow> (Some ErrExited, s, [])
        | Some g \<Rightarrow>
            if \<not> (si_pty_alive (ss_info s) \<and> \<not> ss_closed s) then (Some ErrExited, s, [])
            else if ok then (None, s, [PtyResize g cols rows]) else (Some ErrPtyResize, s, []))"

definition exitCommand :: "session \<Rightarrow> byte list" where
  "exitCommand s =
     bytes_of ((if Tool s = ToolClaude then ''/exit'' else if Tool s = ToolCodex then ''/quit''
                else if Tool s = ToolGrok then ''/exit'' else ''exit'') @ [CR])"

text \<open>
  \<^verbatim>\<open>KillResume\<close> in its three sections: the claim of the session and the Ctrl-C; the wait for the
  process, which sends the exit command when the process outlives the first wait and stops it
  when it outlives the second; and the respawn, after the process is reaped.
\<close>

definition killResume_claim :: "session \<Rightarrow> session_error + (session \<times> effect list)" where
  "killResume_claim s =
     (if ss_closed s then Inl ErrExited
      else if ss_killing s then Inl ErrKillInProgress
      else Inr (s\<lparr>ss_killing := True\<rparr>,
        (case ss_cur s of Some g \<Rightarrow> if si_pty_alive (ss_info s) then [PtyWrite g [3]] else [] | None \<Rightarrow> [])))"

definition killResume_stop :: "nat \<Rightarrow> bool \<Rightarrow> bool \<Rightarrow> session \<Rightarrow> effect list" where
  "killResume_stop g exited_early exited_in_grace s =
     (if exited_early then [] else [PtyWrite g (exitCommand s)])
     @ (if exited_early \<or> exited_in_grace then []
        else (if ss_persist s then [KillTmux (ss_persist_name s)] else []) @ [Terminate g])"

definition kill_resume_notice :: "string \<Rightarrow> byte list" where
  "kill_resume_notice tool =
     [0xd,0xa,0x1b,0x5b,0x32,0x6d,0x5b,0x74,0x65,0x72,0x6d,0x69,0x6e,0x61,0x6c,0x58,0x5d,0x20,
      0x6b,0x69,0x6c,0x6c,0x20,0x26,0x20,0x72,0x65,0x73,0x75,0x6d,0x65,0x3a,0x20]
     @ bytes_of tool
     @ [0x20,0xe5,0xb7,0xb2,0xe9,0x87,0x8d,0xe5,0x90,0xaf,0xef,0xbc,0x8c,0xe6,0xad,0xa3,0xe5,0x9c,0xa8,
        0xe7,0xbb,0xad,0xe8,0xb7,0x91,0xe4,0xb8,0x8a,0xe4,0xb8,0x80,0xe6,0xae,0xb5,0xe4,0xbc,0x9a,
        0xe8,0xaf,0x9d,0xe2,0x80,0xa6,0x1b,0x5b,0x30,0x6d,0xd,0xa]"

definition killResume_respawn ::
  "string \<Rightarrow> bool \<Rightarrow> instant \<Rightarrow> session \<Rightarrow> session_error option \<times> session \<times> effect list" where
  "killResume_respawn env ok now s =
     (let (s, fx1) = emit now (kill_resume_notice (ts_tool (so_tool (ss_opts s)))) s;
          (s, fx2) = flush s in
      case spawn env ok spawnResume s of
        None \<Rightarrow>
          (Some ErrRespawn,
           upd_info (\<lambda>i. i\<lparr>si_pty_alive := False, si_state := StateFailed\<rparr>) (s\<lparr>ss_killing := False, ss_cur := None\<rparr>),
           fx1 @ fx2)
      | Some (g, s, fx3) \<Rightarrow>
          (None,
           upd_info (\<lambda>i. i\<lparr>si_pty_alive := True, si_state := StateRunning, si_kind := NeedOther '''',
               si_source := SourceNone, si_confidence := ConfidenceLow, si_exit_code := None, si_resumable := None\<rparr>)
             (s\<lparr>ss_killing := False, ss_cur := Some g, ss_tool_exited := False\<rparr>),
           fx1 @ fx2 @ fx3))"

text \<open>The other signals are bytes written to the terminal.\<close>

datatype signal_action = SendBytes "byte list" | DoKillResume | BadSignal

definition Signal :: "signal \<Rightarrow> signal_action" where
  "Signal sig = (case sig of
     SigEsc \<Rightarrow> SendBytes [0x1b]
   | SigCtrlC \<Rightarrow> SendBytes [0x03]
   | SigEOF \<Rightarrow> SendBytes [0x04]
   | SigKillResume \<Rightarrow> DoKillResume
   | SigOther _ \<Rightarrow> BadSignal)"

definition Close :: "session \<Rightarrow> session \<times> effect list" where
  "Close s =
     (if ss_closed s then (s, [])
      else
        let p = ss_cur s; alive = si_pty_alive (ss_info s);
            s = upd_info (\<lambda>i. i\<lparr>si_pty_alive := False\<rparr>) (s\<lparr>ss_closed := True\<rparr>)
        in (s, (if ss_persist s then [KillTmux (ss_persist_name s)] else [])
              @ (case p of Some g \<Rightarrow> if alive then [Terminate g] else [] | None \<Rightarrow> [])))"

definition Suspend :: "session \<Rightarrow> session \<times> effect list" where
  "Suspend s =
     (if ss_closed s then (s, [])
      else if \<not> ss_persist s then Close s
      else
        let p = ss_cur s; alive = si_pty_alive (ss_info s);
            s = upd_info (\<lambda>i. i\<lparr>si_pty_alive := False\<rparr>) (s\<lparr>ss_closed := True, ss_suspended := True\<rparr>)
        in (s, (case p of Some g \<Rightarrow> if alive then [Terminate g] else [] | None \<Rightarrow> [])))"

definition Persisted :: "session \<Rightarrow> bool" where "Persisted s = ss_persist s"

definition session_Heuristic :: "instant \<Rightarrow> session \<Rightarrow> session \<times> verdict" where
  "session_Heuristic now s =
     (if \<not> si_pty_alive (ss_info s) \<or> ss_closed s \<or> ss_tool_exited s then (s, no_verdict)
      else
        let tail = fst (ring_Tail 4096 (ss_ring s));
            i = \<lparr>hi_tool = si_tool (ss_info s), hi_last_output = ss_last_output s,
                 hi_last_structured = ss_last_structured s, hi_last_line = LastLine (string_of tail)\<rparr>;
            (h, v) = Evaluate i (ss_heur s) now
        in (s\<lparr>ss_heur := h\<rparr>, v))"

section \<open>The end of a process\<close>

text \<open>
  \<^verbatim>\<open>waitLoop\<close> of generation \<open>g\<close>, once the process is reaped and its terminal closed, in the
  sections between which other operations may run: the last flush, the test whether the exit
  matters, the end of a session under a lost tmux client, and the record of the exit. The test
  gives \<open>superseded\<close> and whether tmux persists the session; the code keeps both in locals.
\<close>

definition wait_check :: "nat \<Rightarrow> session \<Rightarrow> bool" where
  "wait_check g s \<longleftrightarrow> ss_cur s \<noteq> Some g \<or> ss_killing s \<or> ss_closed s"

definition wait_code :: "bool \<Rightarrow> i32 option \<Rightarrow> i32" where
  "wait_code wait_failed status =
     (let code = (case status of None \<Rightarrow> -1 | Some c \<Rightarrow> c) in if wait_failed \<and> code = 0 then -1 else code)"

definition wait_record :: "bool \<Rightarrow> i32 \<Rightarrow> session \<Rightarrow> session \<times> effect list" where
  "wait_record superseded code s =
     (if superseded then (s, [])
      else
        let s = upd_info (\<lambda>i. i\<lparr>si_state := StateExited, si_pty_alive := False, si_exit_code := Some code,
                 si_kind := NeedOther ''''\<rparr>) s;
            r = resumableLocked s;
            s = upd_info (\<lambda>i. i\<lparr>si_resumable := Some r\<rparr>) s
        in (s, if so_on_exit (ss_opts s) then [Exited code (Some r)] else []))"

text \<open>
  \<^verbatim>\<open>reattach\<close>: the count of clients that died at once, the new client, and the end when there are
  too many or none starts. The new client is started outside the mutex.
\<close>

definition reattach_count :: "bool \<Rightarrow> session \<Rightarrow> session \<times> bool" where
  "reattach_count died_at_once s =
     (let s = (if died_at_once then s\<lparr>ss_fast_reattaches := ss_fast_reattaches s + 1\<rparr>
               else s\<lparr>ss_fast_reattaches := 0\<rparr>)
      in (s, ss_fast_reattaches s > 3))"

definition reattach_done :: "nat \<Rightarrow> session \<Rightarrow> session" where
  "reattach_done g s = upd_info (\<lambda>i. i\<lparr>si_pty_alive := True, si_state := StateRunning\<rparr>) (s\<lparr>ss_cur := Some g\<rparr>)"

definition reattach_failed :: "session \<Rightarrow> session \<times> effect list" where
  "reattach_failed s =
     (let s = upd_info (\<lambda>i. i\<lparr>si_state := StateFailed, si_pty_alive := False, si_exit_code := None,
               si_kind := NeedOther ''''\<rparr>) s;
          r = resumableLocked s;
          s = upd_info (\<lambda>i. i\<lparr>si_resumable := Some r\<rparr>) s
      in (s, if so_on_exit (ss_opts s) then [Exited (-1) (Some r)] else []))"

definition reattach :: "string \<Rightarrow> bool \<Rightarrow> bool \<Rightarrow> session \<Rightarrow> session \<times> effect list" where
  "reattach env ok died_at_once s =
     (let (s, giveUp) = reattach_count died_at_once s in
      if giveUp then reattach_failed s
      else case spawn env ok spawnAttach s of
        None \<Rightarrow> reattach_failed s
      | Some (g, s, fx) \<Rightarrow> (reattach_done g s, fx))"

text \<open>The whole of \<^verbatim>\<open>waitLoop\<close> when nothing runs in between.\<close>

definition waitLoop ::
  "string \<Rightarrow> nat \<Rightarrow> bool \<Rightarrow> i32 option \<Rightarrow> i32 option \<Rightarrow> bool \<Rightarrow> bool \<Rightarrow> bool \<Rightarrow> session \<Rightarrow> session \<times> effect list" where
  "waitLoop env g wait_failed status exit_file tmux_alive spawn_ok died_at_once s =
     (let (s, fx) = flush s;
          superseded = wait_check g s in
      if \<not> superseded \<and> ss_persist s \<and> tmux_alive then
        let (s, fx') = reattach env spawn_ok died_at_once s in (s, fx @ fx')
      else
        let code = wait_code wait_failed status;
            code = (if ss_persist s then (case exit_file of Some c \<Rightarrow> c | None \<Rightarrow> code) else code);
            (s, fx') = wait_record superseded code s
        in (s, fx @ fx'))"

section \<open>All operations\<close>

datatype op =
    OpEmit instant "byte list" | OpFlush | OpReplay u64
  | OpSetState session_state need_kind signal_source confidence instant
  | OpSetMetrics "float64 option" "float64 option" instant | OpSetMode approval_mode
  | OpSetTool string | OpToolExited | OpAttach | OpDetach | OpInfo
  | OpWrite bool "byte list" | OpResize bool u16 u16
  | OpKillClaim | OpKillStop nat bool bool | OpKillRespawn string bool instant
  | OpClose | OpSuspend | OpHeuristic instant
  | OpWaitRecord bool i32 | OpReattach string bool bool

fun perform :: "op \<Rightarrow> session \<Rightarrow> session \<times> effect list" where
  "perform (OpEmit now data) s = emit now data s"
| "perform OpFlush s = flush s"
| "perform (OpReplay lastSeq) s = Replay lastSeq s"
| "perform (OpSetState st k src conf now) s = (fst (SetState st k src conf now s), [])"
| "perform (OpSetMetrics cost ctx now) s = (fst (SetMetrics cost ctx now s), [])"
| "perform (OpSetMode m) s = (fst (SetApprovalMode m s), [])"
| "perform (OpSetTool i) s = (SetToolSession i s, [])"
| "perform OpToolExited s = (ToolExited s, [])"
| "perform OpAttach s = (Attach s, [])"
| "perform OpDetach s = (Detach s, [])"
| "perform OpInfo s = (fst (Info s), [])"
| "perform (OpWrite ok p) s = (s, snd (session_Write ok p s))"
| "perform (OpResize ok c r) s = snd (Resize ok c r s)"
| "perform OpKillClaim s = (case killResume_claim s of Inl _ \<Rightarrow> (s, []) | Inr x \<Rightarrow> x)"
| "perform (OpKillStop g a b) s = (s, killResume_stop g a b s)"
| "perform (OpKillRespawn env ok now) s = snd (killResume_respawn env ok now s)"
| "perform OpClose s = Close s"
| "perform OpSuspend s = Suspend s"
| "perform (OpHeuristic now) s = (fst (session_Heuristic now s), [])"
| "perform (OpWaitRecord superseded code) s = wait_record superseded code s"
| "perform (OpReattach env ok d) s = reattach env ok d s"

fun perform_all :: "op list \<Rightarrow> session \<Rightarrow> session \<times> effect list" where
  "perform_all [] s = (s, [])"
| "perform_all (x # xs) s = (let (s1, fx1) = perform x s; (s2, fx2) = perform_all xs s1 in (s2, fx1 @ fx2))"

lemma perform_all_append:
  "perform_all (xs @ ys) s =
     (let (s1, fx1) = perform_all xs s; (s2, fx2) = perform_all ys s1 in (s2, fx1 @ fx2))"
  by (induction xs arbitrary: s) (auto split: prod.splits)

section \<open>The output stream\<close>

text \<open>What an operation adds to the stream of the terminal.\<close>

fun emitted :: "op \<Rightarrow> session \<Rightarrow> byte list" where
  "emitted (OpEmit now data) s = data"
| "emitted (OpKillRespawn env ok now) s = kill_resume_notice (ts_tool (so_tool (ss_opts s)))"
| "emitted _ s = []"

fun emitted_all :: "op list \<Rightarrow> session \<Rightarrow> byte list" where
  "emitted_all [] s = []"
| "emitted_all (x # xs) s = emitted x s @ emitted_all xs (fst (perform x s))"

text \<open>The output callbacks among the effects: their bytes, and whether each begins where the last ended.\<close>

fun out_bytes :: "effect list \<Rightarrow> byte list" where
  "out_bytes [] = []"
| "out_bytes (Output q d # fx) = d @ out_bytes fx"
| "out_bytes (_ # fx) = out_bytes fx"

fun out_ok :: "u64 \<Rightarrow> effect list \<Rightarrow> bool" where
  "out_ok q [] \<longleftrightarrow> True"
| "out_ok q (Output q' d # fx) \<longleftrightarrow> q' = q \<and> d \<noteq> [] \<and> out_ok (q + word_of_nat (length d)) fx"
| "out_ok q (_ # fx) \<longleftrightarrow> out_ok q fx"

lemma out_bytes_append [simp]: "out_bytes (xs @ ys) = out_bytes xs @ out_bytes ys"
  by (induction xs rule: out_bytes.induct) simp_all

lemma out_ok_append: "out_ok q (xs @ ys) \<longleftrightarrow> out_ok q xs \<and> out_ok (q + word_of_nat (length (out_bytes xs))) ys"
  by (induction q xs rule: out_ok.induct) (simp_all add: ac_simps)

text \<open>
  The invariant: the ring holds the stream \<open>xs\<close>, whose end is the pending batch, and the batch
  knows where it begins. What comes before it has been handed over.
\<close>

definition stream_inv :: "session \<Rightarrow> byte list \<Rightarrow> bool" where
  "stream_inv s xs \<longleftrightarrow> ring_holds (ss_ring s) xs \<and> so_on_output (ss_opts s)
     \<and> (\<exists>ys. xs = ys @ ss_pending s \<and> (ss_pending s \<noteq> [] \<longrightarrow> ss_pending_seq s = word_of_nat (length ys)))"

definition handed :: "session \<Rightarrow> byte list \<Rightarrow> byte list" where
  "handed s xs = take (length xs - length (ss_pending s)) xs"

definition same_stream :: "session \<Rightarrow> session \<Rightarrow> bool" where
  "same_stream s s' \<longleftrightarrow> ss_ring s' = ss_ring s \<and> ss_pending s' = ss_pending s
     \<and> ss_pending_seq s' = ss_pending_seq s \<and> so_on_output (ss_opts s') = so_on_output (ss_opts s)"

lemma same_stream_refl [simp]: "same_stream s s"
  by (simp add: same_stream_def)

lemma same_stream_inv: "same_stream s s' \<Longrightarrow> stream_inv s' xs = stream_inv s xs"
  by (simp add: same_stream_def stream_inv_def)

lemma same_stream_handed: "same_stream s s' \<Longrightarrow> handed s' xs = handed s xs"
  by (simp add: same_stream_def handed_def)

text \<open>One step of the stream: from \<open>xs\<close> to \<open>xs @ e\<close>, with effects that hand over what is due.\<close>

definition stream_step :: "session \<Rightarrow> byte list \<Rightarrow> session \<Rightarrow> byte list \<Rightarrow> effect list \<Rightarrow> bool" where
  "stream_step s xs s' xs' fx \<longleftrightarrow> stream_inv s' xs' \<and> handed s' xs' = handed s xs @ out_bytes fx
     \<and> out_ok (word_of_nat (length (handed s xs))) fx \<and> ring_Cap (ss_ring s') = ring_Cap (ss_ring s)"

lemma stream_step_trans:
  "stream_step s xs s1 xs1 fx1 \<Longrightarrow> stream_step s1 xs1 s2 xs2 fx2 \<Longrightarrow> stream_step s xs s2 xs2 (fx1 @ fx2)"
  by (auto simp: stream_step_def out_ok_append)

lemma stream_step_same:
  "stream_inv s xs \<Longrightarrow> same_stream s s' \<Longrightarrow> out_bytes fx = [] \<Longrightarrow> out_ok (word_of_nat (length (handed s xs))) fx
   \<Longrightarrow> stream_step s xs s' xs fx"
  by (simp add: stream_step_def same_stream_inv same_stream_handed) (simp add: same_stream_def)

lemma flush_stream: "stream_inv s xs \<Longrightarrow> stream_step s xs (fst (flush s)) xs (snd (flush s))"
  by (auto simp: flush_def flushLocked_def Let_def stream_step_def stream_inv_def handed_def)

lemma flush_handed: "stream_inv s xs \<Longrightarrow> handed (fst (flush s)) xs = xs"
  by (auto simp: flush_def flushLocked_def Let_def handed_def)

lemma emit_locked_stream:
  assumes "stream_inv s xs"
  shows "stream_step s xs (fst (emit_locked now data s)) (xs @ data) []"
proof -
  let ?s' = "fst (emit_locked now data s)"
  have ring: "ring_holds (ss_ring s) xs" and out: "so_on_output (ss_opts s)"
    using assms by (auto simp: stream_inv_def)
  obtain ys where ys: "xs = ys @ ss_pending s" "ss_pending s \<noteq> [] \<Longrightarrow> ss_pending_seq s = word_of_nat (length ys)"
    using assms by (auto simp: stream_inv_def)
  have s': "ss_ring ?s' = ring_write data (ss_ring s)" "ss_pending ?s' = ss_pending s @ data"
    "ss_opts ?s' = ss_opts s" "ss_pending_seq ?s' = (if ss_pending s = [] then rg_seq (ss_ring s) else ss_pending_seq s)"
    by (simp_all add: emit_locked_def Let_def case_prod_beta ring_write_def)
  have seq: "rg_seq (ss_ring s) = word_of_nat (length xs)"
    using ring by (simp add: ring_holds_def)
  have "stream_inv ?s' (xs @ data)"
    unfolding stream_inv_def s'
    using scroll.holds_write [OF ring, of data] out ys seq by auto
  moreover have "handed ?s' (xs @ data) = handed s xs"
    by (simp add: handed_def s' ys(1))
  moreover have "ring_Cap (ss_ring ?s') = ring_Cap (ss_ring s)"
    using scroll.cap_write [OF ring] by (simp add: s')
  ultimately show ?thesis
    by (simp add: stream_step_def)
qed

lemma emit_stream:
  assumes "stream_inv s xs"
  shows "stream_step s xs (fst (emit now data s)) (xs @ data) (snd (emit now data s))"
proof (cases "snd (emit_locked now data s)")
  case True
  have "emit now data s = flush (fst (emit_locked now data s))"
    using True by (simp add: emit_def case_prod_beta)
  then show ?thesis
    using stream_step_trans [OF emit_locked_stream [OF assms] flush_stream]
      emit_locked_stream [OF assms] by (simp add: stream_step_def)
next
  case False
  then have "emit now data s = (fst (emit_locked now data s), [])"
    by (simp add: emit_def case_prod_beta)
  then show ?thesis
    using emit_locked_stream [OF assms] by simp
qed

text \<open>Effects without a callback, and the operations that leave the stream alone.\<close>

fun quiet :: "effect list \<Rightarrow> bool" where
  "quiet [] \<longleftrightarrow> True"
| "quiet (Output q d # fx) \<longleftrightarrow> False"
| "quiet (_ # fx) \<longleftrightarrow> quiet fx"

lemma quiet_append [simp]: "quiet (xs @ ys) \<longleftrightarrow> quiet xs \<and> quiet ys"
  by (induction xs rule: quiet.induct) simp_all

lemma quiet_out: "quiet fx \<Longrightarrow> out_bytes fx = [] \<and> out_ok q fx"
  by (induction fx rule: quiet.induct) simp_all

lemma stream_step_quiet:
  "stream_inv s xs \<Longrightarrow> same_stream s s' \<Longrightarrow> quiet fx \<Longrightarrow> stream_step s xs s' xs fx"
  by (simp add: stream_step_same quiet_out)

lemma same_stream_upd_info [simp]: "same_stream s (upd_info f s') = same_stream s s'"
  by (simp add: same_stream_def)

lemma spawn_stream: "spawn env ok mode s = Some (g, s', fx) \<Longrightarrow> same_stream s s' \<and> quiet fx"
  by (auto simp: spawn_def same_stream_def Let_def split: prod.splits if_splits)

lemma reattach_stream: "same_stream s (fst (reattach env ok d s)) \<and> quiet (snd (reattach env ok d s))"
proof -
  have failed: "same_stream s0 (fst (reattach_failed s0)) \<and> quiet (snd (reattach_failed s0))" for s0
    by (simp add: reattach_failed_def Let_def)
  obtain s1 giveUp where c: "reattach_count d s = (s1, giveUp)" by fastforce
  then have same: "same_stream s s1"
    by (auto simp: reattach_count_def same_stream_def Let_def split: if_splits)
  then show ?thesis
    using failed [of s1] spawn_stream [of env ok spawnAttach s1]
    by (auto simp: reattach_def c reattach_done_def same_stream_def split: option.splits)
qed

definition stream_op :: "op \<Rightarrow> bool" where
  "stream_op x \<longleftrightarrow> (case x of OpEmit _ _ \<Rightarrow> True | OpFlush \<Rightarrow> True | OpReplay _ \<Rightarrow> True
     | OpKillRespawn _ _ _ \<Rightarrow> True | _ \<Rightarrow> False)"

lemmas setter_defs = SetState_def SetMetrics_def SetApprovalMode_def SetToolSession_def ToolExited_def
  Attach_def Detach_def Info_def session_Heuristic_def

lemmas control_defs = session_Write_def Resize_def killResume_claim_def killResume_stop_def Close_def
  Suspend_def wait_record_def

lemma same_stream_simps [simp]:
  "same_stream s (s\<lparr>ss_last_structured := a\<rparr>)" "same_stream s (s\<lparr>ss_tool_session_id := i, ss_tool_exited := b\<rparr>)"
  "same_stream s (s\<lparr>ss_tool_exited := b\<rparr>)" "same_stream s (s\<lparr>ss_attached := n\<rparr>)" "same_stream s (s\<lparr>ss_heur := h\<rparr>)"
  "same_stream s (s\<lparr>ss_killing := b\<rparr>)" "same_stream s (s\<lparr>ss_closed := b\<rparr>)"
  "same_stream s (s\<lparr>ss_closed := b, ss_suspended := b'\<rparr>)"
  "same_stream s ((upd_info f s)\<lparr>ss_last_structured := a\<rparr>)"
  "same_stream s ((upd_info f (upd_info g s))\<lparr>ss_last_structured := a\<rparr>)"
  by (simp_all add: same_stream_def)

lemma other_ops_stream:
  "\<not> stream_op x \<Longrightarrow> same_stream s (fst (perform x s)) \<and> quiet (snd (perform x s))"
proof (cases x)
  case (OpReattach env ok d)
  then show ?thesis using reattach_stream by simp
qed (simp_all add: stream_op_def setter_defs Let_def case_prod_beta,
     simp_all add: control_defs Let_def split: sum.split option.split)

lemma other_ops_emitted: "\<not> stream_op x \<Longrightarrow> emitted x s = []"
  by (cases x) (simp_all add: stream_op_def)

lemma replay_stream: "stream_inv s xs \<Longrightarrow> stream_step s xs (fst (Replay q s)) xs (snd (Replay q s))"
  using flush_stream [of s xs]
  by (auto simp: Replay_def flush_def stream_step_def out_ok_append case_prod_beta split: option.splits)

lemma killResume_respawn_stream:
  assumes "stream_inv s xs"
  shows "stream_step s xs (fst (perform (OpKillRespawn env ok now) s)) (xs @ emitted (OpKillRespawn env ok now) s)
     (snd (perform (OpKillRespawn env ok now) s))"
proof -
  let ?n = "kill_resume_notice (ts_tool (so_tool (ss_opts s)))"
  obtain s1 fx1 where 1: "emit now ?n s = (s1, fx1)" by fastforce
  obtain s2 fx2 where 2: "flush s1 = (s2, fx2)" by fastforce
  have step1: "stream_step s xs s1 (xs @ ?n) fx1"
    using emit_stream [OF assms, of now ?n] by (simp add: 1)
  then have "stream_step s1 (xs @ ?n) s2 (xs @ ?n) fx2"
    using flush_stream [of s1 "xs @ ?n"] by (simp add: 2 stream_step_def)
  from stream_step_trans [OF step1 this] have step2: "stream_step s xs s2 (xs @ ?n) (fx1 @ fx2)" .
  then have inv: "stream_inv s2 (xs @ ?n)"
    by (simp add: stream_step_def)
  obtain err s3 fx3 where 3: "killResume_respawn env ok now s = (err, s3, fx1 @ fx2 @ fx3)"
    and same: "same_stream s2 s3" "quiet fx3"
    using spawn_stream [of env ok spawnResume s2]
    by (cases "spawn env ok spawnResume s2")
       (auto simp: killResume_respawn_def 1 2 same_stream_def)
  from stream_step_trans [OF step2 stream_step_quiet [OF inv same]] show ?thesis
    by (simp add: 3)
qed

lemma perform_stream:
  assumes "stream_inv s xs"
  shows "stream_step s xs (fst (perform x s)) (xs @ emitted x s) (snd (perform x s))"
proof (cases "stream_op x")
  case True
  then show ?thesis
    using assms killResume_respawn_stream [OF assms]
    by (cases x) (simp_all add: stream_op_def emit_stream flush_stream replay_stream)
next
  case False
  then show ?thesis
    using other_ops_stream [OF False] other_ops_emitted [OF False]
    by (simp add: assms stream_step_quiet)
qed

lemma perform_all_stream:
  "stream_inv s xs \<Longrightarrow> stream_step s xs (fst (perform_all ops s)) (xs @ emitted_all ops s) (snd (perform_all ops s))"
proof (induction ops arbitrary: s xs)
  case Nil
  then show ?case by (simp add: stream_step_def)
next
  case (Cons x ops)
  note step = perform_stream [OF Cons.prems, of x]
  then have "stream_inv (fst (perform x s)) (xs @ emitted x s)"
    by (simp add: stream_step_def)
  from stream_step_trans [OF step Cons.IH [OF this]] show ?case
    by (simp add: case_prod_beta)
qed

section \<open>Properties\<close>

definition start_history :: "start_env \<Rightarrow> bool \<Rightarrow> byte list" where
  "start_history e adopt = (if adopt then se_history e else [])"

lemma start_stream:
  assumes "start e o0 adopt = Inr (s, fx)" and "so_on_output o0"
  shows "stream_inv s (start_history e adopt)" and "ss_pending s = []"
proof -
  have spawned: "start_spawn e mode s1 = Inr (s, fx) \<Longrightarrow> same_stream s1 s" for mode s1
    using spawn_stream [of "se_tmux_server e" "se_spawn_ok e" mode s1]
    by (auto simp: start_spawn_def same_stream_def split: option.splits)
  have out: "so_on_output (default_opts e o0)"
    using assms(2) by (simp add: default_opts_def Let_def)
  obtain o1 sh r where r: "NewRing (so_ring_size (default_opts e o0)) = Some r"
    and o1: "so_on_output o1" and launch: "launch_session e o1 sh r adopt = Inr (s, fx)"
  proof -
    let ?d = "default_opts e o0"
    from assms(1) obtain path kind args r where sh: "se_shell e = Some (path, kind, args)"
      and r: "NewRing (so_ring_size ?d) = Some r"
      by (auto simp: start_def Let_def split: if_splits option.splits)
    let ?o = "if so_cwd ?d = '''' then ?d\<lparr>so_cwd := se_default_cwd e\<rparr> else ?d"
    have "launch_session e (?o\<lparr>so_tool := (so_tool ?o)\<lparr>ts_shell_kind := kind\<rparr>\<rparr>) (path, kind, args) r adopt = Inr (s, fx)"
      using assms(1) sh r by (simp add: start_def Let_def split: if_split_asm)
    then show thesis
      by (rule that [OF r, rotated]) (simp add: out)
  qed
  obtain s1 mode where start: "start_spawn e mode s1 = Inr (s, fx)"
    and s1: "s1 = (let n = new_session e o1 sh r in if adopt \<and> se_history e \<noteq> []
       then n\<lparr>ss_ring := fst (ring_Write (se_history e) (ss_ring n))\<rparr> else n)"
  proof -
    from launch that show thesis
      by (simp add: launch_session_def Let_def split: if_split_asm)
  qed
  have new: "ss_ring (new_session e o1 sh r) = r" "ss_pending (new_session e o1 sh r) = []"
    "ss_opts (new_session e o1 sh r) = o1"
    by (simp_all add: new_session_def Let_def case_prod_beta)
  have "ring_holds r []"
    using NewRing_holds [OF r] by simp
  then have "ring_holds (ss_ring s1) (start_history e adopt)"
    using scroll.holds_write [of r "[]" "se_history e"]
    by (simp add: s1 Let_def new start_history_def ring_write_def)
  moreover have "ss_pending s1 = []" "so_on_output (ss_opts s1)"
    using o1 by (simp_all add: s1 Let_def new)
  ultimately show "stream_inv s (start_history e adopt)" and "ss_pending s = []"
    using spawned [OF start] by (simp_all add: stream_inv_def same_stream_def)
qed

text \<open>C2: No output is lost, repeated or reordered on its way from the terminal to the callback:
  whatever operations run on a started or adopted session, the callbacks form one gapless
  sequence whose sequence numbers start after the adopted history, and the history, the bytes
  handed over and the pending batch together are exactly what the terminal produced, of which
  the ring holds the last bytes.\<close>

theorem output_complete:
  assumes "start e o0 adopt = Inr (s0, fx0)" and "so_on_output o0" and "perform_all ops s0 = (s, fx)"
  shows "out_ok (word_of_nat (length (start_history e adopt))) fx
    \<and> start_history e adopt @ out_bytes fx @ ss_pending s = start_history e adopt @ emitted_all ops s0
    \<and> ring_contents (ss_ring s) = last_bytes (ring_Cap (ss_ring s)) (start_history e adopt @ emitted_all ops s0)
    \<and> ring_Seq (ss_ring s) = word_of_nat (length (start_history e adopt @ emitted_all ops s0))"
proof -
  let ?h = "start_history e adopt" and ?e = "emitted_all ops s0"
  note 0 = start_stream [OF assms(1,2)]
  have step: "stream_step s0 ?h s (?h @ ?e) fx"
    using perform_all_stream [OF 0(1), of ops] by (simp add: assms(3))
  then have inv: "stream_inv s (?h @ ?e)" and out: "out_ok (word_of_nat (length ?h)) fx"
    and handed: "handed s (?h @ ?e) = ?h @ out_bytes fx"
    using 0(2) by (simp_all add: stream_step_def handed_def)
  obtain ys where ys: "?h @ ?e = ys @ ss_pending s" and ring: "ring_holds (ss_ring s) (?h @ ?e)"
    using inv by (auto simp: stream_inv_def)
  from handed have "ys = ?h @ out_bytes fx"
    by (simp add: handed_def ys)
  with ys have "?h @ out_bytes fx @ ss_pending s = ?h @ ?e"
    by simp
  moreover have "ring_contents (ss_ring s) = last_bytes (ring_Cap (ss_ring s)) (?h @ ?e)"
    "ring_Seq (ss_ring s) = word_of_nat (length (?h @ ?e))"
    using ring by (simp_all add: ring_holds_def ring_Cap_def ring_Seq_def)
  ultimately show ?thesis
    using out by blast
qed

definition demo_env :: start_env where
  "demo_env = \<lparr>se_now = 0, se_sid = 7, se_cwd_is_dir = True, se_default_cwd = ''/h'',
     se_shell = Some (''/bin/sh'', ''sh'', []), se_shell_name = ''sh'', se_tmux = False,
     se_tmux_server = '''', se_has_session = False, se_history = [], se_spawn_ok = True\<rparr>"

definition demo_opts :: session_opts where
  "demo_opts = \<lparr>so_sid = 0, so_shell = '''', so_cwd = '''',
     so_tool = \<lparr>ts_tool = '''', ts_name = '''', ts_permission_mode = '''', ts_resume = '''', ts_extra = [],
       ts_settings_path = '''', ts_codex_notify = [], ts_shell_kind = ''''\<rparr>,
     so_name = '''', so_preset = '''', so_approval_mode = ModeOther '''', so_env = [], so_cols = 0, so_rows = 0,
     so_persist = False, so_persist_conf = '''', so_persist_state_dir = '''', so_ring_size = 4,
     so_on_output = True, so_on_exit = True\<rparr>"

lemmas demo_defs = demo_env_def demo_opts_def launch_session_def start_def default_opts_def start_spawn_def spawn_def launch_argv_def
  new_session_def Command_def command_parts_def NewRing_def

lemma demo_start:
  obtains s fx where "start demo_env demo_opts False = Inr (s, fx)" and "so_on_output demo_opts"
    and "ring_Cap (ss_ring s) = 4"
  by (simp add: demo_defs Let_def ring_Cap_def)

theorem output_complete_witness:
  "\<exists>s0 fx0 s fx. start demo_env demo_opts False = Inr (s0, fx0)
     \<and> perform_all [OpEmit 1 [1, 2, 3], OpFlush, OpToolExited, OpEmit 2 [4, 5], OpFlush] s0 = (s, fx)
     \<and> out_ok 0 fx \<and> out_bytes fx @ ss_pending s = [1, 2, 3, 4, 5]"
proof -
  obtain s0 fx0 where 0: "start demo_env demo_opts False = Inr (s0, fx0)" "so_on_output demo_opts"
    by (rule demo_start)
  obtain s fx where run: "perform_all [OpEmit 1 [1, 2, 3], OpFlush, OpToolExited, OpEmit 2 [4, 5], OpFlush] s0 = (s, fx)"
    by fastforce
  from output_complete [OF 0 run] 0 run show ?thesis
    by (simp add: start_history_def del: perform_all.simps)
qed

text \<open>What a replay sends to a client that has the stream up to \<open>q\<close>.\<close>

definition replay_delta :: "u64 \<Rightarrow> session \<Rightarrow> byte list \<Rightarrow> bool" where
  "replay_delta q s xs \<longleftrightarrow> unat q \<le> length xs \<and> length xs - unat q \<le> ring_Cap (ss_ring s)"

definition replay_data :: "u64 \<Rightarrow> session \<Rightarrow> byte list \<Rightarrow> byte list" where
  "replay_data q s xs =
     (if replay_delta q s xs then drop (unat q) xs else last_bytes (min (nat SnapshotTail) (ring_Cap (ss_ring s))) xs)"

lemma Replay_spec:
  assumes "stream_inv s xs" and "length xs < stream_bound"
  shows "Replay q s = (fst (flush s), snd (flush s) @ [Replayed (replay_data q s xs) (word_of_nat (length xs)) (replay_delta q s xs)])"
proof -
  have ring: "ring_holds (ss_ring (fst (flush s))) xs" and cap: "ss_ring (fst (flush s)) = ss_ring s"
    using flush_stream [OF assms(1)] by (simp_all add: stream_step_def stream_inv_def flush_def flushLocked_def Let_def)
  have D: "ring_Delta q (ss_ring s) = (if replay_delta q s xs then Some (drop (unat q) xs) else None)"
    using scroll.delta_holds [OF ring assms(2)] by (simp add: replay_delta_def cap)
  have T: "ring_Tail SnapshotTail (ss_ring s) = (last_bytes (min (nat SnapshotTail) (ring_Cap (ss_ring s))) xs, word_of_nat (length xs))"
    using scroll.tail_holds [OF ring] by (simp add: cap)
  have "q + word_of_nat (length xs - unat q) = word_of_nat (length xs)" if "replay_delta q s xs"
    using that by (simp add: replay_delta_def of_nat_diff)
  then show ?thesis
    using D T cap by (simp add: Replay_def case_prod_beta replay_data_def flush_def)
qed



section \<open>The life of a session without tmux\<close>

text \<open>
  The sections of the operations that start and end processes interleave with each other and
  with all other operations. The state is the session, the generations whose process runs, those
  between the test and the record of their exit with the outcome of the test, those whose exit
  was reported, and the generation a kill-and-resume waits for.
\<close>

record life =
  lf_s :: session
  lf_live :: "nat list"
  lf_checked :: "(nat \<times> bool) list"
  lf_reports :: "nat list"
  lf_wait :: "nat option"

definition life_op :: "op \<Rightarrow> bool" where
  "life_op x \<longleftrightarrow> (case x of OpKillClaim \<Rightarrow> True | OpKillRespawn _ _ _ \<Rightarrow> True | OpClose \<Rightarrow> True
     | OpSuspend \<Rightarrow> True | OpWaitRecord _ _ \<Rightarrow> True | OpReattach _ _ _ \<Rightarrow> True | _ \<Rightarrow> False)"

inductive life_step :: "life \<Rightarrow> life \<Rightarrow> bool" where
  other: "\<not> life_op x \<Longrightarrow> life_step l (l\<lparr>lf_s := fst (perform x (lf_s l))\<rparr>)"
| exit: "g \<in> set (lf_live l) \<Longrightarrow> s = fst (flush (lf_s l)) \<Longrightarrow>
    life_step l (l\<lparr>lf_s := s, lf_live := removeAll g (lf_live l), lf_checked := (g, wait_check g s) # lf_checked l\<rparr>)"
| record_exit: "(g, superseded) \<in> set (lf_checked l) \<Longrightarrow>
    life_step l (l\<lparr>lf_s := fst (wait_record superseded code (lf_s l)),
      lf_checked := filter (\<lambda>c. fst c \<noteq> g) (lf_checked l),
      lf_reports := (if superseded then lf_reports l else g # lf_reports l)\<rparr>)"
| claim: "killResume_claim (lf_s l) = Inr (s, fx) \<Longrightarrow>
    life_step l (l\<lparr>lf_s := s, lf_wait := (if si_pty_alive (ss_info (lf_s l)) then ss_cur (lf_s l) else None)\<rparr>)"
| respawn: "ss_killing (lf_s l) \<Longrightarrow>
    \<forall>g. lf_wait l = Some g \<longrightarrow> g \<notin> set (lf_live l) \<and> g \<notin> fst ` set (lf_checked l) \<Longrightarrow>
    killResume_respawn env ok now (lf_s l) = (err, s, fx) \<Longrightarrow>
    life_step l (l\<lparr>lf_s := s, lf_wait := None,
      lf_live := (if err = None then ss_next (lf_s l) # lf_live l else lf_live l)\<rparr>)"
| close: "life_step l (l\<lparr>lf_s := fst (Close (lf_s l))\<rparr>)"
| suspend: "life_step l (l\<lparr>lf_s := fst (Suspend (lf_s l))\<rparr>)"

definition life_start :: "session \<Rightarrow> life" where
  "life_start s = \<lparr>lf_s = s, lf_live = [0], lf_checked = [], lf_reports = [], lf_wait = None\<rparr>"

inductive life_reachable :: "session \<Rightarrow> life \<Rightarrow> bool" for s0 where
  init: "life_reachable s0 (life_start s0)"
| step: "life_reachable s0 l \<Longrightarrow> life_step l l' \<Longrightarrow> life_reachable s0 l'"

inductive_cases life_stepE: "life_step l l'"

text \<open>The part of a session the life depends on.\<close>

definition same_life :: "session \<Rightarrow> session \<Rightarrow> bool" where
  "same_life s s' \<longleftrightarrow> ss_cur s' = ss_cur s \<and> ss_next s' = ss_next s \<and> ss_killing s' = ss_killing s
     \<and> ss_closed s' = ss_closed s \<and> si_pty_alive (ss_info s') = si_pty_alive (ss_info s)"

text \<open>
  The invariant over the current generation, the next one, the killing, closed and alive flags,
  and the four lists of the life.
\<close>

definition life_ok ::
  "nat option \<Rightarrow> nat \<Rightarrow> bool \<Rightarrow> bool \<Rightarrow> bool \<Rightarrow> nat list \<Rightarrow> (nat \<times> bool) list \<Rightarrow> nat list \<Rightarrow> nat option \<Rightarrow> bool" where
  "life_ok cur nxt killing closed alive live checked reports wait \<longleftrightarrow>
     distinct (live @ map fst checked @ reports)
     \<and> (\<forall>g \<in> set live \<union> fst ` set checked \<union> set reports. g < nxt)
     \<and> (\<forall>g. (g, False) \<in> set checked \<longrightarrow>
          cur = Some g \<and> (\<not> closed \<longrightarrow> alive) \<and> (killing \<longrightarrow> wait = Some g))
     \<and> (\<forall>g. cur = Some g \<longrightarrow> \<not> closed \<longrightarrow> g \<in> set live \<longrightarrow> alive)
     \<and> (\<forall>g. cur = Some g \<longrightarrow> \<not> closed \<longrightarrow> (g, True) \<in> set checked \<longrightarrow> killing)
     \<and> (\<not> closed \<longrightarrow> killing \<longrightarrow> alive \<longrightarrow> wait = cur)
     \<and> (\<not> closed \<longrightarrow> alive \<longrightarrow>
          (\<exists>g. cur = Some g \<and> (killing \<or> g \<in> set live \<or> (g, False) \<in> set checked)))"

definition life_inv :: "life \<Rightarrow> bool" where
  "life_inv l \<longleftrightarrow> life_ok (ss_cur (lf_s l)) (ss_next (lf_s l)) (ss_killing (lf_s l)) (ss_closed (lf_s l))
     (si_pty_alive (ss_info (lf_s l))) (lf_live l) (lf_checked l) (lf_reports l) (lf_wait l)"

lemma life_inv_same:
  "life_inv l \<Longrightarrow> same_life (lf_s l) s \<Longrightarrow> life_inv (l\<lparr>lf_s := s\<rparr>)"
  by (simp add: life_inv_def same_life_def)

lemma life_ok_exit:
  "life_ok cur nxt k cl a live ch rp w \<Longrightarrow> g \<in> set live \<Longrightarrow> superseded = (cur \<noteq> Some g \<or> k \<or> cl) \<Longrightarrow>
   life_ok cur nxt k cl a (removeAll g live) ((g, superseded) # ch) rp w"
  unfolding life_ok_def by (auto simp: distinct_removeAll)

lemma life_ok_record:
  assumes ok: "life_ok cur nxt k cl a live ch rp w" and g: "(g, False) \<in> set ch"
  shows "life_ok cur nxt k cl False live (filter (\<lambda>c. fst c \<noteq> g) ch) (g # rp) w"
proof -
  have dist: "distinct (live @ map fst ch @ rp)" and less: "\<forall>g \<in> set live \<union> fst ` set ch \<union> set rp. g < nxt"
    and checked: "\<And>h. (h, False) \<in> set ch \<Longrightarrow> cur = Some h"
    and cur: "\<And>h. cur = Some h \<Longrightarrow> \<not> cl \<Longrightarrow> (h, True) \<in> set ch \<Longrightarrow> k"
    using ok unfolding life_ok_def by blast+
  have gcur: "cur = Some g" and live: "g \<notin> set live" and rp: "g \<notin> set rp" "g < nxt"
    using checked [OF g] dist less g by force+
  have none: "(h, False) \<notin> set (filter (\<lambda>c. fst c \<noteq> g) ch)" for h
    using checked [of h] gcur by auto
  have "distinct (live @ map fst (filter (\<lambda>c. fst c \<noteq> g) ch) @ g # rp)"
    using dist live rp by (auto simp: distinct_map_filter)
  then show ?thesis
    using less rp(2) none cur gcur live unfolding life_ok_def by auto
qed

lemma life_ok_record_superseded:
  assumes ok: "life_ok cur nxt k cl a live ch rp w" and g: "(g, True) \<in> set ch"
  shows "life_ok cur nxt k cl a live (filter (\<lambda>c. fst c \<noteq> g) ch) rp w"
proof -
  have dist: "distinct (live @ map fst ch @ rp)"
    using ok unfolding life_ok_def by blast
  then have g': "(g, False) \<notin> set ch"
    using g by (auto dest: eq_key_imp_eq_value)
  define ch' where "ch' = filter (\<lambda>c. fst c \<noteq> g) ch"
  have "distinct (live @ map fst ch' @ rp)"
    using dist by (auto simp: ch'_def distinct_map_filter)
  moreover have "(h, False) \<in> set ch' \<longleftrightarrow> (h, False) \<in> set ch" for h
    using g' by (auto simp: ch'_def)
  moreover have sub: "set ch' \<subseteq> set ch"
    by (simp add: ch'_def)
  moreover have "\<forall>g \<in> set live \<union> fst ` set ch' \<union> set rp. g < nxt"
    using ok sub unfolding life_ok_def by blast
  ultimately have "life_ok cur nxt k cl a live ch' rp w"
    using ok unfolding life_ok_def by (simp only: ) blast
  then show ?thesis by (simp add: ch'_def)
qed

lemma life_ok_respawn:
  assumes ok: "life_ok cur nxt True cl a live ch rp w"
    and w: "\<forall>g. w = Some g \<longrightarrow> g \<notin> set live \<and> g \<notin> fst ` set ch"
  shows "life_ok (Some nxt) (nxt + 1) False cl True (nxt # live) ch rp None"
    and "life_ok None nxt False cl False live ch rp None"
proof -
  have dist: "distinct (live @ map fst ch @ rp)" and less: "\<forall>g \<in> set live \<union> fst ` set ch \<union> set rp. g < nxt"
    using ok unfolding life_ok_def by blast+
  have none: "(h, False) \<notin> set ch" for h
  proof
    assume h: "(h, False) \<in> set ch"
    then have "w = Some h"
      using ok unfolding life_ok_def by blast
    with w h show False by force
  qed
  have new: "nxt \<notin> set live" "nxt \<notin> fst ` set ch" "nxt \<notin> set rp"
    using less by auto
  then have dist': "distinct ((nxt # live) @ map fst ch @ rp)"
    using dist by auto
  have less': "\<forall>g \<in> set (nxt # live) \<union> fst ` set ch \<union> set rp. g < nxt + 1"
    using less by (auto intro: less_SucI)
  show "life_ok (Some nxt) (nxt + 1) False cl True (nxt # live) ch rp None"
    unfolding life_ok_def
  proof (intro conjI)
    have "(nxt, b) \<notin> set ch" for b
      using new(2) by force
    then show "\<forall>g. Some nxt = Some g \<longrightarrow> \<not> cl \<longrightarrow> (g, True) \<in> set ch \<longrightarrow> False"
      by simp
  qed (use dist' less' none in simp_all)
  show "life_ok None nxt False cl False live ch rp None"
    using dist less none unfolding life_ok_def by simp
qed

lemma life_ok_claim:
  "life_ok cur nxt False False a live ch rp w \<Longrightarrow> life_ok cur nxt True False a live ch rp (if a then cur else None)"
  unfolding life_ok_def by auto

lemma life_ok_close: "life_ok cur nxt k cl a live ch rp w \<Longrightarrow> life_ok cur nxt k True False live ch rp w"
  unfolding life_ok_def by auto

lemma same_life_flush: "same_life s (fst (flush s))"
  by (simp add: same_life_def flush_def flushLocked_def Let_def)

lemma same_life_trans: "same_life a b \<Longrightarrow> same_life b c \<Longrightarrow> same_life a c"
  by (simp add: same_life_def)

lemma same_life_emit: "same_life s (fst (emit now data s))"
proof -
  have "same_life s (fst (emit_locked now data s))"
    by (simp add: same_life_def emit_locked_def Let_def case_prod_beta)
  then show ?thesis
    using same_life_trans [OF _ same_life_flush] by (auto simp: emit_def case_prod_beta)
qed

lemma other_ops_life:
  assumes "\<not> life_op x"
  shows "same_life s (fst (perform x s))"
proof -
  have "same_life s (fst (Replay q s))" for q
    using same_life_flush [of s]
    by (auto simp: Replay_def flush_def case_prod_beta split: option.splits)
  with assms show ?thesis
    by (cases x) (simp_all add: life_op_def same_life_emit same_life_flush,
        simp_all add: setter_defs control_defs same_life_def Let_def case_prod_beta split: sum.split option.split)
qed

lemma spawn_life: "spawn env ok mode s = Some (g, s', fx) \<Longrightarrow>
    g = ss_next s \<and> s' = s\<lparr>ss_next := g + 1\<rparr>"
  by (auto simp: spawn_def Let_def split: prod.splits if_splits)

lemma killResume_respawn_life:
  assumes "killResume_respawn env ok now s = (err, s', fx)"
  shows "ss_closed s' = ss_closed s \<and> \<not> ss_killing s'
    \<and> (if err = None then ss_cur s' = Some (ss_next s) \<and> ss_next s' = ss_next s + 1 \<and> si_pty_alive (ss_info s')
       else ss_cur s' = None \<and> ss_next s' = ss_next s \<and> \<not> si_pty_alive (ss_info s'))"
proof -
  let ?n = "kill_resume_notice (ts_tool (so_tool (ss_opts s)))"
  obtain s1 fx1 where 1: "emit now ?n s = (s1, fx1)" by fastforce
  obtain s2 fx2 where 2: "flush s1 = (s2, fx2)" by fastforce
  have "same_life s s2"
    using same_life_emit [of s now ?n] same_life_flush [of s1] by (simp add: 1 2 same_life_def)
  then show ?thesis
    using assms spawn_life [of env ok spawnResume s2]
    by (cases "spawn env ok spawnResume s2")
       (auto simp: killResume_respawn_def 1 2 same_life_def)
qed

lemma life_step_inv: "life_step l l' \<Longrightarrow> life_inv l \<Longrightarrow> life_inv l'"
proof (induction rule: life_step.induct)
  case (other x l)
  then show ?case by (intro life_inv_same other_ops_life)
next
  case (exit g l s)
  have same: "same_life (lf_s l) s"
    by (simp add: exit same_life_flush)
  from life_ok_exit [OF _ exit(1), of _ _ _ _ _ "lf_checked l" "lf_reports l" "lf_wait l" "wait_check g s"]
  show ?case
    using exit(3) same by (simp add: life_inv_def same_life_def wait_check_def)
next
  case (record_exit g superseded l code)
  then show ?case
    by (cases superseded)
       (simp_all add: life_inv_def wait_record_def Let_def life_ok_record life_ok_record_superseded)
next
  case (claim l s fx)
  then have "\<not> ss_closed (lf_s l)" "\<not> ss_killing (lf_s l)" and s: "s = (lf_s l)\<lparr>ss_killing := True\<rparr>"
    by (auto simp: killResume_claim_def split: if_splits)
  with claim(2) have "life_ok (ss_cur (lf_s l)) (ss_next (lf_s l)) False False
      (si_pty_alive (ss_info (lf_s l))) (lf_live l) (lf_checked l) (lf_reports l) (lf_wait l)"
    by (simp add: life_inv_def)
  from life_ok_claim [OF this] \<open>\<not> ss_closed (lf_s l)\<close> show ?case
    by (cases "si_pty_alive (ss_info (lf_s l))") (simp_all add: life_inv_def s)
next
  case (respawn l env ok now err s fx)
  note life = killResume_respawn_life [OF respawn(3)]
  from respawn(1,4) have ok: "life_ok (ss_cur (lf_s l)) (ss_next (lf_s l)) True (ss_closed (lf_s l))
      (si_pty_alive (ss_info (lf_s l))) (lf_live l) (lf_checked l) (lf_reports l) (lf_wait l)"
    by (simp add: life_inv_def)
  note both = life_ok_respawn [OF ok respawn(2)]
  show ?case
  proof (cases "err = None")
    case True
    with both(1) life show ?thesis by (simp add: life_inv_def)
  next
    case False
    then obtain er where "err = Some er" by auto
    with both(2) life show ?thesis by (simp add: life_inv_def)
  qed
next
  case (close l)
  then show ?case
    by (auto simp: life_inv_def Close_def Let_def intro: life_ok_close)
next
  case (suspend l)
  then show ?case
    by (auto simp: life_inv_def Close_def Suspend_def Let_def intro: life_ok_close)
qed

lemma life_start_inv:
  "ss_cur s = Some 0 \<Longrightarrow> ss_next s = 1 \<Longrightarrow> \<not> ss_killing s \<Longrightarrow> \<not> ss_closed s \<Longrightarrow> si_pty_alive (ss_info s)
   \<Longrightarrow> life_inv (life_start s)"
  by (simp add: life_inv_def life_start_def life_ok_def)

lemma start_life:
  assumes "start e o0 adopt = Inr (s, fx)"
  shows "ss_cur s = Some 0 \<and> ss_next s = 1 \<and> \<not> ss_killing s \<and> \<not> ss_closed s \<and> si_pty_alive (ss_info s)"
proof -
  have spawned: "start_spawn e mode s1 = Inr (s, fx) \<Longrightarrow> ss_next s1 = 0 \<Longrightarrow>
      ss_cur s = Some 0 \<and> s = s1\<lparr>ss_next := 1, ss_cur := Some 0\<rparr>" for mode s1
    using spawn_life [of "se_tmux_server e" "se_spawn_ok e" mode s1]
    by (auto simp: start_spawn_def split: option.splits)
  have new: "ss_next (new_session e o1 sh r) = 0" "\<not> ss_killing (new_session e o1 sh r)"
    "\<not> ss_closed (new_session e o1 sh r)" "si_pty_alive (ss_info (new_session e o1 sh r))" for o1 sh r
    by (simp_all add: new_session_def new_info_def Let_def case_prod_beta)
  obtain o1 sh r where "launch_session e o1 sh r adopt = Inr (s, fx)"
    using assms by (auto simp: start_def Let_def split: if_splits option.splits)
  then show ?thesis
    by (auto simp: launch_session_def Let_def new dest!: spawned split: if_splits)
qed

lemma life_reachable_inv: "life_reachable s0 l \<Longrightarrow> life_inv (life_start s0) \<Longrightarrow> life_inv l"
  by (induction rule: life_reachable.induct) (auto intro: life_step_inv)



definition session_exited :: "session \<Rightarrow> bool" where
  "session_exited s \<longleftrightarrow> si_state (ss_info s) = StateExited \<and> \<not> si_pty_alive (ss_info s)"

definition touches_terminal :: "effect \<Rightarrow> bool" where
  "touches_terminal e \<longleftrightarrow> (case e of PtyWrite _ _ \<Rightarrow> True | PtyResize _ _ _ \<Rightarrow> True | TypeTool _ _ \<Rightarrow> True
     | Launch _ _ _ \<Rightarrow> True | Terminate _ \<Rightarrow> True | _ \<Rightarrow> False)"

definition restart_op :: "op \<Rightarrow> bool" where
  "restart_op x \<longleftrightarrow> (case x of OpKillRespawn _ _ _ \<Rightarrow> True | OpReattach _ _ _ \<Rightarrow> True
     | OpKillStop _ _ _ \<Rightarrow> True | _ \<Rightarrow> False)"

text \<open>An exited session stays exited: a state report is not applied and says so, and input,
  the heuristic and every setter leave it exited, without a byte written to a terminal; a
  claimed respawn is the only way back.\<close>

theorem exited_stays_exited:
  assumes "session_exited s" and "\<not> restart_op x"
  shows "session_exited (fst (perform x s)) \<and> filter touches_terminal (snd (perform x s)) = []
    \<and> SetState st k src conf now s = (s, False) \<and> session_Heuristic now s = (s, no_verdict)"
proof -
  have flush: "session_exited (fst (flush s')) = session_exited s' \<and> filter touches_terminal (snd (flush s')) = []" for s'
    by (simp add: session_exited_def flush_def flushLocked_def Let_def touches_terminal_def)
  have emit: "session_exited (fst (emit t data s)) \<and> filter touches_terminal (snd (emit t data s)) = []" for t data
    using assms(1) flush [of "fst (emit_locked t data s)"]
    by (simp add: emit_def case_prod_beta) (simp add: emit_locked_def session_exited_def Let_def case_prod_beta)
  have replay: "session_exited (fst (Replay q s)) \<and> filter touches_terminal (snd (Replay q s)) = []" for q
    using assms(1) flush [of s]
    by (auto simp: Replay_def flush_def case_prod_beta touches_terminal_def split: option.splits)
  have "session_exited (fst (perform x s)) \<and> filter touches_terminal (snd (perform x s)) = []"
    using assms flush [of s] emit replay
    by (cases x)
       (simp_all add: restart_op_def, simp_all add: setter_defs control_defs current_def session_exited_def
          Let_def case_prod_beta touches_terminal_def split: sum.split option.split)
  then show ?thesis
    using assms(1) by (simp add: SetState_def session_Heuristic_def session_exited_def)
qed

theorem exited_stays_exited_witness:
  "\<exists>s0 fx0. start demo_env demo_opts False = Inr (s0, fx0)
     \<and> session_exited (fst (perform (OpWrite True [1]) (fst (wait_record False 3 s0))))"
proof -
  obtain s0 fx0 where 0: "start demo_env demo_opts False = Inr (s0, fx0)"
    by (rule demo_start)
  have "session_exited (fst (wait_record False 3 s0))"
    by (simp add: session_exited_def wait_record_def Let_def)
  from exited_stays_exited [OF this, of "OpWrite True [1]"] 0 show ?thesis
    by (simp add: restart_op_def)
qed

text \<open>A session closed while a kill-and-resume waits comes back to life: the respawn does not
  look at the closed flag, so it launches a new process for a session that was closed, and
  closing the session again does nothing.\<close>

theorem kill_resume_revives_closed:
  assumes "ss_closed s" and "killResume_respawn env True now s = (err, s', fx)"
  shows "err = None \<and> ss_closed s' \<and> si_pty_alive (ss_info s') \<and> si_state (ss_info s') = StateRunning
    \<and> (\<exists>g name argv. ss_cur s' = Some g \<and> Launch g name argv \<in> set fx) \<and> Close s' = (s', []) \<and> Suspend s' = (s', [])"
proof -
  let ?n = "kill_resume_notice (ts_tool (so_tool (ss_opts s)))"
  obtain s1 fx1 where 1: "emit now ?n s = (s1, fx1)" by fastforce
  obtain s2 fx2 where 2: "flush s1 = (s2, fx2)" by fastforce
  have closed: "ss_closed s2"
    using same_life_emit [of s now ?n] same_life_flush [of s1] assms(1) by (simp add: 1 2 same_life_def)
  obtain name argv where "launch_argv env s2 = (name, argv)" by fastforce
  then obtain fx3 where 3: "spawn env True spawnResume s2
      = Some (ss_next s2, s2\<lparr>ss_next := ss_next s2 + 1\<rparr>, Launch (ss_next s2) name argv # fx3)"
    by (simp add: spawn_def Let_def)
  have "Launch (ss_next s2) name argv \<in> set fx" "ss_cur s' = Some (ss_next s2)"
    "err = None \<and> ss_closed s' \<and> si_pty_alive (ss_info s') \<and> si_state (ss_info s') = StateRunning"
    using assms(2) closed by (auto simp: killResume_respawn_def 1 2 3)
  then show ?thesis
    by (simp add: Close_def Suspend_def) blast
qed

theorem kill_resume_revives_closed_witness:
  "\<exists>s0 fx0 s1 fx1. start demo_env demo_opts False = Inr (s0, fx0) \<and> killResume_claim s0 = Inr (s1, fx1)
     \<and> si_pty_alive (ss_info (fst (snd (killResume_respawn '''' True 9 (fst (Close s1))))))"
proof -
  obtain s0 fx0 where 0: "start demo_env demo_opts False = Inr (s0, fx0)"
    by (rule demo_start)
  obtain s1 fx1 where 1: "killResume_claim s0 = Inr (s1, fx1)"
    using start_life [OF 0] by (simp add: killResume_claim_def)
  obtain err s' fx where 2: "killResume_respawn '''' True 9 (fst (Close s1)) = (err, s', fx)"
    by (metis prod_cases3)
  have "ss_closed (fst (Close s1))"
    by (simp add: Close_def Let_def)
  from kill_resume_revives_closed [OF this 2] 0 1 2 show ?thesis by simp
qed

end
