(* ===== verification/Approvals.thy ===== *)
theory Approvals
  imports Messages
begin

text \<open>
  The agent's store of pending approvals (\<^verbatim>\<open>internal/hooks/approvals.go\<close>): the items by key, their
  decision channels, and every operation. A channel is a number; its buffer of one decision is in
  the store. The lemmas show that an approval is settled at most once and that the wake-up of its
  blocked handler is never dropped; the locale \<open>approval_book\<close> is the contract the hook handlers
  and the agent rely on.
\<close>

section \<open>State\<close>

record decision =
  dc_decision :: string
  dc_by :: string

record pending_item =
  pi_a :: approval
  pi_ch :: "nat option"

text \<open>
  The channels are those made so far, each with its buffer; \<open>hs_next\<close> is the next new one. A
  channel outlives its item while a handler waits on it.
\<close>

record hook_store =
  hs_items :: "(string, pending_item) gomap"
  hs_chans :: "(nat, decision option) gomap"
  hs_next :: nat

definition NewStore :: hook_store where
  "NewStore = \<lparr>hs_items = [], hs_chans = [], hs_next = 0\<rparr>"

section \<open>Operations\<close>

definition dedupe_window :: duration where "dedupe_window = 60 * second"

definition store_dup :: "instant \<Rightarrow> approval \<Rightarrow> hook_store \<Rightarrow> approval option" where
  "store_dup now a s =
     (case mget (hs_items s) (ap_key a) of
        None \<Rightarrow> None
      | Some p \<Rightarrow> if ap_status (pi_a p) = ApprovalPending
          \<and> time_sub now (ap_created_at (pi_a p)) < dedupe_window then Some (pi_a p) else None)"

definition store_Add :: "instant \<Rightarrow> approval \<Rightarrow> hook_store \<Rightarrow> hook_store \<times> approval \<times> bool" where
  "store_Add now a s =
     (case store_dup now a s of
        Some old \<Rightarrow> (s, old, True)
      | None \<Rightarrow>
          let a = a\<lparr>ap_status := ApprovalPending\<rparr> in
          if ap_level a = LevelHook then
            (s\<lparr>hs_items := mput (ap_key a) \<lparr>pi_a = a, pi_ch = Some (hs_next s)\<rparr> (hs_items s),
               hs_chans := mput (hs_next s) None (hs_chans s), hs_next := hs_next s + 1\<rparr>, a, False)
          else (s\<lparr>hs_items := mput (ap_key a) \<lparr>pi_a = a, pi_ch = None\<rparr> (hs_items s)\<rparr>, a, False))"

definition store_Get :: "string \<Rightarrow> hook_store \<Rightarrow> approval option" where
  "store_Get key s = map_option pi_a (mget (hs_items s) key)"

text \<open>
  \<^verbatim>\<open>sort.Slice\<close> on the creation time; approvals of the same instant keep the order of the
  map's iteration, one of the orders Go may choose.
\<close>

definition store_Pending :: "hook_store \<Rightarrow> approval list" where
  "store_Pending s = sort_key ap_created_at
     (filter (\<lambda>a. ap_status a = ApprovalPending) (map pi_a (mvals (hs_items s))))"

definition PendingForSession :: "u32 \<Rightarrow> hook_store \<Rightarrow> approval list" where
  "PendingForSession sid s = filter (\<lambda>a. ap_sid a = sid) (store_Pending s)"

text \<open>The non-blocking send on a channel with a buffer of one.\<close>

definition chan_send :: "nat option \<Rightarrow> decision \<Rightarrow> hook_store \<Rightarrow> hook_store" where
  "chan_send ch d s = (case ch of
     None \<Rightarrow> s
   | Some c \<Rightarrow>
       if mget (hs_chans s) c = Some None then s\<lparr>hs_chans := mput c (Some d) (hs_chans s)\<rparr> else s)"

definition settle ::
  "string \<Rightarrow> approval_status \<Rightarrow> string \<Rightarrow> decision \<Rightarrow> instant \<Rightarrow> hook_store \<Rightarrow> hook_store \<times> approval option" where
  "settle key status by d now s =
     (case mget (hs_items s) key of
        None \<Rightarrow> (s, None)
      | Some p \<Rightarrow>
          if ap_status (pi_a p) \<noteq> ApprovalPending then (s, None)
          else
            let a = (pi_a p)\<lparr>ap_status := status, ap_decided_by := by, ap_decided_at := Some now\<rparr>
            in (chan_send (pi_ch p) d (s\<lparr>hs_items := mput key (p\<lparr>pi_a := a\<rparr>) (hs_items s)\<rparr>), Some a))"

definition store_Decide :: "string \<Rightarrow> string \<Rightarrow> string \<Rightarrow> instant \<Rightarrow> hook_store \<Rightarrow> hook_store \<times> approval option" where
  "store_Decide key decision by now s =
     settle key (if decision = ''allow'' then ApprovalAllowed else ApprovalDenied) by
       \<lparr>dc_decision = decision, dc_by = by\<rparr> now s"

definition store_Close :: "string \<Rightarrow> approval_status \<Rightarrow> string \<Rightarrow> instant \<Rightarrow> hook_store \<Rightarrow> hook_store \<times> approval option" where
  "store_Close key status by now s = settle key status by \<lparr>dc_decision = '''', dc_by = ''''\<rparr> now s"

fun close_keys ::
  "string list \<Rightarrow> approval_status \<Rightarrow> string \<Rightarrow> instant \<Rightarrow> hook_store \<Rightarrow> hook_store \<times> approval list" where
  "close_keys [] status by now s = (s, [])"
| "close_keys (k # ks) status by now s =
     (let (s1, r) = store_Close k status by now s; (s2, out) = close_keys ks status by now s1
      in (s2, (case r of None \<Rightarrow> out | Some a \<Rightarrow> a # out)))"

definition CloseSession ::
  "u32 \<Rightarrow> approval_status \<Rightarrow> string \<Rightarrow> instant \<Rightarrow> hook_store \<Rightarrow> hook_store \<times> approval list" where
  "CloseSession sid status by now s = close_keys (map ap_key (PendingForSession sid s)) status by now s"

definition store_wait :: "string \<Rightarrow> hook_store \<Rightarrow> nat option" where
  "store_wait key s = (case mget (hs_items s) key of None \<Rightarrow> None | Some p \<Rightarrow> pi_ch p)"

definition sweepable :: "duration \<Rightarrow> instant \<Rightarrow> pending_item \<Rightarrow> bool" where
  "sweepable maxAge now p \<longleftrightarrow> ap_status (pi_a p) \<noteq> ApprovalPending
     \<and> (case ap_decided_at (pi_a p) of None \<Rightarrow> False | Some t \<Rightarrow> time_sub now t > maxAge)"

definition store_Sweep :: "duration \<Rightarrow> instant \<Rightarrow> hook_store \<Rightarrow> hook_store" where
  "store_Sweep maxAge now s = s\<lparr>hs_items := filter (\<lambda>(k, p). \<not> sweepable maxAge now p) (hs_items s)\<rparr>"

text \<open>A receive from a channel, which blocks while the buffer is empty.\<close>

definition chan_recv :: "nat \<Rightarrow> hook_store \<Rightarrow> (decision \<times> hook_store) option" where
  "chan_recv c s = (case mget (hs_chans s) c of
     Some (Some d) \<Rightarrow> Some (d, s\<lparr>hs_chans := mput c None (hs_chans s)\<rparr>)
   | _ \<Rightarrow> None)"

section \<open>The key\<close>

text \<open>
  The SHA-256 digest and the canonical form of a JSON text are parameters.
\<close>

definition ApprovalKey :: "(string \<Rightarrow> byte list) \<Rightarrow> (string \<Rightarrow> string) \<Rightarrow> string \<Rightarrow> string \<Rightarrow> string \<Rightarrow> string" where
  "ApprovalKey sha256 canon sessionID toolName toolInput =
     take 16 (hex_encode (sha256 (sessionID @ toolName @ canon toolInput)))"

text \<open>A decoded JSON value, and the decoder as a parameter of the summary.\<close>

datatype json = JNull | JBool bool | JNum string | JStr string | JArr "json list" | JObj "(string \<times> json) list"

definition json_string_field :: "(string \<times> json) list \<Rightarrow> string \<Rightarrow> string option" where
  "json_string_field m k = (case map_of m k of Some (JStr s) \<Rightarrow> if s \<noteq> '''' then Some s else None | _ \<Rightarrow> None)"

fun first_field :: "(string \<times> json) list \<Rightarrow> string list \<Rightarrow> string option" where
  "first_field m [] = None"
| "first_field m (k # ks) = (case json_string_field m k of Some s \<Rightarrow> Some s | None \<Rightarrow> first_field m ks)"

definition Summary :: "(string \<Rightarrow> json option) \<Rightarrow> string \<Rightarrow> string \<Rightarrow> string" where
  "Summary decode toolName toolInput =
     (case decode toolInput of
        Some (JObj m) \<Rightarrow>
          let direct = (if toolName = ''Bash'' then json_string_field m ''command''
                else if toolName \<in> {''Write'', ''Edit'', ''Read'', ''MultiEdit'', ''NotebookEdit''}
                then json_string_field m ''file_path'' else None)
          in (case direct of Some s \<Rightarrow> s
              | None \<Rightarrow> (case first_field m [''command'', ''file_path'', ''path'', ''url'', ''pattern'', ''query''] of
                  Some s \<Rightarrow> toolName @ '': '' @ s | None \<Rightarrow> toolName))
      | _ \<Rightarrow> toolName)"

section \<open>Invariant\<close>

text \<open>
  Items are stored under their key; every item at level A, and only such an item, has a channel
  of its own; the channel of a pending item is empty.
\<close>

definition store_ok :: "hook_store \<Rightarrow> bool" where
  "store_ok s \<longleftrightarrow> mwf (hs_items s)
     \<and> (\<forall>k p. mget (hs_items s) k = Some p \<longrightarrow> ap_key (pi_a p) = k
          \<and> (pi_ch p = None \<longleftrightarrow> ap_level (pi_a p) \<noteq> LevelHook)
          \<and> (\<forall>c. pi_ch p = Some c \<longrightarrow> c < hs_next s
               \<and> (ap_status (pi_a p) = ApprovalPending \<longrightarrow> mget (hs_chans s) c = Some None)))
     \<and> (\<forall>k k' p p' c. mget (hs_items s) k = Some p \<longrightarrow> mget (hs_items s) k' = Some p' \<longrightarrow>
          pi_ch p = Some c \<longrightarrow> pi_ch p' = Some c \<longrightarrow> k = k')"

lemma NewStore_ok [simp]: "store_ok NewStore"
  by (simp add: store_ok_def NewStore_def)

lemma store_okD:
  assumes "store_ok s" and "mget (hs_items s) k = Some p"
  shows "ap_key (pi_a p) = k" and "pi_ch p = None \<longleftrightarrow> ap_level (pi_a p) \<noteq> LevelHook"
    and "pi_ch p = Some c \<Longrightarrow> c < hs_next s"
    and "pi_ch p = Some c \<Longrightarrow> ap_status (pi_a p) = ApprovalPending \<Longrightarrow> mget (hs_chans s) c = Some None"
    and "pi_ch p = Some c \<Longrightarrow> mget (hs_items s) k' = Some p' \<Longrightarrow> pi_ch p' = Some c \<Longrightarrow> k' = k"
  using assms unfolding store_ok_def by blast+

lemma store_ok_mwf: "store_ok s \<Longrightarrow> mwf (hs_items s)"
  by (simp add: store_ok_def)

lemma Add_cases:
  obtains (dup) p where "mget (hs_items s) (ap_key a) = Some p" "ap_status (pi_a p) = ApprovalPending"
      "store_Add now a s = (s, pi_a p, True)"
  | (hook) "ap_level a = LevelHook" "store_Add now a s =
      (s\<lparr>hs_items := mput (ap_key a) \<lparr>pi_a = a\<lparr>ap_status := ApprovalPending\<rparr>, pi_ch = Some (hs_next s)\<rparr> (hs_items s),
         hs_chans := mput (hs_next s) None (hs_chans s), hs_next := hs_next s + 1\<rparr>,
       a\<lparr>ap_status := ApprovalPending\<rparr>, False)"
  | (plain) "ap_level a \<noteq> LevelHook" "store_Add now a s =
      (s\<lparr>hs_items := mput (ap_key a) \<lparr>pi_a = a\<lparr>ap_status := ApprovalPending\<rparr>, pi_ch = None\<rparr> (hs_items s)\<rparr>,
       a\<lparr>ap_status := ApprovalPending\<rparr>, False)"
proof (cases "store_dup now a s")
  case None
  then show ?thesis
    using hook plain by (cases "ap_level a = LevelHook") (simp_all add: store_Add_def Let_def)
next
  case (Some old)
  then obtain p where "mget (hs_items s) (ap_key a) = Some p" "ap_status (pi_a p) = ApprovalPending" "old = pi_a p"
    by (auto simp: store_dup_def split: option.splits if_splits)
  with Some show ?thesis
    by (intro dup) (auto simp: store_Add_def)
qed

lemma upd_items: "s\<lparr>hs_items := m\<rparr> = \<lparr>hs_items = m, hs_chans = hs_chans s, hs_next = hs_next s\<rparr>"
  by simp

lemma upd_all:
  "s\<lparr>hs_items := m, hs_chans := n, hs_next := k\<rparr> = \<lparr>hs_items = m, hs_chans = n, hs_next = k\<rparr>"
  by simp

lemma upd_items_chans:
  "s\<lparr>hs_items := m, hs_chans := n\<rparr> = \<lparr>hs_items = m, hs_chans = n, hs_next = hs_next s\<rparr>"
  by simp

lemma store_ok_put:
  assumes ok: "store_ok s" and key: "ap_key (pi_a p) = k"
    and ch: "pi_ch p = None \<longleftrightarrow> ap_level (pi_a p) \<noteq> LevelHook"
    and new: "\<And>c. pi_ch p = Some c \<Longrightarrow> c < n \<and> (ap_status (pi_a p) = ApprovalPending \<longrightarrow> mget chans c = Some None)"
    and own: "\<And>c k' p'. pi_ch p = Some c \<Longrightarrow> mget (hs_items s) k' = Some p' \<Longrightarrow> pi_ch p' = Some c \<Longrightarrow> k' = k"
    and old: "hs_next s \<le> n"
      "\<And>k' p' c. k' \<noteq> k \<Longrightarrow> mget (hs_items s) k' = Some p' \<Longrightarrow> pi_ch p' = Some c \<Longrightarrow>
         ap_status (pi_a p') = ApprovalPending \<Longrightarrow> mget chans c = Some None"
  shows "store_ok \<lparr>hs_items = mput k p (hs_items s), hs_chans = chans, hs_next = n\<rparr>"
  unfolding store_ok_def
proof (intro conjI allI impI)
  show "mwf (hs_items \<lparr>hs_items = mput k p (hs_items s), hs_chans = chans, hs_next = n\<rparr>)"
    using store_ok_mwf [OF ok] by simp
next
  fix k1 p1
  assume g: "mget (hs_items \<lparr>hs_items = mput k p (hs_items s), hs_chans = chans, hs_next = n\<rparr>) k1 = Some p1"
  show "ap_key (pi_a p1) = k1" "(pi_ch p1 = None) = (ap_level (pi_a p1) \<noteq> LevelHook)"
    using g key ch store_okD(1,2) [OF ok] by (auto split: if_splits)
  fix c assume c: "pi_ch p1 = Some c"
  show "c < hs_next \<lparr>hs_items = mput k p (hs_items s), hs_chans = chans, hs_next = n\<rparr>"
    using g c new [of c] store_okD(3) [OF ok, of k1 p1 c] old(1) by (auto split: if_splits)
  assume "ap_status (pi_a p1) = ApprovalPending"
  then show "mget (hs_chans \<lparr>hs_items = mput k p (hs_items s), hs_chans = chans, hs_next = n\<rparr>) c = Some None"
    using g c new [of c] old(2) [of k1 p1 c] by (auto split: if_splits)
next
  fix k1 k2 p1 p2 c
  assume "mget (hs_items \<lparr>hs_items = mput k p (hs_items s), hs_chans = chans, hs_next = n\<rparr>) k1 = Some p1"
    "mget (hs_items \<lparr>hs_items = mput k p (hs_items s), hs_chans = chans, hs_next = n\<rparr>) k2 = Some p2"
    "pi_ch p1 = Some c" "pi_ch p2 = Some c"
  then show "k1 = k2"
    using own [of c k1 p1] own [of c k2 p2] store_okD(5) [OF ok, of k1 p1 c k2 p2] by (auto split: if_splits)
qed

lemma Add_ok: "store_ok s \<Longrightarrow> store_ok (fst (store_Add now a s))"
proof -
  assume ok: "store_ok s"
  let ?a = "a\<lparr>ap_status := ApprovalPending\<rparr>"
  show ?thesis
  proof (cases rule: Add_cases [of s a now])
    case (dup p)
    then show ?thesis using ok by simp
  next
    case hook
    have "store_ok \<lparr>hs_items = mput (ap_key a) \<lparr>pi_a = ?a, pi_ch = Some (hs_next s)\<rparr> (hs_items s),
        hs_chans = mput (hs_next s) None (hs_chans s), hs_next = hs_next s + 1\<rparr>"
      by (rule store_ok_put [OF ok])
         (use hook(1) store_okD(3,4) [OF ok] in \<open>auto dest: less_not_refl2\<close>)
    then show ?thesis by (simp add: hook(2) upd_all)
  next
    case plain
    have "store_ok \<lparr>hs_items = mput (ap_key a) \<lparr>pi_a = ?a, pi_ch = None\<rparr> (hs_items s),
        hs_chans = hs_chans s, hs_next = hs_next s\<rparr>"
      by (rule store_ok_put [OF ok]) (use plain(1) store_okD(4) [OF ok] in auto)
    then show ?thesis by (simp add: plain(2) upd_items)
  qed
qed

lemma settle_cases:
  obtains (no) "settle key status by d now s = (s, None)" "\<not> (\<exists>p. mget (hs_items s) key = Some p
      \<and> ap_status (pi_a p) = ApprovalPending)"
  | (settled) p where "mget (hs_items s) key = Some p" "ap_status (pi_a p) = ApprovalPending"
      "settle key status by d now s =
        (chan_send (pi_ch p) d (s\<lparr>hs_items := mput key
            (p\<lparr>pi_a := (pi_a p)\<lparr>ap_status := status, ap_decided_by := by, ap_decided_at := Some now\<rparr>\<rparr>) (hs_items s)\<rparr>),
         Some ((pi_a p)\<lparr>ap_status := status, ap_decided_by := by, ap_decided_at := Some now\<rparr>))"
  by (cases "mget (hs_items s) key") (auto simp: settle_def Let_def split: if_splits)

text \<open>The send of a settlement never finds the buffer full.\<close>

lemma settle_sends:
  assumes "store_ok s" and "mget (hs_items s) key = Some p" and "ap_status (pi_a p) = ApprovalPending"
    and "pi_ch p = Some c"
  shows "chan_send (pi_ch p) d (s\<lparr>hs_items := items\<rparr>) = s\<lparr>hs_items := items, hs_chans := mput c (Some d) (hs_chans s)\<rparr>"
  using store_okD(4) [OF assms(1,2,4,3)] assms(4) by (simp add: chan_send_def)

lemma settle_ok:
  assumes ok: "store_ok s" and st: "status \<noteq> ApprovalPending"
  shows "store_ok (fst (settle key status by d now s))"
proof (cases rule: settle_cases [of key status "by" d now s])
  case no
  then show ?thesis using ok by simp
next
  case (settled p)
  let ?p = "p\<lparr>pi_a := (pi_a p)\<lparr>ap_status := status, ap_decided_by := by, ap_decided_at := Some now\<rparr>\<rparr>"
  note D = store_okD [OF ok settled(1)]
  show ?thesis
  proof (cases "pi_ch p")
    case None
    have "store_ok \<lparr>hs_items = mput key ?p (hs_items s), hs_chans = hs_chans s, hs_next = hs_next s\<rparr>"
      by (rule store_ok_put [OF ok]) (use D None store_okD(4) [OF ok] in auto)
    then show ?thesis by (simp add: settled(3) chan_send_def None upd_items)
  next
    case (Some c)
    have "store_ok \<lparr>hs_items = mput key ?p (hs_items s), hs_chans = mput c (Some d) (hs_chans s), hs_next = hs_next s\<rparr>"
    proof (rule store_ok_put [OF ok])
      show "k' = key" if "pi_ch ?p = Some c'" "mget (hs_items s) k' = Some p'" "pi_ch p' = Some c'" for c' k' p'
        using D(5) that by simp
      show "mget (mput c (Some d) (hs_chans s)) c' = Some None"
        if "k' \<noteq> key" "mget (hs_items s) k' = Some p'" "pi_ch p' = Some c'" "ap_status (pi_a p') = ApprovalPending" for k' p' c'
        using D(5) [OF Some that(2)] store_okD(4) [OF ok that(2,3,4)] that by auto
    qed (use D st Some in auto)
    then show ?thesis
      by (simp add: settled(3) settle_sends [OF ok settled(1,2) Some] upd_items_chans)
  qed
qed

lemma Sweep_ok: "store_ok s \<Longrightarrow> store_ok (store_Sweep maxAge now s)"
  unfolding store_ok_def store_Sweep_def
  by (auto simp: mget_filter split: option.splits if_splits)

lemma recv_ok:
  assumes ok: "store_ok s" and r: "chan_recv c s = Some (d, s')"
  shows "store_ok s'"
proof -
  from r have full: "mget (hs_chans s) c = Some (Some d)" and s': "s' = s\<lparr>hs_chans := mput c None (hs_chans s)\<rparr>"
    by (auto simp: chan_recv_def split: option.splits)
  show ?thesis
    using ok full unfolding s' store_ok_def by auto
qed

lemma Close_ok: "store_ok s \<Longrightarrow> status \<noteq> ApprovalPending \<Longrightarrow> store_ok (fst (store_Close key status by now s))"
  by (simp add: store_Close_def settle_ok)

lemma Decide_ok: "store_ok s \<Longrightarrow> store_ok (fst (store_Decide key decision by now s))"
  by (simp add: store_Decide_def settle_ok)

lemma close_keys_ok:
  "store_ok s \<Longrightarrow> status \<noteq> ApprovalPending \<Longrightarrow> store_ok (fst (close_keys ks status by now s))"
  by (induction ks arbitrary: s) (simp_all add: case_prod_beta Close_ok)

lemma CloseSession_ok:
  "store_ok s \<Longrightarrow> status \<noteq> ApprovalPending \<Longrightarrow> store_ok (fst (CloseSession sid status by now s))"
  by (simp add: CloseSession_def close_keys_ok)

section \<open>The book of approvals as an interface\<close>

datatype settlement =
    Decided string string string instant
  | Closed string approval_status string instant

fun settled_key :: "settlement \<Rightarrow> string" where
  "settled_key (Decided k d by now) = k"
| "settled_key (Closed k st by now) = k"

fun settled_status :: "settlement \<Rightarrow> approval_status" where
  "settled_status (Decided k d by now) = (if d = ''allow'' then ApprovalAllowed else ApprovalDenied)"
| "settled_status (Closed k st by now) = st"

definition terminal :: "settlement \<Rightarrow> bool" where
  "terminal x \<longleftrightarrow> settled_status x \<noteq> ApprovalPending"

fun act_all :: "(settlement \<Rightarrow> 's \<Rightarrow> 's \<times> approval option) \<Rightarrow> settlement list \<Rightarrow> 's \<Rightarrow> 's \<times> approval option list" where
  "act_all act [] s = (s, [])"
| "act_all act (x # xs) s = (let (s1, r) = act x s; (s2, rs) = act_all act xs s1 in (s2, r # rs))"

definition is_pending :: "approval option \<Rightarrow> bool" where
  "is_pending a \<longleftrightarrow> (case a of None \<Rightarrow> False | Some a \<Rightarrow> ap_status a = ApprovalPending)"

text \<open>
  A settlement succeeds exactly on a pending approval, gives it the terminal status and touches
  no other; what it answers is what is stored.
\<close>

locale approval_book =
  fixes ok :: "'s \<Rightarrow> bool"
    and look :: "string \<Rightarrow> 's \<Rightarrow> approval option"
    and act :: "settlement \<Rightarrow> 's \<Rightarrow> 's \<times> approval option"
  assumes act_ok: "ok s \<Longrightarrow> terminal x \<Longrightarrow> ok (fst (act x s))"
    and act_some: "ok s \<Longrightarrow> (snd (act x s) \<noteq> None) = is_pending (look (settled_key x) s)"
    and act_none: "ok s \<Longrightarrow> snd (act x s) = None \<Longrightarrow> fst (act x s) = s"
    and act_status: "ok s \<Longrightarrow> snd (act x s) = Some a \<Longrightarrow>
      ap_status a = settled_status x \<and> look (settled_key x) (fst (act x s)) = Some a"
    and act_other: "ok s \<Longrightarrow> k \<noteq> settled_key x \<Longrightarrow> look k (fst (act x s)) = look k s"
begin

lemma settled_stays:
  "ok s \<Longrightarrow> list_all terminal xs \<Longrightarrow> \<not> is_pending (look k s) \<Longrightarrow>
   look k (fst (act_all act xs s)) = look k s
   \<and> (\<forall>i < length xs. settled_key (xs ! i) = k \<longrightarrow> snd (act_all act xs s) ! i = None)"
proof (induction xs arbitrary: s)
  case (Cons x xs)
  have ok: "ok (fst (act x s))"
    using Cons.prems by (simp add: act_ok)
  have same: "look k (fst (act x s)) = look k s"
  proof (cases "settled_key x = k")
    case True
    then have "snd (act x s) = None"
      using act_some [OF Cons.prems(1), of x] Cons.prems(3) by auto
    then show ?thesis using act_none [OF Cons.prems(1)] by simp
  next
    case False
    then show ?thesis using act_other [OF Cons.prems(1)] by simp
  qed
  have none: "settled_key x = k \<longrightarrow> snd (act x s) = None"
    using act_some [OF Cons.prems(1), of x] Cons.prems(3) by auto
  from Cons.IH [OF ok] Cons.prems same none show ?case
    by (auto simp: case_prod_beta nth_Cons split: nat.splits)
qed simp

text \<open>Of all settlements of a key, at most one succeeds, and it decides the final status.\<close>

lemma settled_once:
  assumes "ok s" and "list_all terminal xs"
    and "i < length xs" "settled_key (xs ! i) = k" "snd (act_all act xs s) ! i = Some a"
  shows "look k (fst (act_all act xs s)) = Some a \<and> ap_status a = settled_status (xs ! i)
    \<and> (\<forall>j < length xs. settled_key (xs ! j) = k \<longrightarrow> snd (act_all act xs s) ! j \<noteq> None \<longrightarrow> j = i)"
  using assms
proof (induction xs arbitrary: s i)
  case (Cons x xs)
  have ok: "ok (fst (act x s))"
    using Cons.prems by (simp add: act_ok)
  show ?case
  proof (cases i)
    case 0
    then have a: "snd (act x s) = Some a" and x: "settled_key x = k"
      using Cons.prems(4,5) by (simp_all add: case_prod_beta)
    note st = act_status [OF Cons.prems(1) a, unfolded x]
    then have "\<not> is_pending (look k (fst (act x s)))"
      using Cons.prems(2) by (simp add: is_pending_def terminal_def)
    from settled_stays [OF ok _ this] Cons.prems(2) st 0 show ?thesis
      by (auto simp: case_prod_beta nth_Cons split: nat.splits)
  next
    case (Suc i')
    have later: "snd (act_all act xs (fst (act x s))) ! i' = Some a" "i' < length xs" "settled_key (xs ! i') = k"
      using Cons.prems Suc by (simp_all add: case_prod_beta)
    have "snd (act x s) = None" if "settled_key x = k"
    proof (rule ccontr)
      assume "snd (act x s) \<noteq> None"
      then obtain b where "snd (act x s) = Some b" by auto
      from act_status [OF Cons.prems(1) this] that Cons.prems(2)
      have "\<not> is_pending (look k (fst (act x s)))"
        by (simp add: is_pending_def terminal_def)
      from settled_stays [OF ok _ this, of xs] Cons.prems(2) later show False by simp
    qed
    with Cons.IH [OF ok _ later(2,3,1)] Cons.prems(2) Suc show ?thesis
      by (auto simp: case_prod_beta nth_Cons split: nat.splits)
  qed
qed simp

end

fun store_act :: "settlement \<Rightarrow> hook_store \<Rightarrow> hook_store \<times> approval option" where
  "store_act (Decided k d by now) s = store_Decide k d by now s"
| "store_act (Closed k st by now) s = store_Close k st by now s"

lemma store_act_settle:
  obtains "by" d now where "store_act x s = settle (settled_key x) (settled_status x) by d now s"
  by (cases x) (auto simp: store_Decide_def store_Close_def)

lemma Get_chan_send [simp]: "store_Get k (chan_send ch d s) = store_Get k s"
  by (simp add: store_Get_def chan_send_def split: option.split)

lemma settle_look:
  "store_Get k (fst (settle key status by d now s)) =
     (if k = key \<and> is_pending (store_Get key s) then snd (settle key status by d now s) else store_Get k s)"
  "(snd (settle key status by d now s) \<noteq> None) = is_pending (store_Get key s)"
  "snd (settle key status by d now s) = Some a \<Longrightarrow> ap_status a = status"
  "snd (settle key status by d now s) = None \<Longrightarrow> fst (settle key status by d now s) = s"
  by (cases rule: settle_cases [of key status "by" d now s];
      auto simp: is_pending_def store_Get_def chan_send_def split: option.splits)+

interpretation book: approval_book store_ok store_Get store_act
proof
  fix s :: hook_store and x :: settlement and a k
  assume ok: "store_ok s"
  obtain "by" d now where act: "store_act x s = settle (settled_key x) (settled_status x) by d now s"
    by (rule store_act_settle)
  show "terminal x \<Longrightarrow> store_ok (fst (store_act x s))"
    by (simp add: act terminal_def settle_ok [OF ok])
  show "(snd (store_act x s) \<noteq> None) = is_pending (store_Get (settled_key x) s)"
    unfolding act by (rule settle_look(2))
  show "snd (store_act x s) = None \<Longrightarrow> fst (store_act x s) = s"
    unfolding act by (rule settle_look(4))
  show "snd (store_act x s) = Some a \<Longrightarrow>
      ap_status a = settled_status x \<and> store_Get (settled_key x) (fst (store_act x s)) = Some a"
    unfolding act using settle_look(2) [of "settled_key x" "settled_status x" "by" d now s]
    by (auto simp: settle_look(1) dest: settle_look(3))
  show "k \<noteq> settled_key x \<Longrightarrow> store_Get k (fst (store_act x s)) = store_Get k s"
    unfolding act by (simp add: settle_look(1))
qed

section \<open>Closing a session's approvals\<close>

definition closed_as :: "approval_status \<Rightarrow> string \<Rightarrow> instant \<Rightarrow> approval \<Rightarrow> approval" where
  "closed_as st by now a = a\<lparr>ap_status := st, ap_decided_by := by, ap_decided_at := Some now\<rparr>"

lemma Close_pending:
  assumes "store_Get k s = Some a" and "ap_status a = ApprovalPending"
  shows "snd (store_Close k st by now s) = Some (closed_as st by now a)"
    and "store_Get k' (fst (store_Close k st by now s)) = (if k' = k then Some (closed_as st by now a) else store_Get k' s)"
proof -
  show *: "snd (store_Close k st by now s) = Some (closed_as st by now a)"
    using assms by (auto simp: store_Close_def settle_def store_Get_def closed_as_def Let_def)
  show "store_Get k' (fst (store_Close k st by now s)) = (if k' = k then Some (closed_as st by now a) else store_Get k' s)"
    using assms * by (simp add: store_Close_def settle_look(1) is_pending_def)
qed

lemma close_keys_look:
  assumes "distinct ks" and "\<forall>k \<in> set ks. is_pending (store_Get k s)"
  shows "store_Get k (fst (close_keys ks st by now s)) =
      (if k \<in> set ks then map_option (closed_as st by now) (store_Get k s) else store_Get k s)
    \<and> snd (close_keys ks st by now s) = map (\<lambda>k. closed_as st by now (the (store_Get k s))) ks"
  using assms
proof (induction ks arbitrary: s)
  case (Cons x xs)
  then obtain a where a: "store_Get x s = Some a" "ap_status a = ApprovalPending"
    by (auto simp: is_pending_def split: option.splits)
  note C = Close_pending [OF a]
  have "\<forall>k \<in> set xs. is_pending (store_Get k (fst (store_Close x st by now s)))"
    using Cons.prems by (auto simp: C)
  moreover have "map (\<lambda>k. closed_as st by now (the (store_Get k (fst (store_Close x st by now s))))) xs
      = map (\<lambda>k. closed_as st by now (the (store_Get k s))) xs"
    using Cons.prems(1) by (auto simp: C)
  ultimately show ?case
    using Cons.IH [of "fst (store_Close x st by now s)"] Cons.prems(1) a by (simp add: case_prod_beta C)
qed simp

lemma Pending_set:
  assumes "store_ok s"
  shows "a \<in> set (PendingForSession sid s) \<longleftrightarrow>
    store_Get (ap_key a) s = Some a \<and> ap_status a = ApprovalPending \<and> ap_sid a = sid"
proof -
  have "a \<in> pi_a ` snd ` set (hs_items s) \<longleftrightarrow> (\<exists>k p. mget (hs_items s) k = Some p \<and> a = pi_a p)"
    unfolding mwf_mget_iff [OF store_ok_mwf [OF assms]] by force
  also have "\<dots> \<longleftrightarrow> store_Get (ap_key a) s = Some a"
    using store_okD(1) [OF assms] by (auto simp: store_Get_def)
  finally show ?thesis
    by (auto simp: PendingForSession_def store_Pending_def mvals_def)
qed

lemma Pending_keys_distinct:
  assumes "store_ok s"
  shows "distinct (map ap_key (PendingForSession sid s))"
proof -
  have "map ap_key (map pi_a (mvals (hs_items s))) = mkeys (hs_items s)"
    using store_okD(1) [OF assms] store_ok_mwf [OF assms]
    by (auto simp: mvals_def mkeys_def mwf_mget_iff [symmetric])
  then have "distinct (map ap_key (map pi_a (mvals (hs_items s))))"
    using store_ok_mwf [OF assms] by (simp add: mwf_def mkeys_def)
  then have "distinct (map ap_key (filter P (map pi_a (mvals (hs_items s)))))" for P
    by (rule distinct_map_filter)
  then show ?thesis
    by (simp add: PendingForSession_def store_Pending_def distinct_map)
qed

lemma CloseSession_spec:
  assumes "store_ok s"
  shows "store_Get k (fst (CloseSession sid st by now s)) =
      (case store_Get k s of None \<Rightarrow> None
       | Some a \<Rightarrow> Some (if ap_status a = ApprovalPending \<and> ap_sid a = sid then closed_as st by now a else a))"
    and "snd (CloseSession sid st by now s) = map (closed_as st by now) (PendingForSession sid s)"
proof -
  let ?ks = "map ap_key (PendingForSession sid s)"
  have own: "store_Get (ap_key a) s = Some a" "ap_status a = ApprovalPending" "ap_sid a = sid"
    if "a \<in> set (PendingForSession sid s)" for a
    using that Pending_set [OF assms] by blast+
  then have "\<forall>k \<in> set ?ks. is_pending (store_Get k s)"
    by (simp add: is_pending_def)
  note L = close_keys_look [OF Pending_keys_distinct [OF assms] this, of k st "by" now]
  have "k \<in> set ?ks \<longleftrightarrow> (\<exists>a. store_Get k s = Some a \<and> ap_status a = ApprovalPending \<and> ap_sid a = sid)"
  proof
    assume "k \<in> set ?ks"
    then show "\<exists>a. store_Get k s = Some a \<and> ap_status a = ApprovalPending \<and> ap_sid a = sid"
      using own by force
  next
    assume "\<exists>a. store_Get k s = Some a \<and> ap_status a = ApprovalPending \<and> ap_sid a = sid"
    then obtain a where a: "store_Get k s = Some a" "ap_status a = ApprovalPending" "ap_sid a = sid" by blast
    moreover from a(1) have "ap_key a = k"
      using store_okD(1) [OF assms] by (auto simp: store_Get_def)
    ultimately show "k \<in> set ?ks"
      using Pending_set [OF assms, of a sid] by auto
  qed
  with L show "store_Get k (fst (CloseSession sid st by now s)) =
      (case store_Get k s of None \<Rightarrow> None
       | Some a \<Rightarrow> Some (if ap_status a = ApprovalPending \<and> ap_sid a = sid then closed_as st by now a else a))"
    by (auto simp: CloseSession_def split: option.splits)
  show "snd (CloseSession sid st by now s) = map (closed_as st by now) (PendingForSession sid s)"
    using L own by (simp add: CloseSession_def)
qed

lemma CloseSession_none_pending:
  assumes "store_ok s" and "st \<noteq> ApprovalPending"
  shows "PendingForSession sid (fst (CloseSession sid st by now s)) = []"
proof -
  have "a \<notin> set (PendingForSession sid (fst (CloseSession sid st by now s)))" for a
    using Pending_set [OF CloseSession_ok [OF assms], of a sid sid "by" now] assms(2)
    by (auto simp: CloseSession_spec [OF assms(1)] closed_as_def split: option.splits if_splits)
  then show ?thesis
    by (meson last_in_set)
qed

section \<open>Reachable stores\<close>

inductive store_step :: "hook_store \<Rightarrow> hook_store \<Rightarrow> bool" where
  add: "store_step s (fst (store_Add now a s))"
| act: "terminal x \<Longrightarrow> store_step s (fst (store_act x s))"
| close_session: "status \<noteq> ApprovalPending \<Longrightarrow> store_step s (fst (CloseSession sid status by now s))"
| sweep: "store_step s (store_Sweep maxAge now s)"
| recv: "chan_recv c s = Some (d, s') \<Longrightarrow> store_step s s'"

definition store_reachable :: "hook_store \<Rightarrow> bool" where
  "store_reachable s \<longleftrightarrow> store_step\<^sup>*\<^sup>* NewStore s"

lemma store_step_ok: "store_step s s' \<Longrightarrow> store_ok s \<Longrightarrow> store_ok s'"
  by (induction rule: store_step.induct)
     (auto simp: Add_ok book.act_ok CloseSession_ok Sweep_ok recv_ok)

lemma store_reachable_ok: "store_reachable s \<Longrightarrow> store_ok s"
  unfolding store_reachable_def
  by (induction rule: rtranclp_induct) (auto intro: store_step_ok)

section \<open>Properties\<close>

text \<open>C5: An approval is settled at most once: in any store the agent can reach, of all decisions
  and closures of one key, in any order and number, at most one is accepted, and only if the
  approval was pending; the answer and the status stay those of the accepted one, and what is
  stored for other keys does not change.\<close>

theorem approval_settled_once:
  assumes "store_reachable s" and "list_all terminal xs"
    and "i < length xs" and "snd (act_all store_act xs s) ! i = Some a"
  shows "store_Get (settled_key (xs ! i)) (fst (act_all store_act xs s)) = Some a
    \<and> ap_status a = settled_status (xs ! i)
    \<and> (j < length xs \<and> settled_key (xs ! j) = settled_key (xs ! i) \<and> snd (act_all store_act xs s) ! j \<noteq> None \<longrightarrow> j = i)
    \<and> ((\<forall>x \<in> set xs. settled_key x \<noteq> k) \<longrightarrow> store_Get k (fst (act_all store_act xs s)) = store_Get k s)"
proof -
  have ok: "store_ok s" by (rule store_reachable_ok [OF assms(1)])
  have other: "(\<forall>x \<in> set xs. settled_key x \<noteq> k) \<Longrightarrow> store_Get k (fst (act_all store_act xs s)) = store_Get k s"
    using ok assms(2)
  proof (induction xs arbitrary: s)
    case (Cons x xs)
    then show ?case
      using book.act_ok [OF Cons.prems(2), of x] book.act_other [OF Cons.prems(2), of k x]
      by (auto simp: case_prod_beta)
  qed simp
  from book.settled_once [OF ok assms(2,3) refl assms(4)] other show ?thesis
    by blast
qed

definition demo_approval :: approval where
  "demo_approval = \<lparr>ap_key = ''k'', ap_sid = 7, ap_device_id = '''', ap_agent = ''claude'', ap_tool = ''Bash'',
     ap_summary = ''ls'', ap_input = '''', ap_cwd = '''', ap_level = LevelHook, ap_mode = ApprovalRemoteFirst,
     ap_created_at = 1, ap_hook_timeout_at = None, ap_status = StatusOther '''', ap_decided_by = '''',
     ap_decided_at = None\<rparr>"

lemma demo_store_reachable: "store_reachable (fst (store_Add 1 demo_approval NewStore))"
  unfolding store_reachable_def by (rule r_into_rtranclp, rule store_step.add)

theorem approval_settled_once_witness:
  "let s = fst (store_Add 1 demo_approval NewStore);
       xs = [Decided ''k'' ''allow'' ''web:c1'' 2, Closed ''k'' ApprovalClosedLocal ''local'' 3]
   in \<exists>a. store_Get ''k'' (fst (act_all store_act xs s)) = Some a \<and> ap_status a = ApprovalAllowed"
proof -
  let ?s = "fst (store_Add 1 demo_approval NewStore)"
  let ?xs = "[Decided ''k'' ''allow'' ''web:c1'' 2, Closed ''k'' ApprovalClosedLocal ''local'' 3]"
  let ?a = "demo_approval\<lparr>ap_status := ApprovalAllowed, ap_decided_by := ''web:c1'', ap_decided_at := Some 2\<rparr>"
  have acc: "snd (act_all store_act ?xs ?s) ! 0 = Some ?a"
    by (simp add: case_prod_beta store_Decide_def settle_def store_Add_def store_dup_def NewStore_def
        demo_approval_def Let_def)
  have "list_all terminal ?xs"
    by (simp add: terminal_def)
  from approval_settled_once [OF demo_store_reachable this _ acc, of 0 "''x''"] show ?thesis
    by (simp add: Let_def)
qed



end
