(* ===== verification/HooksServer.thy ===== *)
theory HooksServer
  imports Approvals
begin

text \<open>
  The local endpoint for the signals of the AI tools (\<^verbatim>\<open>internal/hooks/server.go\<close>, and the
  decision document of \<^verbatim>\<open>claude.go\<close>): authentication, the handlers of every route, and the
  permission request, which may block until it is decided, closed, timed out or abandoned. A
  handler gives the new store, the events it raises, in order, and its reply; a blocked request
  is resumed by a definition of its own. The lemmas show that a remote verdict is only ever the
  decision taken on that very approval.
\<close>

section \<open>Inputs, events and replies\<close>

record claude_input =
  ci_session_id :: string
  ci_cwd :: string
  ci_hook_event_name :: string
  ci_tool_name :: string
  ci_tool_input :: string
  ci_notification_type :: string
  ci_title :: string
  ci_message :: string

definition no_input :: claude_input where
  "no_input = \<lparr>ci_session_id = '''', ci_cwd = '''', ci_hook_event_name = '''', ci_tool_name = '''',
     ci_tool_input = '''', ci_notification_type = '''', ci_title = '''', ci_message = ''''\<rparr>"

text \<open>The request body as the JSON decoder sees it.\<close>

datatype 'a body = EmptyBody | BadJSON | Body 'a

datatype hook_event =
    EvState u32 session_state need_kind signal_source confidence
  | EvApprovalNew approval
  | EvApprovalClosed approval string
  | EvUpdated u32 "float64 option" "float64 option"
  | EvToolSession u32 string string
  | EvToolExited u32

text \<open>The replies: an empty document, a decision, no content, and an HTTP error.\<close>

datatype reply = REmpty | RDecision string string | RNoContent | RNothing | RError nat string

definition NewPermissionDecision :: "string \<Rightarrow> string \<Rightarrow> reply" where
  "NewPermissionDecision behavior message = RDecision behavior message"

text \<open>
  What the handlers use from outside: the token, the session lookup of the agent, the timeout,
  and, as parameters, the digest, the canonical form, the decoder of JSON and Go's quoting.
\<close>

record hook_env =
  he_token :: string
  he_lookup :: "(u32 \<Rightarrow> (string \<times> approval_mode) option) option"
  he_timeout :: duration
  he_sha256 :: "string \<Rightarrow> byte list"
  he_canon :: "string \<Rightarrow> string"
  he_decode :: "string \<Rightarrow> json option"
  he_quote :: "string \<Rightarrow> string"

definition hook_auth :: "hook_env \<Rightarrow> string \<Rightarrow> bool" where
  "hook_auth e header \<longleftrightarrow>
     (let got = (if starts_with ''Bearer '' header then drop 7 header else header)
      in he_token e \<noteq> '''' \<and> got = he_token e)"

definition sessionFromPath :: "hook_env \<Rightarrow> string \<Rightarrow> reply + (u32 \<times> string \<times> approval_mode)" where
  "sessionFromPath e path_sid =
     (case parse_uint 32 path_sid of
        None \<Rightarrow> Inl (RError 400 ''bad sid'')
      | Some n \<Rightarrow>
          let sid = word_of_nat n in
          case he_lookup e of
            None \<Rightarrow> Inr (sid, '''', ApprovalNotify)
          | Some lookup \<Rightarrow>
              (case lookup sid of
                 None \<Rightarrow> Inl (RError 404 ''unknown session'')
               | Some (tool, mode) \<Rightarrow> Inr (sid, tool, if mode = ModeOther '''' then ApprovalNotify else mode)))"

text \<open>What a handler leaves: a reply, or a request blocked on a channel for its key.\<close>

datatype outcome = Reply reply | Blocked string nat

type_synonym handled = "hook_store \<times> hook_event list \<times> outcome"

definition hook_state :: "u32 \<Rightarrow> session_state \<Rightarrow> need_kind \<Rightarrow> hook_event" where
  "hook_state sid st k = EvState sid st k SourceHook ConfidenceHigh"

abbreviation no_kind :: need_kind where "no_kind \<equiv> NeedOther ''''"

section \<open>Permission requests\<close>

definition remote_first_timeout :: "hook_env \<Rightarrow> duration" where
  "remote_first_timeout e = (if he_timeout e \<le> 0 then 3600 * second else he_timeout e)"

definition permission_approval ::
  "hook_env \<Rightarrow> u32 \<Rightarrow> approval_mode \<Rightarrow> claude_input \<Rightarrow> instant \<Rightarrow> approval" where
  "permission_approval e sid mode i now =
     (let level = (if mode = ApprovalRemoteFirst then LevelHook else LevelKeys) in
      \<lparr>ap_key = ApprovalKey (he_sha256 e) (he_canon e) (ci_session_id i) (ci_tool_name i) (ci_tool_input i),
       ap_sid = sid, ap_device_id = '''', ap_agent = ToolClaude, ap_tool = ci_tool_name i,
       ap_summary = Summary (he_decode e) (ci_tool_name i) (ci_tool_input i), ap_input = ci_tool_input i,
       ap_cwd = ci_cwd i, ap_level = level, ap_mode = mode, ap_created_at = now,
       ap_hook_timeout_at = (if level = LevelHook then Some (now + remote_first_timeout e) else None),
       ap_status = StatusOther '''', ap_decided_by = '''', ap_decided_at = None\<rparr>)"

definition permissionRequest ::
  "hook_env \<Rightarrow> u32 \<Rightarrow> approval_mode \<Rightarrow> claude_input \<Rightarrow> instant \<Rightarrow> hook_store \<Rightarrow> handled" where
  "permissionRequest e sid mode i now s =
     (let a = permission_approval e sid mode i now;
          (s, stored, dup) = store_Add now a s;
          evs = [hook_state sid StateNeedsInput NeedPermission] @ (if dup then [] else [EvApprovalNew stored])
      in if ap_level a \<noteq> LevelHook then (s, evs, Reply REmpty)
         else case store_wait (ap_key stored) s of
           None \<Rightarrow> (s, evs, Reply REmpty)
         | Some c \<Rightarrow> (s, evs, Blocked (ap_key stored) c))"

text \<open>
  The three ways a blocked request goes on: a receive from its channel, which waits while the
  channel is empty; the timeout; and the end of the request's context.
\<close>

definition permission_receive :: "nat \<Rightarrow> hook_store \<Rightarrow> (hook_store \<times> hook_event list \<times> reply) option" where
  "permission_receive c s =
     (case chan_recv c s of
        None \<Rightarrow> None
      | Some (d, s) \<Rightarrow>
          Some (s, [], if dc_decision d = ''allow'' \<or> dc_decision d = ''deny''
            then NewPermissionDecision (dc_decision d) (''decided via terminalX by '' @ dc_by d) else REmpty))"

definition permission_giveup :: "string \<Rightarrow> bool \<Rightarrow> instant \<Rightarrow> hook_store \<Rightarrow> hook_store \<times> hook_event list \<times> reply" where
  "permission_giveup key timed_out now s =
     (let (s, r) = store_Close key ApprovalFallback ''timeout'' now s
      in (s, (case r of None \<Rightarrow> [] | Some a \<Rightarrow> [EvApprovalClosed a ''timeout'']),
          if timed_out then REmpty else RNothing))"

section \<open>The other handlers\<close>

definition closeStale :: "u32 \<Rightarrow> instant \<Rightarrow> hook_store \<Rightarrow> hook_store \<times> hook_event list" where
  "closeStale sid now s =
     (let (s, out) = CloseSession sid ApprovalClosedLocal ''local'' now s
      in (s, map (\<lambda>a. EvApprovalClosed a ''local'') out))"

definition close_tool_use :: "hook_env \<Rightarrow> claude_input \<Rightarrow> instant \<Rightarrow> hook_store \<Rightarrow> hook_store \<times> hook_event list" where
  "close_tool_use e i now s =
     (let key = ApprovalKey (he_sha256 e) (he_canon e) (ci_session_id i) (ci_tool_name i) (ci_tool_input i);
          (s, r) = store_Close key ApprovalClosedLocal ''local'' now s
      in (s, (case r of None \<Rightarrow> [] | Some a \<Rightarrow> [EvApprovalClosed a ''local''])))"

definition notification ::
  "hook_env \<Rightarrow> u32 \<Rightarrow> approval_mode \<Rightarrow> claude_input \<Rightarrow> instant \<Rightarrow> hook_store \<Rightarrow> hook_store \<times> hook_event list" where
  "notification e sid mode i now s =
     (let nt = ci_notification_type i in
      if nt = ''permission_prompt'' then (s, [hook_state sid StateNeedsInput NeedPermission])
      else if nt = ''idle_prompt'' then (s, [hook_state sid StateIdle no_kind])
      else if nt \<in> {''agent_needs_input'', ''elicitation_dialog'', ''elicitation_url_dialog''} then
        let summary = ci_message i;
            summary = (if summary = '''' then ci_title i else summary);
            summary = (if summary = '''' then nt else summary);
            a = \<lparr>ap_key = ApprovalKey (he_sha256 e) (he_canon e) (ci_session_id i) (''notification:'' @ nt) (he_quote e summary),
                 ap_sid = sid, ap_device_id = '''', ap_agent = ToolClaude, ap_tool = nt, ap_summary = summary,
                 ap_input = '''', ap_cwd = ci_cwd i, ap_level = LevelKeys, ap_mode = mode, ap_created_at = now,
                 ap_hook_timeout_at = None, ap_status = StatusOther '''', ap_decided_by = '''', ap_decided_at = None\<rparr>;
            (s, stored, dup) = store_Add now a s
        in (s, [hook_state sid StateNeedsInput NeedQuestion] @ (if dup then [] else [EvApprovalNew stored]))
      else if nt \<in> {''quota_auto_resume_fired'', ''quota_auto_resume_stale'', ''quota_auto_resume_disabled''}
        then (s, [hook_state sid StateQuotaWait no_kind])
      else (s, []))"

definition claude_event ::
  "hook_env \<Rightarrow> u32 \<Rightarrow> approval_mode \<Rightarrow> claude_input \<Rightarrow> instant \<Rightarrow> hook_store \<Rightarrow> handled" where
  "claude_event e sid mode i now s =
     (let ev = ci_hook_event_name i in
      if ev = ''SessionStart'' \<or> ev = ''UserPromptSubmit'' then (s, [hook_state sid StateRunning no_kind], Reply REmpty)
      else if ev = ''PermissionRequest'' then permissionRequest e sid mode i now s
      else if ev = ''PostToolUse'' then
        let (s, evs) = close_tool_use e i now s in (s, evs @ [hook_state sid StateRunning no_kind], Reply REmpty)
      else if ev = ''Notification'' then
        let (s, evs) = notification e sid mode i now s in (s, evs, Reply REmpty)
      else if ev = ''Stop'' then
        let (s, evs) = closeStale sid now s in (s, evs @ [hook_state sid StateIdle no_kind], Reply REmpty)
      else if ev = ''StopFailure'' then
        let (s, evs) = closeStale sid now s in (s, evs @ [hook_state sid StateFailed no_kind], Reply REmpty)
      else if ev = ''SessionEnd'' then
        let (s, evs) = closeStale sid now s
        in (s, evs @ [EvToolExited sid, hook_state sid StateIdle no_kind], Reply REmpty)
      else (s, [], Reply REmpty))"

definition body_input :: "string \<Rightarrow> claude_input body \<Rightarrow> claude_input option" where
  "body_input event b =
     (case (case b of EmptyBody \<Rightarrow> Some no_input | BadJSON \<Rightarrow> None | Body i \<Rightarrow> Some i) of
        None \<Rightarrow> None
      | Some i \<Rightarrow> Some (if ci_hook_event_name i = '''' then i\<lparr>ci_hook_event_name := event\<rparr> else i))"

definition handleClaude ::
  "hook_env \<Rightarrow> string \<Rightarrow> string \<Rightarrow> claude_input body \<Rightarrow> instant \<Rightarrow> hook_store \<Rightarrow> handled" where
  "handleClaude e path_sid event b now s =
     (case sessionFromPath e path_sid of
        Inl r \<Rightarrow> (s, [], Reply r)
      | Inr (sid, tool, mode) \<Rightarrow>
          (case body_input event b of
             None \<Rightarrow> (s, [], Reply (RError 400 ''bad json''))
           | Some i \<Rightarrow>
               let bound = (if ci_session_id i \<noteq> '''' then [EvToolSession sid ToolClaude (ci_session_id i)] else []);
                   (s, evs, out) = claude_event e sid mode i now s
               in (s, bound @ evs, out)))"

record status_line =
  sl_cost :: "float64 option"
  sl_used :: "float64 option"

definition handleStatusLine :: "hook_env \<Rightarrow> string \<Rightarrow> status_line body \<Rightarrow> hook_event list \<times> reply" where
  "handleStatusLine e path_sid b =
     (case sessionFromPath e path_sid of
        Inl r \<Rightarrow> ([], r)
      | Inr (sid, tool, mode) \<Rightarrow>
          (case b of Body i \<Rightarrow> ([EvUpdated sid (sl_cost i) (sl_used i)], RNoContent)
           | _ \<Rightarrow> ([], RError 400 ''bad json'')))"

record codex_notify =
  cn_type :: string
  cn_thread_id :: string

definition handleCodexNotify :: "hook_env \<Rightarrow> string \<Rightarrow> codex_notify body \<Rightarrow> hook_event list \<times> reply" where
  "handleCodexNotify e path_sid b =
     (case sessionFromPath e path_sid of
        Inl r \<Rightarrow> ([], r)
      | Inr (sid, tool, mode) \<Rightarrow>
          (case b of
             Body n \<Rightarrow>
               ((if cn_thread_id n \<noteq> '''' then [EvToolSession sid ToolCodex (cn_thread_id n)] else [])
                @ (if cn_type n = ''agent-turn-complete'' \<or> cn_type n = ''''
                   then [EvState sid StateIdle no_kind SourceNotify ConfidenceHigh] else []), REmpty)
           | _ \<Rightarrow> ([], RError 400 ''bad json'')))"

definition codex_approval :: "hook_env \<Rightarrow> u32 \<Rightarrow> approval_mode \<Rightarrow> claude_input \<Rightarrow> instant \<Rightarrow> approval" where
  "codex_approval e sid mode i now =
     \<lparr>ap_key = ApprovalKey (he_sha256 e) (he_canon e) (ci_session_id i) (ci_tool_name i) (ci_tool_input i),
      ap_sid = sid, ap_device_id = '''', ap_agent = ToolCodex, ap_tool = ci_tool_name i,
      ap_summary = Summary (he_decode e) (ci_tool_name i) (ci_tool_input i), ap_input = ci_tool_input i,
      ap_cwd = ci_cwd i, ap_level = LevelKeys, ap_mode = mode, ap_created_at = now,
      ap_hook_timeout_at = None, ap_status = StatusOther '''', ap_decided_by = '''', ap_decided_at = None\<rparr>"

definition codex_event ::
  "hook_env \<Rightarrow> u32 \<Rightarrow> approval_mode \<Rightarrow> claude_input \<Rightarrow> instant \<Rightarrow> hook_store \<Rightarrow> hook_store \<times> hook_event list" where
  "codex_event e sid mode i now s =
     (let ev = ci_hook_event_name i; state = (\<lambda>st k. EvState sid st k SourceHooksJSON ConfidenceHigh) in
      if ev = ''SessionStart'' then
        (s, (if ci_session_id i \<noteq> '''' then [EvToolSession sid ToolCodex (ci_session_id i)] else [])
            @ [state StateRunning no_kind])
      else if ev = ''UserPromptSubmit'' \<or> ev = ''PreToolUse'' then (s, [state StateRunning no_kind])
      else if ev = ''PermissionRequest'' then
        let (s, stored, dup) = store_Add now (codex_approval e sid mode i now) s
        in (s, [state StateNeedsInput NeedPermission] @ (if dup then [] else [EvApprovalNew stored]))
      else if ev = ''PostToolUse'' then
        let (s, evs) = close_tool_use e i now s in (s, evs @ [state StateRunning no_kind])
      else if ev = ''Stop'' then (s, [state StateIdle no_kind])
      else if ev = ''SessionEnd'' then
        let (s, evs) = closeStale sid now s in (s, evs @ [EvToolExited sid, state StateIdle no_kind])
      else (s, []))"

definition handleCodexHook ::
  "hook_env \<Rightarrow> string \<Rightarrow> string \<Rightarrow> claude_input body \<Rightarrow> instant \<Rightarrow> hook_store \<Rightarrow> hook_store \<times> hook_event list \<times> reply" where
  "handleCodexHook e path_sid event b now s =
     (case sessionFromPath e path_sid of
        Inl r \<Rightarrow> (s, [], r)
      | Inr (sid, tool, mode) \<Rightarrow>
          (case body_input event b of
             None \<Rightarrow> (s, [], RError 400 ''bad json'')
           | Some i \<Rightarrow> let (s, evs) = codex_event e sid mode i now s in (s, evs, REmpty)))"

section \<open>A dead channel\<close>

text \<open>
  A channel that is empty and belongs to no pending approval stays so, whatever happens to the
  store, because a new request gets a new channel.
\<close>

definition dead_channel :: "nat \<Rightarrow> hook_store \<Rightarrow> bool" where
  "dead_channel c s \<longleftrightarrow> store_ok s \<and> c < hs_next s \<and> mget (hs_chans s) c = Some None
     \<and> (\<forall>k p. mget (hs_items s) k = Some p \<longrightarrow> pi_ch p = Some c \<longrightarrow> ap_status (pi_a p) \<noteq> ApprovalPending)"

lemma dead_settle:
  assumes dead: "dead_channel c s" and st: "st \<noteq> ApprovalPending"
  shows "dead_channel c (fst (settle key st by d now s))"
proof (cases rule: settle_cases [of key st "by" d now s])
  case no
  then show ?thesis using dead by simp
next
  case (settled p)
  have ok: "store_ok s"
    using dead by (simp add: dead_channel_def)
  have "pi_ch p \<noteq> Some c"
    using dead settled(1,2) by (auto simp: dead_channel_def)
  moreover have "store_ok (fst (settle key st by d now s))"
    by (rule settle_ok [OF ok st])
  ultimately show ?thesis
    using dead by (auto simp: dead_channel_def settled(3) chan_send_def split: option.splits)
qed

lemma dead_add: "dead_channel c s \<Longrightarrow> dead_channel c (fst (store_Add now a s))"
proof -
  assume dead: "dead_channel c s"
  then have "store_ok (fst (store_Add now a s))"
    by (simp add: dead_channel_def Add_ok)
  with dead show ?thesis
    by (cases rule: Add_cases [of s a now]) (auto simp: dead_channel_def)
qed

lemma dead_close_keys:
  "dead_channel c s \<Longrightarrow> st \<noteq> ApprovalPending \<Longrightarrow> dead_channel c (fst (close_keys ks st by now s))"
  by (induction ks arbitrary: s) (simp_all add: case_prod_beta store_Close_def dead_settle)

lemma dead_step: "store_step s s' \<Longrightarrow> dead_channel c s \<Longrightarrow> dead_channel c s'"
proof (induction rule: store_step.induct)
  case (act x s)
  then show ?case
    by (cases x) (auto simp: store_Decide_def store_Close_def terminal_def dead_settle)
next
  case (sweep s maxAge now)
  have "store_ok (store_Sweep maxAge now s)" "mwf (hs_items s)"
    using sweep Sweep_ok by (auto simp: dead_channel_def store_ok_mwf)
  with sweep show ?case
    by (auto simp: dead_channel_def store_Sweep_def mget_filter split: option.splits if_splits)
next
  case (recv c' s d s')
  then have "store_ok s'"
    by (auto simp: dead_channel_def intro: recv_ok)
  with recv show ?case
    by (auto simp: dead_channel_def chan_recv_def split: option.splits if_splits)
qed (auto simp: dead_add CloseSession_def dead_close_keys)

lemma dead_steps: "store_step\<^sup>*\<^sup>* s s' \<Longrightarrow> dead_channel c s \<Longrightarrow> dead_channel c s'"
  by (induction rule: rtranclp_induct) (auto intro: dead_step)

lemma dead_receive: "dead_channel c s \<Longrightarrow> permission_receive c s = None"
  by (simp add: dead_channel_def permission_receive_def chan_recv_def)

section \<open>The endpoint as a whole\<close>

text \<open>
  The store, the requests that are blocked, the replies given to permission requests with their
  key, the decisions accepted so far, and the key each channel was made for.
\<close>

record hook_sys =
  hy_store :: hook_store
  hy_blocked :: "(string \<times> nat) list"
  hy_replies :: "(string \<times> reply) list"
  hy_decided :: "(string \<times> string \<times> string) list"
  hy_owner :: "nat \<Rightarrow> string"

definition own_new :: "hook_store \<Rightarrow> string \<Rightarrow> (nat \<Rightarrow> string) \<Rightarrow> nat \<Rightarrow> string" where
  "own_new s key owner = owner(hs_next s := key)"

inductive hook_step :: "hook_sys \<Rightarrow> hook_sys \<Rightarrow> bool" where
  request: "permissionRequest e sid mode i now (hy_store y) = (s, evs, out) \<Longrightarrow>
    hook_step y (y\<lparr>hy_store := s,
      hy_owner := own_new (hy_store y) (ap_key (permission_approval e sid mode i now)) (hy_owner y),
      hy_blocked := (case out of Blocked k c \<Rightarrow> (k, c) # hy_blocked y | Reply _ \<Rightarrow> hy_blocked y)\<rparr>)"
| receive: "(k, c) \<in> set (hy_blocked y) \<Longrightarrow> permission_receive c (hy_store y) = Some (s, evs, r) \<Longrightarrow>
    hook_step y (y\<lparr>hy_store := s, hy_blocked := remove1 (k, c) (hy_blocked y), hy_replies := (k, r) # hy_replies y\<rparr>)"
| giveup: "(k, c) \<in> set (hy_blocked y) \<Longrightarrow> permission_giveup k timed_out now (hy_store y) = (s, evs, r) \<Longrightarrow>
    hook_step y (y\<lparr>hy_store := s, hy_blocked := remove1 (k, c) (hy_blocked y), hy_replies := (k, r) # hy_replies y\<rparr>)"
| decide: "store_Decide k d by now (hy_store y) = (s, r) \<Longrightarrow>
    hook_step y (y\<lparr>hy_store := s, hy_decided := (if r = None then hy_decided y else (k, d, by) # hy_decided y)\<rparr>)"
| add: "hook_step y (y\<lparr>hy_store := fst (store_Add now a (hy_store y)),
      hy_owner := own_new (hy_store y) (ap_key a) (hy_owner y)\<rparr>)"
| close: "st \<noteq> ApprovalPending \<Longrightarrow> hook_step y (y\<lparr>hy_store := fst (store_Close k st by now (hy_store y))\<rparr>)"
| close_session: "st \<noteq> ApprovalPending \<Longrightarrow>
    hook_step y (y\<lparr>hy_store := fst (CloseSession sid st by now (hy_store y))\<rparr>)"
| sweep: "hook_step y (y\<lparr>hy_store := store_Sweep maxAge now (hy_store y)\<rparr>)"

definition hook_start :: hook_sys where
  "hook_start = \<lparr>hy_store = NewStore, hy_blocked = [], hy_replies = [], hy_decided = [], hy_owner = (\<lambda>_. '''')\<rparr>"

inductive_cases hook_stepE: "hook_step y y'"

lemmas hook_step_elim = hook_stepE [consumes 1, case_names request receive giveup decide add close close_session sweep]

text \<open>
  The invariant: channels of items and of blocked requests belong to their key, what lies in a
  channel is no decision or one accepted for its key, and every verdict given was accepted.
\<close>

definition chans_ok :: "hook_store \<Rightarrow> (nat \<Rightarrow> string) \<Rightarrow> (string \<times> string \<times> string) list \<Rightarrow> bool" where
  "chans_ok s owner decided \<longleftrightarrow>
     (\<forall>k p c. mget (hs_items s) k = Some p \<longrightarrow> pi_ch p = Some c \<longrightarrow> owner c = k)
     \<and> (\<forall>c d. mget (hs_chans s) c = Some (Some d) \<longrightarrow> c < hs_next s
          \<and> (d = \<lparr>dc_decision = '''', dc_by = ''''\<rparr> \<or> (owner c, dc_decision d, dc_by d) \<in> set decided))"

definition blocked_ok :: "hook_store \<Rightarrow> (nat \<Rightarrow> string) \<Rightarrow> (string \<times> nat) list \<Rightarrow> bool" where
  "blocked_ok s owner bl \<longleftrightarrow> (\<forall>(k, c) \<in> set bl. owner c = k \<and> c < hs_next s)"

definition decided_as :: "(string \<times> string \<times> string) list \<Rightarrow> string \<Rightarrow> string \<Rightarrow> string \<Rightarrow> bool" where
  "decided_as decided k d m \<longleftrightarrow> (d = ''allow'' \<or> d = ''deny'')
     \<and> (\<exists>(k', d', by) \<in> set decided. k' = k \<and> d' = d \<and> m = ''decided via terminalX by '' @ by)"

fun reply_ok :: "(string \<times> string \<times> string) list \<Rightarrow> string \<times> reply \<Rightarrow> bool" where
  "reply_ok decided (k, RDecision d m) \<longleftrightarrow> decided_as decided k d m"
| "reply_ok decided (k, r) \<longleftrightarrow> True"

definition hook_inv :: "hook_sys \<Rightarrow> bool" where
  "hook_inv y \<longleftrightarrow> store_ok (hy_store y) \<and> chans_ok (hy_store y) (hy_owner y) (hy_decided y)
     \<and> blocked_ok (hy_store y) (hy_owner y) (hy_blocked y) \<and> list_all (reply_ok (hy_decided y)) (hy_replies y)"

lemma chans_ok_mono: "chans_ok s owner decided \<Longrightarrow> set decided \<subseteq> set decided' \<Longrightarrow> chans_ok s owner decided'"
  unfolding chans_ok_def by blast

lemma Add_next: "hs_next s \<le> hs_next (fst (store_Add now a s))"
  by (cases rule: Add_cases [of s a now]) simp_all

lemma Add_chans:
  assumes ok: "store_ok s" and c: "chans_ok s owner decided"
  shows "chans_ok (fst (store_Add now a s)) (own_new s (ap_key a) owner) decided"
proof -
  have "owner c = k" "c \<noteq> hs_next s" if "mget (hs_items s) k = Some p" "pi_ch p = Some c" for k p c
    using c that store_okD(3) [OF ok that] unfolding chans_ok_def by (blast, simp)
  moreover have "c < hs_next s" "c < Suc (hs_next s)" if "mget (hs_chans s) c = Some (Some d)" for c d
    using c that unfolding chans_ok_def by (blast, simp add: less_Suc_eq)
  moreover from calculation(3) have "mget (hs_chans s) (hs_next s) \<noteq> Some (Some d)" for d
    by blast
  ultimately show ?thesis
    using c by (cases rule: Add_cases [of s a now]) (auto simp: chans_ok_def own_new_def)
qed

lemma settle_chans:
  assumes ok: "store_ok s" and c: "chans_ok s owner decided"
    and d: "snd (settle key st by d now s) \<noteq> None \<Longrightarrow>
      d = \<lparr>dc_decision = '''', dc_by = ''''\<rparr> \<or> (key, dc_decision d, dc_by d) \<in> set decided'"
    and sub: "set decided \<subseteq> set decided'"
  shows "chans_ok (fst (settle key st by d now s)) owner decided' \<and> hs_next (fst (settle key st by d now s)) = hs_next s"
proof (cases rule: settle_cases [of key st "by" d now s])
  case no
  then show ?thesis using chans_ok_mono [OF c sub] by simp
next
  case (settled p)
  have "owner ch = key" "ch < hs_next s" if "pi_ch p = Some ch" for ch
    using c settled(1) that store_okD(3) [OF ok settled(1) that] unfolding chans_ok_def by (blast, simp)
  then show ?thesis
    using chans_ok_mono [OF c sub] d settled(1)
    by (auto simp: chans_ok_def settled(3) chan_send_def split: option.splits if_splits)
qed

lemma Close_chans:
  "store_ok s \<Longrightarrow> chans_ok s owner decided \<Longrightarrow>
   chans_ok (fst (store_Close key st by now s)) owner decided \<and> hs_next (fst (store_Close key st by now s)) = hs_next s"
  unfolding store_Close_def by (rule settle_chans) auto

lemma close_keys_chans:
  "store_ok s \<Longrightarrow> chans_ok s owner decided \<Longrightarrow> st \<noteq> ApprovalPending \<Longrightarrow>
   chans_ok (fst (close_keys ks st by now s)) owner decided \<and> hs_next (fst (close_keys ks st by now s)) = hs_next s"
proof (induction ks arbitrary: s)
  case (Cons k ks)
  note step = Close_chans [OF Cons.prems(1,2), of k st "by" now]
  from Cons.IH [OF Close_ok [OF Cons.prems(1,3)]] step Cons.prems(3) show ?case
    by (simp add: case_prod_beta)
qed simp

lemma Sweep_chans: "store_ok s \<Longrightarrow> chans_ok s owner decided \<Longrightarrow> chans_ok (store_Sweep maxAge now s) owner decided"
  by (auto simp: chans_ok_def store_Sweep_def mget_filter store_ok_mwf split: option.splits if_splits)


lemma recv_chans:
  assumes "chans_ok s owner decided" and "chan_recv c s = Some (d, s')"
  shows "chans_ok s' owner decided \<and> hs_next s' = hs_next s
    \<and> (d = \<lparr>dc_decision = '''', dc_by = ''''\<rparr> \<or> (owner c, dc_decision d, dc_by d) \<in> set decided)"
proof -
  have s': "mget (hs_chans s) c = Some (Some d)" "s' = s\<lparr>hs_chans := mput c None (hs_chans s)\<rparr>"
    using assms(2) by (auto simp: chan_recv_def split: option.splits)
  then have "mget (hs_chans s) c' = Some (Some d')" if "mget (hs_chans s') c' = Some (Some d')" for c' d'
    using that by (simp split: if_splits)
  moreover have "hs_items s' = hs_items s" "hs_next s' = hs_next s"
    by (simp_all add: s'(2))
  ultimately have "chans_ok s' owner decided"
    using assms(1) unfolding chans_ok_def by presburger
  moreover have "d = \<lparr>dc_decision = '''', dc_by = ''''\<rparr> \<or> (owner c, dc_decision d, dc_by d) \<in> set decided"
    using assms(1) s'(1) unfolding chans_ok_def by blast
  ultimately show ?thesis
    by (simp add: s'(2))
qed

lemma decided_mono: "decided_as decided k d m \<Longrightarrow> set decided \<subseteq> set decided' \<Longrightarrow> decided_as decided' k d m"
  unfolding decided_as_def by blast

lemma reply_mono: "reply_ok decided x \<Longrightarrow> set decided \<subseteq> set decided' \<Longrightarrow> reply_ok decided' x"
  by (cases x, cases "snd x") (auto intro: decided_mono)

lemma replies_mono:
  "list_all (reply_ok decided) rs \<Longrightarrow> set decided \<subseteq> set decided' \<Longrightarrow> list_all (reply_ok decided') rs"
  by (induction rs) (auto intro: reply_mono)

lemma blocked_mono: "blocked_ok s owner bl \<Longrightarrow> hs_next s \<le> hs_next s' \<Longrightarrow> blocked_ok s' owner bl"
  unfolding blocked_ok_def by fastforce

lemma blocked_own: "blocked_ok s owner bl \<Longrightarrow> blocked_ok s (own_new s k owner) bl"
  unfolding blocked_ok_def own_new_def by fastforce

lemma blocked_remove: "blocked_ok s owner bl \<Longrightarrow> blocked_ok s owner (remove1 x bl)"
  unfolding blocked_ok_def using set_remove1_subset [of x bl] by blast

lemma permissionRequest_store:
  "fst (permissionRequest e sid mode i now s) = fst (store_Add now (permission_approval e sid mode i now) s)"
  by (simp add: permissionRequest_def case_prod_beta Let_def split: option.splits)

lemma Add_key: "store_ok s \<Longrightarrow> ap_key (fst (snd (store_Add now a s))) = ap_key a"
  by (cases rule: Add_cases [of s a now]) (auto dest: store_okD)

lemma permissionRequest_blocked:
  assumes "permissionRequest e sid mode i now s = (s', evs, Blocked k c)" and "store_ok s"
  shows "k = ap_key (permission_approval e sid mode i now) \<and> store_wait k s' = Some c"
  using assms Add_key [OF assms(2), of now "permission_approval e sid mode i now"]
  by (auto simp: permissionRequest_def case_prod_beta Let_def split: if_splits option.splits)

lemma wait_ok:
  "store_ok s \<Longrightarrow> chans_ok s owner decided \<Longrightarrow> store_wait k s = Some c \<Longrightarrow> owner c = k \<and> c < hs_next s"
  by (auto simp: store_wait_def chans_ok_def dest: store_okD split: option.splits)


lemma blocked_cons: "blocked_ok s owner bl \<Longrightarrow> owner c = k \<Longrightarrow> c < hs_next s \<Longrightarrow> blocked_ok s owner ((k, c) # bl)"
  by (simp add: blocked_ok_def)

lemma own_new_same: "c < hs_next s \<Longrightarrow> own_new s k owner c = owner c"
  by (simp add: own_new_def)

lemma permission_receive_store:
  assumes "permission_receive c s = Some (s', evs, r)"
  obtains d where "chan_recv c s = Some (d, s')"
    and "r = (if dc_decision d = ''allow'' \<or> dc_decision d = ''deny''
            then RDecision (dc_decision d) (''decided via terminalX by '' @ dc_by d) else REmpty)"
  using assms by (auto simp: permission_receive_def NewPermissionDecision_def split: option.splits)

lemma hook_step_inv:
  assumes "hook_step y y'" and inv: "hook_inv y"
  shows "hook_inv y'"
proof -
  from inv have ok: "store_ok (hy_store y)" and ch: "chans_ok (hy_store y) (hy_owner y) (hy_decided y)"
    and bl: "blocked_ok (hy_store y) (hy_owner y) (hy_blocked y)" and rp: "list_all (reply_ok (hy_decided y)) (hy_replies y)"
    by (auto simp: hook_inv_def)
  note bl' = blocked_mono [OF blocked_own [OF bl]] and ch' = Add_chans [OF ok ch]
  from assms(1) show ?thesis
  proof (cases rule: hook_step_elim)
    case (request e sid mode i now s evs out)
    let ?k = "ap_key (permission_approval e sid mode i now)"
    have s: "s = fst (store_Add now (permission_approval e sid mode i now) (hy_store y))"
      using permissionRequest_store [of e sid mode i now "hy_store y"] request(2) by simp
    have ok': "store_ok s" and c': "chans_ok s (own_new (hy_store y) ?k (hy_owner y)) (hy_decided y)"
      and b': "blocked_ok s (own_new (hy_store y) ?k (hy_owner y)) (hy_blocked y)"
      using Add_ok [OF ok] ch' bl' Add_next unfolding s by blast+
    have "blocked_ok s (own_new (hy_store y) ?k (hy_owner y))
        (case out of Blocked k c \<Rightarrow> (k, c) # hy_blocked y | Reply _ \<Rightarrow> hy_blocked y)"
    proof (cases out)
      case (Blocked k c)
      with permissionRequest_blocked [OF request(2) [unfolded Blocked] ok] wait_ok [OF ok' c']
      have "own_new (hy_store y) ?k (hy_owner y) c = k \<and> c < hs_next s" by blast
      with b' Blocked show ?thesis by (simp add: blocked_ok_def)
    qed (simp add: b')
    with ok' c' rp show ?thesis by (simp add: request(1) hook_inv_def)
  next
    case (receive k c s evs r)
    from receive(3) obtain d where d: "chan_recv c (hy_store y) = Some (d, s)" "r = (if dc_decision d = ''allow'' \<or> dc_decision d = ''deny''
            then RDecision (dc_decision d) (''decided via terminalX by '' @ dc_by d) else REmpty)"
      by (rule permission_receive_store)
    have "hy_owner y c = k"
      using bl receive(2) by (auto simp: blocked_ok_def)
    with recv_chans [OF ch d(1)] recv_ok [OF ok d(1)] bl rp show ?thesis
      by (auto simp: receive(1) hook_inv_def d(2) decided_as_def intro: blocked_remove blocked_mono)
  next
    case (giveup k c timed_out now s evs r)
    then have "s = fst (store_Close k ApprovalFallback ''timeout'' now (hy_store y))" "reply_ok (hy_decided y) (k, r)"
      by (auto simp: permission_giveup_def case_prod_beta)
    moreover have "store_ok s" "chans_ok s (hy_owner y) (hy_decided y) \<and> hs_next s = hs_next (hy_store y)"
      using Close_ok [OF ok] Close_chans [OF ok ch] by (simp_all add: calculation(1))
    ultimately show ?thesis
      using bl rp by (simp add: giveup(1) hook_inv_def blocked_remove blocked_mono)
  next
    case (decide k d "by" now s r)
    let ?dec = "if r = None then hy_decided y else (k, d, by) # hy_decided y"
    have s: "s = fst (store_Decide k d by now (hy_store y))" and r: "r = snd (store_Decide k d by now (hy_store y))"
      using decide(2) by simp_all
    have "chans_ok s (hy_owner y) ?dec \<and> hs_next s = hs_next (hy_store y)"
      unfolding s store_Decide_def
      by (rule settle_chans [OF ok ch]) (auto simp: r store_Decide_def)
    moreover have "store_ok s"
      using Decide_ok [OF ok] by (simp add: s)
    moreover have "set (hy_decided y) \<subseteq> set ?dec"
      by auto
    ultimately show ?thesis
      using bl replies_mono [OF rp] by (simp add: decide(1) hook_inv_def blocked_mono)
  next
    case (add now a)
    then show ?thesis
      using Add_ok [OF ok] ch' bl' Add_next rp by (simp add: hook_inv_def)
  next
    case (close st k "by" now)
    then show ?thesis
      using Close_ok [OF ok] Close_chans [OF ok ch, of k st "by" now] bl rp by (simp add: hook_inv_def blocked_mono)
  next
    case (close_session st sid "by" now)
    then show ?thesis
      using CloseSession_ok [OF ok] close_keys_chans [OF ok ch] bl rp
      by (simp add: hook_inv_def blocked_mono CloseSession_def)
  next
    case (sweep maxAge now)
    moreover have "hs_next (store_Sweep maxAge now (hy_store y)) = hs_next (hy_store y)"
      by (simp add: store_Sweep_def)
    ultimately show ?thesis
      using Sweep_ok [OF ok] Sweep_chans [OF ok ch] bl rp by (simp add: hook_inv_def blocked_mono)
  qed
qed

lemma hook_reachable_inv: "hook_step\<^sup>*\<^sup>* hook_start y \<Longrightarrow> hook_inv y"
proof (induction rule: rtranclp_induct)
  case base
  show ?case by (simp add: hook_inv_def hook_start_def chans_ok_def blocked_ok_def NewStore_def) (simp add: NewStore_def [symmetric])
qed (rule hook_step_inv)


section \<open>Properties\<close>


definition hook_demo_env :: hook_env where
  "hook_demo_env = \<lparr>he_token = ''t'', he_lookup = None, he_timeout = 0, he_sha256 = (\<lambda>s. bytes_of (take 4 s)),
     he_canon = (\<lambda>s. s), he_decode = (\<lambda>_. None), he_quote = (\<lambda>s. s)\<rparr>"

definition hook_demo_input :: claude_input where
  "hook_demo_input = no_input\<lparr>ci_session_id := ''sess'', ci_tool_name := ''Bash'', ci_hook_event_name := ''PermissionRequest''\<rparr>"

definition hook_demo_key :: string where
  "hook_demo_key = ap_key (permission_approval hook_demo_env 7 ApprovalRemoteFirst hook_demo_input 1)"

abbreviation demo_request :: "instant \<Rightarrow> hook_store \<Rightarrow> handled" where
  "demo_request now s \<equiv> permissionRequest hook_demo_env 7 ApprovalRemoteFirst hook_demo_input now s"

lemma demo_level: "ap_level (permission_approval e sid ApprovalRemoteFirst i now) = LevelHook"
  by (simp add: permission_approval_def Let_def)

lemma key_same: "ap_key (permission_approval e sid mode i now) = ap_key (permission_approval e sid mode' i now')"
  by (simp add: permission_approval_def Let_def)

lemma created_at: "ap_created_at (permission_approval e sid mode i now) = now"
  by (simp add: permission_approval_def Let_def)

text \<open>A first request opens a channel; a second one within the window waits on the same.\<close>

lemma first_request:
  assumes "store_Get (ap_key (permission_approval e sid ApprovalRemoteFirst i now)) s = None"
  defines "s1 \<equiv> fst (permissionRequest e sid ApprovalRemoteFirst i now s)"
  shows "snd (snd (permissionRequest e sid ApprovalRemoteFirst i now s)) =
      Blocked (ap_key (permission_approval e sid ApprovalRemoteFirst i now)) (hs_next s)"
    and "mget (hs_items s1) (ap_key (permission_approval e sid ApprovalRemoteFirst i now)) =
      Some \<lparr>pi_a = (permission_approval e sid ApprovalRemoteFirst i now)\<lparr>ap_status := ApprovalPending\<rparr>, pi_ch = Some (hs_next s)\<rparr>"
    and "mget (hs_chans s1) (hs_next s) = Some None" and "hs_next s1 = hs_next s + 1"
  using assms by (simp_all add: permissionRequest_def store_Add_def store_dup_def store_Get_def demo_level
      store_wait_def Let_def split: option.splits)

lemma second_request:
  assumes "mget (hs_items s) (ap_key (permission_approval e sid ApprovalRemoteFirst i now')) = Some \<lparr>pi_a = a, pi_ch = Some c\<rparr>"
    and "ap_key a = ap_key (permission_approval e sid ApprovalRemoteFirst i now')"
    and "ap_status a = ApprovalPending" and "time_sub now' (ap_created_at a) < dedupe_window"
  shows "permissionRequest e sid ApprovalRemoteFirst i now' s =
    (s, [hook_state sid StateNeedsInput NeedPermission], Blocked (ap_key a) c)"
  using assms by (simp add: permissionRequest_def store_Add_def store_dup_def demo_level store_wait_def Let_def)


lemma decided_receive:
  assumes ok: "store_ok s" and p: "mget (hs_items s) key = Some p" "ap_status (pi_a p) = ApprovalPending" "pi_ch p = Some c"
  obtains s' r where "permission_receive c (fst (store_Decide key d by now s)) = Some (s', [], r)" "dead_channel c s'"
    "r = (if d = ''allow'' \<or> d = ''deny'' then RDecision d (''decided via terminalX by '' @ by) else REmpty)"
proof -
  let ?s = "fst (store_Decide key d by now s)" and ?d = "\<lparr>dc_decision = d, dc_by = by\<rparr>"
  have full: "mget (hs_chans ?s) c = Some (Some ?d)"
    using settle_sends [OF ok p] p(1,2) by (simp add: store_Decide_def settle_def Let_def)
  let ?s' = "?s\<lparr>hs_chans := mput c None (hs_chans ?s)\<rparr>"
  have recv: "chan_recv c ?s = Some (?d, ?s')"
    by (simp add: chan_recv_def full)
  have items: "mget (hs_items ?s) k' = Some p' \<Longrightarrow> pi_ch p' = Some c \<Longrightarrow> ap_status (pi_a p') \<noteq> ApprovalPending" for k' p'
    using store_okD(4) [OF Decide_ok [OF ok]] full by fastforce
  have "hs_next ?s = hs_next s"
    by (cases rule: settle_cases [of key "if d = ''allow'' then ApprovalAllowed else ApprovalDenied" "by" ?d now s])
       (simp_all add: store_Decide_def chan_send_def split: option.splits)
  then have "dead_channel c ?s'"
    using recv_ok [OF Decide_ok [OF ok] recv] items store_okD(3) [OF ok p(1,3)] by (auto simp: dead_channel_def)
  moreover have "permission_receive c ?s = Some (?s', [],
      if d = ''allow'' \<or> d = ''deny'' then RDecision d (''decided via terminalX by '' @ by) else REmpty)"
    by (simp add: permission_receive_def recv NewPermissionDecision_def)
  ultimately show ?thesis using that by blast
qed

text \<open>A repeated permission request starves: when the same request is made twice within the
  duplicate window, both handlers wait on one channel; a decision wakes one of them, with its
  verdict, and from then on, whatever happens to the store, the other never receives anything,
  so that it stays blocked until its own timeout.\<close>

theorem duplicate_request_starves:
  assumes "store_reachable s" and "store_Get (ap_key (permission_approval e sid ApprovalRemoteFirst i now)) s = None"
    and "time_sub now' now < dedupe_window"
  shows "\<exists>c. let key = ap_key (permission_approval e sid ApprovalRemoteFirst i now);
        (s1, evs1, out1) = permissionRequest e sid ApprovalRemoteFirst i now s;
        (s2, evs2, out2) = permissionRequest e sid ApprovalRemoteFirst i now' s1
      in out1 = Blocked key c \<and> out2 = Blocked key c
       \<and> (\<exists>s3. permission_receive c (fst (store_Decide key ''allow'' by t s2))
                = Some (s3, [], RDecision ''allow'' (''decided via terminalX by '' @ by))
            \<and> (\<forall>s4. store_step\<^sup>*\<^sup>* s3 s4 \<longrightarrow> permission_receive c s4 = None))"
proof -
  let ?r1 = "permissionRequest e sid ApprovalRemoteFirst i now s" and ?a = "permission_approval e sid ApprovalRemoteFirst i now"
  note first = first_request [OF assms(2)]
  have same: "ap_key (permission_approval e sid ApprovalRemoteFirst i now') = ap_key ?a"
    by (rule key_same)
  have second: "permissionRequest e sid ApprovalRemoteFirst i now' (fst ?r1) =
      (fst ?r1, [hook_state sid StateNeedsInput NeedPermission], Blocked (ap_key ?a) (hs_next s))"
    using second_request [of "fst ?r1" e sid i now', unfolded same, OF first(2)] assms(3) by (simp add: created_at)
  have "store_ok (fst ?r1)"
    using store_reachable_ok [OF assms(1)] by (simp add: permissionRequest_store Add_ok)
  from decided_receive [OF this first(2), of "hs_next s" "''allow''" "by" t]
  obtain s3 where "permission_receive (hs_next s) (fst (store_Decide (ap_key ?a) ''allow'' by t (fst ?r1)))
      = Some (s3, [], RDecision ''allow'' (''decided via terminalX by '' @ by))" "dead_channel (hs_next s) s3"
    by auto
  then show ?thesis
    using first(1) second dead_steps dead_receive by (auto simp: case_prod_beta intro!: exI [of _ "hs_next s"])
qed

theorem duplicate_request_starves_witness:
  "\<exists>c s3. snd (snd (demo_request 1 NewStore)) = Blocked hook_demo_key c
     \<and> snd (snd (demo_request 2 (fst (demo_request 1 NewStore)))) = Blocked hook_demo_key c
     \<and> permission_receive c (fst (store_Decide hook_demo_key ''allow'' ''web:c1'' 3 (fst (demo_request 2 (fst (demo_request 1 NewStore))))))
         = Some (s3, [], RDecision ''allow'' ''decided via terminalX by web:c1'')
     \<and> permission_receive c s3 = None"
proof -
  have "store_reachable NewStore" "store_Get hook_demo_key NewStore = None" "time_sub 2 1 < dedupe_window"
    by (simp_all add: store_reachable_def store_Get_def NewStore_def dedupe_window_def duration_defs time_sub_def duration_max_def)
  from duplicate_request_starves [OF this(1,2) [unfolded hook_demo_key_def] this(3), of "''web:c1''" 3]
  show ?thesis
    unfolding hook_demo_key_def Let_def case_prod_beta by fastforce
qed

text \<open>A run of the endpoint: a request, its decision and the receive of the verdict.\<close>

lemma demo_run:
  "\<exists>y. hook_step\<^sup>*\<^sup>* hook_start y \<and> (hook_demo_key, RDecision ''deny'' ''decided via terminalX by cli'') \<in> set (hy_replies y)"
proof -
  let ?r = "demo_request 1 NewStore"
  let ?a = "permission_approval hook_demo_env 7 ApprovalRemoteFirst hook_demo_input 1"
  have "store_Get (ap_key ?a) NewStore = None"
    by (simp add: store_Get_def NewStore_def)
  note first = first_request [OF this]
  have r: "?r = (fst ?r, fst (snd ?r), Blocked hook_demo_key (hs_next NewStore))"
    using first(1) unfolding hook_demo_key_def by (metis prod.collapse)
  have start: "demo_request 1 (hy_store hook_start) = ?r"
    by (simp add: hook_start_def)
  have ok: "store_ok (fst ?r)"
    by (simp add: permissionRequest_store Add_ok)
  let ?d = "store_Decide hook_demo_key ''deny'' ''cli'' 2 (fst ?r)"
  have some: "snd ?d \<noteq> None"
    unfolding store_Decide_def settle_look(2) using first(2) by (simp add: hook_demo_key_def is_pending_def store_Get_def)
  from decided_receive [OF ok first(2), of "hs_next NewStore" "''deny''" "''cli''" 2]
  obtain s3 where s3: "permission_receive (hs_next NewStore) (fst ?d)
      = Some (s3, [], RDecision ''deny'' ''decided via terminalX by cli'')"
    by (auto simp: hook_demo_key_def)
  obtain y1 where y1: "hook_step hook_start y1" "hy_store y1 = fst ?r" "(hook_demo_key, hs_next NewStore) \<in> set (hy_blocked y1)"
    using hook_step.request [of hook_demo_env 7 ApprovalRemoteFirst hook_demo_input 1 hook_start, OF start [THEN trans, OF r]]
    by auto
  obtain y2 where y2: "hook_step y1 y2" "hy_store y2 = fst ?d" "hy_blocked y2 = hy_blocked y1"
    using hook_step.decide [of hook_demo_key "''deny''" "''cli''" 2 y1 "fst ?d" "snd ?d"] y1(2) by auto
  obtain y3 where "hook_step y2 y3" "(hook_demo_key, RDecision ''deny'' ''decided via terminalX by cli'') \<in> set (hy_replies y3)"
    using hook_step.receive [of hook_demo_key "hs_next NewStore" y2] y1(3) y2(2,3) s3 by auto
  with y1(1) y2(1) show ?thesis
    by (meson converse_rtranclp_into_rtranclp rtranclp.rtrancl_refl)
qed



text \<open>C30: The end of a turn settles the session's approvals: when Claude reports \<^verbatim>\<open>Stop\<close>,
  \<^verbatim>\<open>StopFailure\<close> or \<^verbatim>\<open>SessionEnd\<close>, every pending approval of this session, and nothing else in
  the store, becomes closed-local, one closing event is raised for each in their order, and
  the tool is not held up.\<close>

theorem tool_end_closes_approvals:
  assumes "store_reachable s" and "sessionFromPath e path_sid = Inr (sid, tool, mode)"
    and "body_input event b = Some i" and "ci_hook_event_name i \<in> {''Stop'', ''StopFailure'', ''SessionEnd''}"
    and "handleClaude e path_sid event b now s = (s', evs, out)"
  shows "out = Reply REmpty \<and> PendingForSession sid s' = []
    \<and> store_Get k s' = (case store_Get k s of None \<Rightarrow> None
        | Some a \<Rightarrow> Some (if ap_status a = ApprovalPending \<and> ap_sid a = sid
            then closed_as ApprovalClosedLocal ''local'' now a else a))
    \<and> filter (\<lambda>ev. case ev of EvApprovalClosed _ _ \<Rightarrow> True | _ \<Rightarrow> False) evs
        = map (\<lambda>a. EvApprovalClosed (closed_as ApprovalClosedLocal ''local'' now a) ''local'') (PendingForSession sid s)"
proof -
  note ok = store_reachable_ok [OF assms(1)]
  let ?c = "CloseSession sid ApprovalClosedLocal ''local'' now s"
  define pre where "pre = (if ci_session_id i \<noteq> '''' then [EvToolSession sid ToolClaude (ci_session_id i)] else [])"
  define post where "post = (if ci_hook_event_name i = ''Stop'' then [hook_state sid StateIdle no_kind]
      else if ci_hook_event_name i = ''StopFailure'' then [hook_state sid StateFailed no_kind]
      else [EvToolExited sid, hook_state sid StateIdle no_kind])"
  have *: "s' = fst ?c \<and> evs = pre @ map (\<lambda>a. EvApprovalClosed a ''local'') (snd ?c) @ post \<and> out = Reply REmpty"
    using assms(2-5) by (auto simp: handleClaude_def claude_event_def closeStale_def pre_def post_def case_prod_beta Let_def)
  have noev: "\<forall>ev \<in> set pre. \<forall>a by. ev \<noteq> EvApprovalClosed a by" "\<forall>ev \<in> set post. \<forall>a by. ev \<noteq> EvApprovalClosed a by"
    by (simp_all add: pre_def post_def hook_state_def)
  have none: "filter (\<lambda>ev. case ev of EvApprovalClosed _ _ \<Rightarrow> True | _ \<Rightarrow> False) xs = []"
    if "\<forall>ev \<in> set xs. \<forall>a by. ev \<noteq> EvApprovalClosed a by" for xs
    using that by (auto simp: filter_empty_conv split: hook_event.splits)
  have "filter (\<lambda>ev. case ev of EvApprovalClosed _ _ \<Rightarrow> True | _ \<Rightarrow> False) evs = map (\<lambda>a. EvApprovalClosed a ''local'') (snd ?c)"
    by (simp add: * none [OF noev(1)] none [OF noev(2)] filter_map o_def)
  then show ?thesis
    using CloseSession_none_pending [OF ok, of ApprovalClosedLocal] CloseSession_spec [OF ok] by (simp add: * o_def)
qed

theorem tool_end_closes_approvals_witness:
  "let s = fst (store_Add 1 demo_approval NewStore);
       i = hook_demo_input\<lparr>ci_hook_event_name := ''Stop''\<rparr>
   in PendingForSession 7 (fst (handleClaude hook_demo_env ''7'' ''Stop'' (Body i) 5 s)) = []
     \<and> snd (snd (handleClaude hook_demo_env ''7'' ''Stop'' (Body i) 5 s)) = Reply REmpty"
proof -
  let ?s = "fst (store_Add 1 demo_approval NewStore)" and ?i = "hook_demo_input\<lparr>ci_hook_event_name := ''Stop''\<rparr>"
  obtain s' evs out where h: "handleClaude hook_demo_env ''7'' ''Stop'' (Body ?i) 5 ?s = (s', evs, out)"
    by (rule prod_cases3)
  have "parse_uint 32 ''7'' = Some 7"
    by (simp add: parse_uint_def is_digit_def byte_in_def decimal_value_def digit_value_def)
  then have path: "sessionFromPath hook_demo_env ''7'' = Inr (7, '''', ApprovalNotify)"
    by (simp add: sessionFromPath_def hook_demo_env_def)
  have b: "body_input ''Stop'' (Body ?i) = Some ?i" "ci_hook_event_name ?i \<in> {''Stop'', ''StopFailure'', ''SessionEnd''}"
    by (simp_all add: body_input_def)
  note C = tool_end_closes_approvals [OF demo_store_reachable path b h]
  show ?thesis
    unfolding Let_def h fst_conv snd_conv by (rule conjI [OF C [THEN conjunct2, THEN conjunct1] C [THEN conjunct1]])
qed

end
