(* ===== verification/Presets.thy ===== *)
theory Presets
  imports Prelude "HOL-Library.Char_ord" "HOL-Library.List_Lexorder"
begin

text \<open>
  The vendor presets (\<^verbatim>\<open>internal/presets/presets.go\<close>) and the parts of the agent's configuration
  that decide how it runs (\<^verbatim>\<open>internal/agent/config.go\<close>). Go compares strings byte by byte, which
  is the lexicographic order of the library on lists of characters. The lemmas show that a tool
  gets exactly the environment of the preset it names.
\<close>

section \<open>Presets\<close>

abbreviation preset_anthropic :: string where "preset_anthropic \<equiv> ''anthropic''"
abbreviation preset_minimax :: string where "preset_minimax \<equiv> ''minimax''"
abbreviation preset_relay_station :: string where "preset_relay_station \<equiv> ''relay-station''"

record preset_secrets =
  sc_minimax_key :: string
  sc_minimax_url :: string
  sc_station_url :: string
  sc_station_key :: string

definition DefaultMiniMaxBaseURL :: string where
  "DefaultMiniMaxBaseURL = ''https://api.minimax.io/anthropic''"

record resolver =
  rs_secrets :: preset_secrets
  rs_custom :: "(string, (string, string) gomap) gomap"

text \<open>The keys of a Go map, sorted.\<close>

definition Names :: "resolver \<Rightarrow> string list" where
  "Names r = sort (remdups ([preset_anthropic, preset_minimax, preset_relay_station] @ mkeys (rs_custom r)))"

definition envList :: "(string, string) gomap \<Rightarrow> string list" where
  "envList m = map (\<lambda>k. k @ ''='' @ the (mget m k)) (sort (mkeys m))"

datatype preset_error = SecretMissing string | UnknownPreset string "string list"

definition Resolve :: "resolver \<Rightarrow> string \<Rightarrow> preset_error + string list" where
  "Resolve r name0 =
     (let name = trim_space name0; sc = rs_secrets r in
      if name = '''' then Inr []
      else case mget (rs_custom r) name of
        Some m \<Rightarrow> Inr (envList m)
      | None \<Rightarrow>
          if name = preset_anthropic then Inr []
          else if name = preset_minimax then
            if sc_minimax_key sc = '''' then Inl (SecretMissing name)
            else
              let base = (if sc_minimax_url sc = '''' then DefaultMiniMaxBaseURL else sc_minimax_url sc)
              in Inr (envList [(''ANTHROPIC_BASE_URL'', base), (''ANTHROPIC_AUTH_TOKEN'', sc_minimax_key sc)])
          else if name = preset_relay_station then
            if sc_station_url sc = '''' \<or> sc_station_key sc = '''' then Inl (SecretMissing name)
            else Inr (envList [(''ANTHROPIC_BASE_URL'', sc_station_url sc), (''ANTHROPIC_AUTH_TOKEN'', sc_station_key sc)])
          else Inl (UnknownPreset name (Names r)))"

section \<open>Configuration\<close>

record config =
  cf_relay_url :: string
  cf_device_id :: string
  cf_device_token :: string
  cf_agent_id :: string
  cf_name :: string
  cf_privkey :: string
  cf_pubkey :: string
  cf_fingerprint :: string
  cf_hooks_port :: int
  cf_hook_token :: string
  cf_presets :: "(string, (string, string) gomap) gomap"
  cf_secrets :: preset_secrets
  cf_default_shell :: string
  cf_persist :: string

text \<open>The configuration before anything is known: Go's zero value.\<close>

definition no_config :: config where
  "no_config = \<lparr>cf_relay_url = '''', cf_device_id = '''', cf_device_token = '''', cf_agent_id = '''', cf_name = '''',
     cf_privkey = '''', cf_pubkey = '''', cf_fingerprint = '''', cf_hooks_port = 0, cf_hook_token = '''', cf_presets = [],
     cf_secrets = \<lparr>sc_minimax_key = '''', sc_minimax_url = '''', sc_station_url = '''', sc_station_key = ''''\<rparr>,
     cf_default_shell = '''', cf_persist = ''''\<rparr>"

definition ascii_lower :: "char \<Rightarrow> char" where
  "ascii_lower c = (if byte_in 65 90 c then char_of ((of_char c :: nat) + 32) else c)"

text \<open>
  \<^verbatim>\<open>strings.ToLower\<close> on ASCII letters: no other character is lowered to a letter of the three
  words compared.
\<close>

definition PersistEnabled :: "config \<Rightarrow> bool" where
  "PersistEnabled c \<longleftrightarrow> map ascii_lower (trim_space (cf_persist c)) \<notin> {''off'', ''false'', ''no''}"

definition config_Resolver :: "config \<Rightarrow> resolver" where
  "config_Resolver c = \<lparr>rs_secrets = cf_secrets c, rs_custom = cf_presets c\<rparr>"

text \<open>
  The identity: fresh random strings and a key pair (None when it cannot be generated) fill
  what is missing; the answer tells whether anything changed.
\<close>

definition EnsureIdentity ::
  "string \<Rightarrow> string \<Rightarrow> (string \<times> string) option \<Rightarrow> config \<Rightarrow> config \<times> bool \<times> bool" where
  "EnsureIdentity hex8 hex24 keys c =
     (let ch1 = (cf_agent_id c = ''''); c1 = (if ch1 then c\<lparr>cf_agent_id := ''agt_'' @ hex8\<rparr> else c);
          ch2 = (cf_hook_token c1 = ''''); c2 = (if ch2 then c1\<lparr>cf_hook_token := hex24\<rparr> else c1)
      in if cf_privkey c2 = '''' \<or> cf_pubkey c2 = '''' then
           case keys of
             None \<Rightarrow> (c2, ch1 \<or> ch2, False)
           | Some (priv, pub) \<Rightarrow> (c2\<lparr>cf_privkey := priv, cf_pubkey := pub\<rparr>, True, True)
         else (c2, ch1 \<or> ch2, True))"

text \<open>URLs, as \<^verbatim>\<open>net/url\<close> splits them: scheme, host and path (None when it refuses them).\<close>

record url_parts =
  url_scheme :: string
  url_host :: string
  url_path :: string

definition trim_slashes :: "string \<Rightarrow> string" where
  "trim_slashes s = rev (dropWhile (\<lambda>c. c = CHR ''/'') (rev s))"

definition WSURL :: "(string \<Rightarrow> url_parts option) \<Rightarrow> config \<Rightarrow> url_parts option" where
  "WSURL parse c =
     (case parse (trim_slashes (cf_relay_url c)) of
        None \<Rightarrow> None
      | Some u \<Rightarrow>
          (case (if url_scheme u \<in> {''http'', ''ws''} then Some ''ws''
                 else if url_scheme u \<in> {''https'', ''wss''} then Some ''wss'' else None) of
             None \<Rightarrow> None
           | Some sch \<Rightarrow>
               if url_host u = '''' then None
               else Some (u\<lparr>url_scheme := sch, url_path := trim_slashes (url_path u) @ ''/ws/agent''\<rparr>)))"

text \<open>
  The address for plain requests: \<open>parse\<close> and \<open>scheme\<close> read a URL, \<open>render\<close> writes it with
  another scheme.
\<close>

definition HTTPURL :: "(string \<Rightarrow> 'u option) \<Rightarrow> ('u \<Rightarrow> string) \<Rightarrow> (string \<Rightarrow> 'u \<Rightarrow> string) \<Rightarrow> config \<Rightarrow> string option" where
  "HTTPURL parse scheme render c =
     (case parse (trim_slashes (cf_relay_url c)) of
        None \<Rightarrow> None
      | Some u \<Rightarrow>
          (case (if scheme u = ''ws'' then Some ''http'' else if scheme u = ''wss'' then Some ''https''
                 else if scheme u \<in> {''http'', ''https''} then Some (scheme u) else None) of
             None \<Rightarrow> None
           | Some sch \<Rightarrow> Some (trim_slashes (render sch u))))"

datatype config_error = NoRelayURL | NotPaired | BadRelayURL

definition Validate :: "(string \<Rightarrow> url_parts option) \<Rightarrow> config \<Rightarrow> config_error option" where
  "Validate parse c =
     (if cf_relay_url c = '''' then Some NoRelayURL
      else if cf_device_token c = '''' \<or> cf_device_id c = '''' then Some NotPaired
      else if WSURL parse c = None then Some BadRelayURL
      else None)"

section \<open>Properties\<close>

lemma envList_sorted: "mwf m \<Longrightarrow> envList m = map (\<lambda>k. k @ ''='' @ the (mget m k)) (sort (mkeys m))"
  by (simp add: envList_def)

text \<open>The variables an environment defines, read the way a process reads them: up to the first
  equals sign.\<close>

fun env_split :: "string \<Rightarrow> string \<times> string" where
  "env_split [] = ([], [])"
| "env_split (c # cs) = (if c = CHR ''='' then ([], cs) else let (k, v) = env_split cs in (c # k, v))"

lemma env_split_join: "CHR ''='' \<notin> set k \<Longrightarrow> env_split (k @ ''='' @ v) = (k, v)"
  by (induction k) auto

lemma envList_reads_back:
  assumes "mwf m" and "\<forall>k \<in> set (mkeys m). CHR ''='' \<notin> set k"
  shows "map_of (map env_split (envList m)) k = mget m k \<and> distinct (map (fst \<circ> env_split) (envList m))"
proof -
  have read: "map env_split (envList m) = map (\<lambda>k. (k, the (mget m k))) (sort (mkeys m))"
    using assms(2) by (auto simp: envList_def env_split_join [simplified])
  have "map_of (map (\<lambda>k. (k, f k)) ks) k = (if k \<in> set ks then Some (f k) else None)" for ks and f :: "string \<Rightarrow> string"
    by (induction ks) auto
  then have "map_of (map env_split (envList m)) k = mget m k"
    unfolding read using mget_None_iff [of m k] by (cases "mget m k") auto
  moreover have "map (fst \<circ> env_split) (envList m) = map fst (map env_split (envList m))"
    by simp
  then have "map (fst \<circ> env_split) (envList m) = sort (mkeys m)"
    unfolding read by (simp add: o_def)
  then have "distinct (map (fst \<circ> env_split) (envList m))"
    using assms(1) by (simp add: mwf_def mkeys_def)
  ultimately show ?thesis by simp
qed


definition preset_var :: "resolver \<Rightarrow> string \<Rightarrow> string \<Rightarrow> string option" where
  "preset_var r n k =
     (case mget (rs_custom r) n of
        Some m \<Rightarrow> mget m k
      | None \<Rightarrow>
          if n = preset_minimax \<and> k = ''ANTHROPIC_BASE_URL'' then
            Some (if sc_minimax_url (rs_secrets r) = '''' then DefaultMiniMaxBaseURL else sc_minimax_url (rs_secrets r))
          else if n = preset_minimax \<and> k = ''ANTHROPIC_AUTH_TOKEN'' then Some (sc_minimax_key (rs_secrets r))
          else if n = preset_relay_station \<and> k = ''ANTHROPIC_BASE_URL'' then Some (sc_station_url (rs_secrets r))
          else if n = preset_relay_station \<and> k = ''ANTHROPIC_AUTH_TOKEN'' then Some (sc_station_key (rs_secrets r))
          else None)"

lemma builtin_env:
  "map_of (map env_split (envList [(''ANTHROPIC_BASE_URL'', u), (''ANTHROPIC_AUTH_TOKEN'', t)])) k
     = mget [(''ANTHROPIC_BASE_URL'', u), (''ANTHROPIC_AUTH_TOKEN'', t)] k
   \<and> distinct (map (fst \<circ> env_split) (envList [(''ANTHROPIC_BASE_URL'', u), (''ANTHROPIC_AUTH_TOKEN'', t)]))"
  by (rule envList_reads_back) (simp_all add: mwf_def mkeys_def)

lemma Names_set: "set (Names r) = {preset_anthropic, preset_minimax, preset_relay_station} \<union> set (mkeys (rs_custom r))"
  by (auto simp: Names_def)

text \<open>A tool runs with exactly the environment of its preset: whenever a preset resolves, the
  entries define each variable once, with the value of the user's preset of that name or, when
  there is none, of the built-in one with the configured secrets; the empty name gives none,
  and a name outside the list of presets is refused.\<close>

theorem preset_env_exact:
  assumes "\<And>n m. mget (rs_custom r) n = Some m \<Longrightarrow> mwf m \<and> (\<forall>k \<in> set (mkeys m). CHR ''='' \<notin> set k)"
  shows "(Resolve r name = Inr env \<longrightarrow> distinct (map (fst \<circ> env_split) env)
      \<and> map_of (map env_split env) k = (if trim_space name = '''' then None else preset_var r (trim_space name) k))
    \<and> (trim_space name \<noteq> '''' \<and> trim_space name \<notin> set (Names r) \<longleftrightarrow>
        (\<exists>n ns. Resolve r name = Inl (UnknownPreset n ns)))"
proof (intro conjI impI)
  assume R: "Resolve r name = Inr env"
  have "distinct (map (fst \<circ> env_split) env)
      \<and> map_of (map env_split env) k = (if trim_space name = '''' then None else preset_var r (trim_space name) k)"
  proof (cases "mget (rs_custom r) (trim_space name)")
    case (Some m)
    with assms [OF Some] R envList_reads_back [of m k] show ?thesis
      by (auto simp: Resolve_def preset_var_def Let_def split: if_splits)
  next
    case None
    with R builtin_env [of _ _ k] show ?thesis
      by (auto simp: Resolve_def preset_var_def Let_def mget_Cons split: if_splits)
  qed
  then show "distinct (map (fst \<circ> env_split) env)"
    "map_of (map env_split env) k = (if trim_space name = '''' then None else preset_var r (trim_space name) k)"
    by simp_all
next
  show "trim_space name \<noteq> '''' \<and> trim_space name \<notin> set (Names r) \<longleftrightarrow>
      (\<exists>n ns. Resolve r name = Inl (UnknownPreset n ns))"
    by (cases "mget (rs_custom r) (trim_space name)")
       (auto simp: Resolve_def Names_set Let_def mkeys_iff mget_None_iff [symmetric])
qed

theorem preset_env_exact_witness:
  "let r = \<lparr>rs_secrets = \<lparr>sc_minimax_key = ''k'', sc_minimax_url = '''', sc_station_url = '''', sc_station_key = ''''\<rparr>,
            rs_custom = [(''mine'', [(''B'', ''2''), (''A'', ''1'')])]\<rparr>
   in Resolve r ''mine'' = Inr [''A=1'', ''B=2''] \<and> map_of (map env_split [''A=1'', ''B=2'']) ''B'' = Some ''2''"
proof -
  let ?r = "\<lparr>rs_secrets = \<lparr>sc_minimax_key = ''k'', sc_minimax_url = '''', sc_station_url = '''', sc_station_key = ''''\<rparr>,
            rs_custom = [(''mine'', [(''B'', ''2''), (''A'', ''1'')])]\<rparr>"
  have R: "Resolve ?r ''mine'' = Inr [''A=1'', ''B=2'']" and T: "trim_space ''mine'' = ''mine''"
    by code_simp+
  have "mwf m \<and> (\<forall>k \<in> set (mkeys m). CHR ''='' \<notin> set k)" if "mget (rs_custom ?r) n = Some m" for n m
    using that by (auto simp: mget_Cons mwf_def mkeys_def split: if_splits)
  from preset_env_exact [where r = ?r and name = "''mine''" and env = "[''A=1'', ''B=2'']" and k = "''B''", OF this] R T show ?thesis
    by (simp add: preset_var_def mget_Cons)
qed

end
