(* ===== verification/Agent.thy ===== *)
theory Agent
  imports Session HooksServer Presets Frames
begin

text \<open>
  The agent (\<^verbatim>\<open>internal/agent/agent.go\<close>, \<^verbatim>\<open>handle.go\<close>, \<^verbatim>\<open>conn.go\<close>, \<^verbatim>\<open>persist.go\<close>): its sessions,
  the bounded queue of its connection to the relay, the messages and frames it handles, the
  events of the hooks endpoint, the periodic heuristic, and the adoption of sessions after a
  restart. Every handler is a function on the agent's state; what a session does to the outside
  is logged, what it calls back is run. Session objects live in a store of their own, because a
  goroutine may hold a session that the agent has already forgotten.
\<close>

section \<open>State\<close>

text \<open>A queued WebSocket message: a text (a control message) or a binary one (a frame).\<close>

datatype out_msg = OutText msg | OutBinary "byte list"

record wsconn =
  wc_id :: nat
  wc_out :: "out_msg list"
  wc_sent :: "out_msg list"
  wc_closed :: bool

definition sendQueueLen :: nat where "sendQueueLen = 4096"

record session_meta =
  sm_sid :: u32
  sm_name :: string
  sm_tool :: string
  sm_shell :: string
  sm_cwd :: string
  sm_preset :: string
  sm_approval_mode :: approval_mode
  sm_permission_mode :: string
  sm_extra :: "string list"
  sm_settings_path :: string
  sm_codex_notify :: "string list"
  sm_tool_session_id :: string
  sm_started_at :: instant
  sm_cols :: u16
  sm_rows :: u16

text \<open>
  Goroutines that a handler starts: a signal to a session, and the two resizes that make a
  full-screen tool repaint.
\<close>

datatype task = SignalTask nat msg | NudgeTask nat | NudgeBack nat u16 u16

text \<open>
  \<open>ag_dirs\<close> is the directory \<^verbatim>\<open>sessions\<close> under the agent's root: each entry holds a readable
  \<^verbatim>\<open>meta.json\<close> or not. \<open>ag_fx\<close> logs what the sessions did to terminals and tmux.
\<close>

record agent =
  ag_cfg :: config
  ag_root :: string
  ag_exe :: string
  ag_store :: hook_store
  ag_persist :: bool
  ag_tmux_conf :: string
  ag_objs :: "(nat, session) gomap"
  ag_next :: nat
  ag_sessions :: "(u32, nat) gomap"
  ag_pty_keys :: "(u32, string) gomap"
  ag_acks :: "(u32, u64) gomap"
  ag_conn :: "wsconn option"
  ag_hb_seq :: u64
  ag_rtt :: duration
  ag_last_echo :: instant
  ag_hello_ok :: bool
  ag_hello_id :: string
  ag_dirs :: "(string, session_meta option) gomap"
  ag_tasks :: "task list"
  ag_fx :: "(nat \<times> effect) list"

datatype open_error =
    OpenUnknownTool string | OpenPreset preset_error | OpenSettings | OpenNoSID | OpenStart session_error

datatype agent_error =
    ErrUnknownSession | ErrOpenWithoutOpen | ErrOpenFailed open_error | ErrSession session_error
  | ErrBadMode | ErrNotPending

text \<open>
  What the outside gives a handler: the time, the random words, what a session needs to start,
  whether files can be written, the functions the hooks take as parameters, and the wording of
  errors that come from below.
\<close>

record agent_env =
  ae_now :: instant
  ae_rand :: "u32 list"
  ae_start :: "u32 \<Rightarrow> start_env"
  ae_settings :: "string option"
  ae_files_ok :: bool
  ae_pty_ok :: bool
  ae_hooks_port :: nat
  ae_version :: string
  ae_os :: string
  ae_sha256 :: "string \<Rightarrow> byte list"
  ae_canon :: "string \<Rightarrow> string"
  ae_decode :: "string \<Rightarrow> json option"
  ae_quote :: "string \<Rightarrow> string"
  ae_wording :: "session_error + open_error \<Rightarrow> string"

definition error_text :: "agent_env \<Rightarrow> agent_error \<Rightarrow> string" where
  "error_text e err = (case err of
     ErrUnknownSession \<Rightarrow> ''unknown session''
   | ErrOpenWithoutOpen \<Rightarrow> ''session.open without open''
   | ErrOpenFailed oe \<Rightarrow> ae_wording e (Inr oe)
   | ErrSession se \<Rightarrow> ae_wording e (Inl se)
   | ErrBadMode \<Rightarrow> ''mode must be notify or remote_first''
   | ErrNotPending \<Rightarrow> ''approval not pending'')"

section \<open>The connection\<close>

definition conn_close :: "wsconn \<Rightarrow> wsconn" where
  "conn_close w = w\<lparr>wc_closed := True\<rparr>"

text \<open>The non-blocking send on the queue; a full queue closes the connection.\<close>

definition conn_send :: "out_msg \<Rightarrow> wsconn \<Rightarrow> wsconn \<times> bool" where
  "conn_send x w =
     (if length (wc_out w) < sendQueueLen then (w\<lparr>wc_out := wc_out w @ [x]\<rparr>, True)
      else (conn_close w, False))"

text \<open>A turn of \<^verbatim>\<open>writeLoop\<close>: it ends when the connection is closed; a failed write closes it.\<close>

definition writeLoop :: "bool \<Rightarrow> wsconn \<Rightarrow> wsconn" where
  "writeLoop ok w =
     (if wc_closed w then w
      else case wc_out w of
        [] \<Rightarrow> w
      | x # xs \<Rightarrow>
          if ok then w\<lparr>wc_out := xs, wc_sent := wc_sent w @ [x]\<rparr> else conn_close (w\<lparr>wc_out := xs\<rparr>))"

definition agent_send :: "out_msg \<Rightarrow> agent \<Rightarrow> agent" where
  "agent_send x a = (case ag_conn a of
     None \<Rightarrow> a
   | Some w \<Rightarrow> a\<lparr>ag_conn := Some (fst (conn_send x w))\<rparr>)"

definition sendMsg :: "msg \<Rightarrow> agent \<Rightarrow> agent" where
  "sendMsg m a = agent_send (OutText m) a"

definition sendFrame :: "frame \<Rightarrow> agent \<Rightarrow> agent" where
  "sendFrame f a = (case Marshal f of Inl _ \<Rightarrow> a | Inr b \<Rightarrow> agent_send (OutBinary b) a)"

text \<open>\<^verbatim>\<open>backoffDelay\<close>; the jitter is a random duration.\<close>

definition backoffMin :: duration where "backoffMin = 2 * second"
definition backoffMax :: duration where "backoffMax = 16 * second"

fun backoff_base :: "nat \<Rightarrow> duration \<Rightarrow> duration" where
  "backoff_base 0 d = d"
| "backoff_base (Suc n) d = (if d < backoffMax then backoff_base n (2 * d) else d)"

definition backoffDelay :: "duration \<Rightarrow> nat \<Rightarrow> duration" where
  "backoffDelay jitter n = (let d = backoff_base n backoffMin in (if d > backoffMax then backoffMax else d) + jitter)"

text \<open>What \<^verbatim>\<open>connectLoop\<close> does after a connection ended: the delay and the next attempt number.\<close>

definition connection_lost :: "duration \<Rightarrow> nat \<Rightarrow> agent \<Rightarrow> agent \<times> nat \<times> duration" where
  "connection_lost jitter attempt a =
     (let ok = ag_hello_ok a; a = a\<lparr>ag_hello_ok := False\<rparr>;
          attempt = (if ok then 0 else attempt)
      in (a, attempt + 1, backoffDelay jitter attempt))"

section \<open>Sessions\<close>

definition handle_of :: "u32 \<Rightarrow> agent \<Rightarrow> nat option" where
  "handle_of sid a = mget (ag_sessions a) sid"

definition obj :: "nat \<Rightarrow> agent \<Rightarrow> session option" where
  "obj h a = mget (ag_objs a) h"

definition agent_session :: "u32 \<Rightarrow> agent \<Rightarrow> (nat \<times> session) option" where
  "agent_session sid a = (case handle_of sid a of
     None \<Rightarrow> None
   | Some h \<Rightarrow> map_option (\<lambda>s. (h, s)) (obj h a))"

definition put_obj :: "nat \<Rightarrow> session \<Rightarrow> agent \<Rightarrow> agent" where
  "put_obj h s a = a\<lparr>ag_objs := mput h s (ag_objs a)\<rparr>"

definition lookup :: "agent \<Rightarrow> u32 \<Rightarrow> (string \<times> approval_mode) option" where
  "lookup a sid = (case agent_session sid a of
     None \<Rightarrow> None
   | Some (h, s) \<Rightarrow> Some (Tool s, si_approval_mode (ss_info s)))"

definition listed :: "agent \<Rightarrow> session list" where
  "listed a = List.map_filter (\<lambda>h. obj h a) (mvals (ag_sessions a))"

text \<open>\<^verbatim>\<open>Info\<close> refreshes the sequence number that the session's information carries.\<close>

definition sessionList :: "agent \<Rightarrow> agent \<times> session_info list" where
  "sessionList a =
     (a\<lparr>ag_objs := mmap (\<lambda>h s. if h \<in> set (mvals (ag_sessions a)) then fst (Info s) else s) (ag_objs a)\<rparr>,
      sort_key si_sid (map (\<lambda>s. snd (Info s)) (listed a)))"

definition sessionHealth :: "agent \<Rightarrow> session_health list" where
  "sessionHealth a = sort_key sh_sid (map Health (listed a))"

section \<open>Callbacks and hook events\<close>

definition onOutput :: "u32 \<Rightarrow> u64 \<Rightarrow> byte list \<Rightarrow> agent \<Rightarrow> agent" where
  "onOutput sid seq data a = fold sendFrame (Chunk FrameOutput sid seq data 0) a"

definition agent_ApprovalNew :: "approval \<Rightarrow> agent \<Rightarrow> agent" where
  "agent_ApprovalNew ap a =
     (let ap = ap\<lparr>ap_device_id := cf_device_id (ag_cfg a)\<rparr>
      in sendMsg ((Msg0 TApprovalNew)\<lparr>m_sid := ap_sid ap, m_approval := Some ap\<rparr>) a)"

definition agent_ApprovalClosed :: "string \<Rightarrow> approval \<Rightarrow> agent \<Rightarrow> agent" where
  "agent_ApprovalClosed by ap a =
     (let ap = ap\<lparr>ap_device_id := cf_device_id (ag_cfg a)\<rparr>;
          m = (Msg0 TApprovalClosed)\<lparr>m_sid := ap_sid ap, m_key := ap_key ap, m_by := by, m_approval := Some ap\<rparr>
      in sendMsg (if ap_status ap = ApprovalFallback then m\<lparr>m_decision := ''fallback''\<rparr> else m) a)"

text \<open>Closes the approvals of a session, as \<^verbatim>\<open>onExit\<close> and \<^verbatim>\<open>closeSession\<close> do.\<close>

definition close_approvals :: "instant \<Rightarrow> u32 \<Rightarrow> string \<Rightarrow> agent \<Rightarrow> agent" where
  "close_approvals now sid by a =
     (let (st, out) = CloseSession sid ApprovalClosedLocal by now (ag_store a)
      in fold (agent_ApprovalClosed by) out (a\<lparr>ag_store := st\<rparr>))"

definition onExit :: "instant \<Rightarrow> u32 \<Rightarrow> i32 \<Rightarrow> resumable option \<Rightarrow> agent \<Rightarrow> agent" where
  "onExit now sid code r a =
     (let a = sendFrame \<lparr>fr_type = FrameEOF, fr_flags = 0, fr_sid = sid, fr_seq = 0, fr_payload = EOFPayload code\<rparr> a;
          a = sendMsg ((Msg0 TSessionExited)\<lparr>m_sid := sid, m_code := Some code, m_resumable := r\<rparr>) a
      in close_approvals now sid ''exit'' a)"

text \<open>The snapshot frames that \<^verbatim>\<open>handleAttach\<close> sends for a replay.\<close>

definition send_replay :: "u32 \<Rightarrow> byte list \<Rightarrow> u64 \<Rightarrow> bool \<Rightarrow> agent \<Rightarrow> agent" where
  "send_replay sid data endSeq delta a =
     fold sendFrame (Chunk FrameSnapshot sid endSeq data (if delta then 0 else FlagReset)) a"

text \<open>
  The effects of a session's operation: its callbacks run, the rest happens to terminals and
  tmux. The callbacks close over the id the session was opened with.
\<close>

fun run_effect :: "instant \<Rightarrow> u32 \<Rightarrow> nat \<Rightarrow> effect \<Rightarrow> agent \<Rightarrow> agent" where
  "run_effect now sid h (Output seq data) a = onOutput sid seq data a"
| "run_effect now sid h (Exited code r) a = onExit now sid code r a"
| "run_effect now sid h (Replayed data endSeq delta) a = send_replay sid data endSeq delta a"
| "run_effect now sid h fx a = a\<lparr>ag_fx := ag_fx a @ [(h, fx)]\<rparr>"

definition run_effects :: "instant \<Rightarrow> u32 \<Rightarrow> nat \<Rightarrow> effect list \<Rightarrow> agent \<Rightarrow> agent" where
  "run_effects now sid h fx a = fold (run_effect now sid h) fx a"

text \<open>An operation on a session object, by the agent or by one of the session's goroutines.\<close>

definition session_op :: "instant \<Rightarrow> nat \<Rightarrow> op \<Rightarrow> agent \<Rightarrow> agent" where
  "session_op now h x a = (case obj h a of
     None \<Rightarrow> a
   | Some s \<Rightarrow>
       let (s', fx) = perform x s in run_effects now (so_sid (ss_opts s)) h fx (put_obj h s' a))"


section \<open>Events of the hooks endpoint\<close>

definition agent_SessionState ::
  "instant \<Rightarrow> u32 \<Rightarrow> session_state \<Rightarrow> need_kind \<Rightarrow> signal_source \<Rightarrow> confidence \<Rightarrow> agent \<Rightarrow> agent" where
  "agent_SessionState now sid st kind src conf a =
     (case agent_session sid a of
        None \<Rightarrow> a
      | Some (h, s) \<Rightarrow>
          let (s', changed) = SetState st kind src conf now s; a = put_obj h s' a
          in if changed
             then sendMsg ((Msg0 TSessionState)\<lparr>m_sid := sid, m_state := st, m_kind := kind, m_source := src, m_confidence := conf\<rparr>) a
             else a)"

definition agent_SessionUpdated :: "instant \<Rightarrow> u32 \<Rightarrow> float64 option \<Rightarrow> float64 option \<Rightarrow> agent \<Rightarrow> agent" where
  "agent_SessionUpdated now sid cost ctx a =
     (case agent_session sid a of
        None \<Rightarrow> a
      | Some (h, s) \<Rightarrow>
          let (s', info) = SetMetrics cost ctx now s
          in sendMsg ((Msg0 TSessionUpdated)\<lparr>m_sid := sid, m_session := Some info\<rparr>) (put_obj h s' a))"

definition dir_of :: "u32 \<Rightarrow> string" where
  "dir_of sid = format_uint (unat sid)"

definition sessionDir :: "agent \<Rightarrow> u32 \<Rightarrow> string" where
  "sessionDir a sid = ag_root a @ ''/sessions/'' @ dir_of sid"

definition writeMeta :: "bool \<Rightarrow> session_meta \<Rightarrow> agent \<Rightarrow> agent" where
  "writeMeta ok m a = (if ok then a\<lparr>ag_dirs := mput (dir_of (sm_sid m)) (Some m) (ag_dirs a)\<rparr> else a)"

definition readMeta :: "u32 \<Rightarrow> agent \<Rightarrow> session_meta option" where
  "readMeta sid a = (case mget (ag_dirs a) (dir_of sid) of
     Some (Some m) \<Rightarrow> Some (m\<lparr>sm_sid := sid\<rparr>)
   | _ \<Rightarrow> None)"

definition noteToolSession :: "bool \<Rightarrow> u32 \<Rightarrow> string \<Rightarrow> agent \<Rightarrow> agent" where
  "noteToolSession ok sid i a =
     (if i = '''' \<or> \<not> ag_persist a then a
      else case readMeta sid a of
        None \<Rightarrow> a
      | Some m \<Rightarrow> if sm_tool_session_id m = i then a else writeMeta ok (m\<lparr>sm_tool_session_id := i\<rparr>) a)"

definition agent_ToolSession :: "bool \<Rightarrow> u32 \<Rightarrow> string \<Rightarrow> agent \<Rightarrow> agent" where
  "agent_ToolSession ok sid i a =
     (case agent_session sid a of
        None \<Rightarrow> a
      | Some (h, s) \<Rightarrow> noteToolSession ok sid i (put_obj h (SetToolSession i s) a))"

definition agent_ToolExited :: "u32 \<Rightarrow> agent \<Rightarrow> agent" where
  "agent_ToolExited sid a =
     (case agent_session sid a of None \<Rightarrow> a | Some (h, s) \<Rightarrow> put_obj h (Session.ToolExited s) a)"

fun run_event :: "agent_env \<Rightarrow> hook_event \<Rightarrow> agent \<Rightarrow> agent" where
  "run_event e (EvState sid st k src conf) a = agent_SessionState (ae_now e) sid st k src conf a"
| "run_event e (EvApprovalNew ap) a = agent_ApprovalNew ap a"
| "run_event e (EvApprovalClosed ap by) a = agent_ApprovalClosed by ap a"
| "run_event e (EvUpdated sid cost ctx) a = agent_SessionUpdated (ae_now e) sid cost ctx a"
| "run_event e (EvToolSession sid tool i) a = agent_ToolSession (ae_files_ok e) sid i a"
| "run_event e (EvToolExited sid) a = agent_ToolExited sid a"

text \<open>
  The endpoint serves a request with the agent's token, lookup and store; the handler's events
  are run in their order. They only send messages and update sessions, not the store.
\<close>

definition remoteFirstTimeout :: int where "remoteFirstTimeout = 3600"

definition hooks_of :: "agent_env \<Rightarrow> agent \<Rightarrow> hook_env" where
  "hooks_of e a = \<lparr>he_token = cf_hook_token (ag_cfg a), he_lookup = Some (lookup a),
     he_timeout = remoteFirstTimeout * second, he_sha256 = ae_sha256 e, he_canon = ae_canon e,
     he_decode = ae_decode e, he_quote = ae_quote e\<rparr>"

definition serve_claude :: "agent_env \<Rightarrow> string \<Rightarrow> string \<Rightarrow> claude_input body \<Rightarrow> agent \<Rightarrow> agent \<times> outcome" where
  "serve_claude e path_sid event b a =
     (let (st, evs, out) = handleClaude (hooks_of e a) path_sid event b (ae_now e) (ag_store a)
      in (fold (run_event e) evs (a\<lparr>ag_store := st\<rparr>), out))"

definition serve_codex :: "agent_env \<Rightarrow> string \<Rightarrow> string \<Rightarrow> claude_input body \<Rightarrow> agent \<Rightarrow> agent \<times> reply" where
  "serve_codex e path_sid event b a =
     (let (st, evs, out) = handleCodexHook (hooks_of e a) path_sid event b (ae_now e) (ag_store a)
      in (fold (run_event e) evs (a\<lparr>ag_store := st\<rparr>), out))"

section \<open>Opening and closing sessions\<close>

text \<open>
  \<^verbatim>\<open>NewSID\<close> masks random words until one is not zero; the agent repeats it until the id is not in
  use. The random words are an argument; the loops end without an id when they run out.
\<close>

fun NewSID :: "u32 list \<Rightarrow> (u32 \<times> u32 list) option" where
  "NewSID [] = None"
| "NewSID (w # ws) = (let sid = and w 0x7fffffff in if sid \<noteq> 0 then Some (sid, ws) else NewSID ws)"

lemma NewSID_shorter: "NewSID ws = Some (sid, ws') \<Longrightarrow> length ws' < length ws"
  by (induction ws) (auto simp: Let_def split: if_splits)

function fresh_sid :: "(u32 \<Rightarrow> bool) \<Rightarrow> u32 list \<Rightarrow> u32 option" where
  "fresh_sid used ws = (case NewSID ws of
     None \<Rightarrow> None
   | Some (sid, ws') \<Rightarrow> if used sid then fresh_sid used ws' else Some sid)"
  by pat_completeness auto
termination
  by (relation "measure (\<lambda>(used, ws). length ws)") (auto intro: NewSID_shorter)

declare fresh_sid.simps [simp del]

definition known_tool :: "string \<Rightarrow> bool" where
  "known_tool t \<longleftrightarrow> t \<in> {ToolShell, ToolClaude, ToolCodex, ToolGrok}"

definition tool_env :: "agent_env \<Rightarrow> string \<Rightarrow> agent \<Rightarrow> string list \<Rightarrow> string list" where
  "tool_env e tool a presetEnv =
     (''TX_HOOK_TOKEN='' @ cf_hook_token (ag_cfg a)) # presetEnv
     @ (if tool = ToolClaude then [''CLAUDE_CODE_NO_FLICKER=1'', ''CLAUDE_CODE_ALT_SCREEN_FULL_REPAINT=1''] else [])"

definition codex_notify_args :: "agent_env \<Rightarrow> u32 \<Rightarrow> agent \<Rightarrow> string list" where
  "codex_notify_args e sid a =
     [ag_exe a, ''notify'', ''--sid'', format_uint (unat sid), ''--port'', format_uint (ae_hooks_port e),
      ''--token'', cf_hook_token (ag_cfg a)]"

text \<open>The tool's specification: the settings file for Claude, the notifier for Codex.\<close>

definition tool_spec_for :: "agent_env \<Rightarrow> open_request \<Rightarrow> string \<Rightarrow> u32 \<Rightarrow> agent \<Rightarrow> tool_spec option" where
  "tool_spec_for e oreq tool sid a =
     (let spec = \<lparr>ts_tool = tool, ts_name = or_name oreq, ts_permission_mode = or_permission_mode oreq,
            ts_resume = or_resume oreq, ts_extra = or_extra oreq, ts_settings_path = '''', ts_codex_notify = [],
            ts_shell_kind = ''''\<rparr> in
      if tool = ToolClaude then map_option (\<lambda>p. spec\<lparr>ts_settings_path := p\<rparr>) (ae_settings e)
      else if tool = ToolCodex then Some (spec\<lparr>ts_codex_notify := codex_notify_args e sid a\<rparr>)
      else Some spec)"

definition open_options ::
  "agent_env \<Rightarrow> open_request \<Rightarrow> tool_spec \<Rightarrow> approval_mode \<Rightarrow> string list \<Rightarrow> u32 \<Rightarrow> agent \<Rightarrow> session_opts" where
  "open_options e oreq spec mode env sid a =
     \<lparr>so_sid = sid, so_shell = (if or_shell oreq = '''' then cf_default_shell (ag_cfg a) else or_shell oreq),
      so_cwd = or_cwd oreq, so_tool = spec, so_name = or_name oreq, so_preset = or_preset oreq,
      so_approval_mode = mode, so_env = env, so_cols = or_cols oreq, so_rows = or_rows oreq,
      so_persist = ag_persist a, so_persist_conf = ag_tmux_conf a, so_persist_state_dir = sessionDir a sid,
      so_ring_size = 0, so_on_output = True, so_on_exit = True\<rparr>"

text \<open>A started or adopted session becomes an object with a new handle.\<close>

definition install :: "instant \<Rightarrow> u32 \<Rightarrow> session \<Rightarrow> effect list \<Rightarrow> agent \<Rightarrow> agent \<times> nat" where
  "install now sid s fx a =
     (let h = ag_next a;
          a = run_effects now sid h fx (put_obj h s (a\<lparr>ag_next := h + 1\<rparr>))
      in (a\<lparr>ag_sessions := mput sid h (ag_sessions a)\<rparr>, h))"

definition meta_of :: "open_request \<Rightarrow> string \<Rightarrow> approval_mode \<Rightarrow> string \<Rightarrow> tool_spec \<Rightarrow> u32 \<Rightarrow> session_info \<Rightarrow> session_meta" where
  "meta_of oreq tool mode shell spec sid info =
     \<lparr>sm_sid = sid, sm_name = or_name oreq, sm_tool = tool, sm_shell = shell, sm_cwd = si_cwd info,
      sm_preset = or_preset oreq, sm_approval_mode = mode, sm_permission_mode = or_permission_mode oreq,
      sm_extra = or_extra oreq, sm_settings_path = ts_settings_path spec, sm_codex_notify = ts_codex_notify spec,
      sm_tool_session_id = '''', sm_started_at = si_started_at info, sm_cols = si_cols info, sm_rows = si_rows info\<rparr>"

definition settings_dir :: "string \<Rightarrow> u32 \<Rightarrow> agent \<Rightarrow> agent" where
  "settings_dir tool sid a =
     (if tool = ToolClaude \<and> mget (ag_dirs a) (dir_of sid) = None
      then a\<lparr>ag_dirs := mput (dir_of sid) None (ag_dirs a)\<rparr> else a)"

definition start_opened ::
  "agent_env \<Rightarrow> open_request \<Rightarrow> string \<Rightarrow> approval_mode \<Rightarrow> session_opts \<Rightarrow> u32 \<Rightarrow> agent \<Rightarrow> agent \<times> (open_error + nat)" where
  "start_opened e oreq tool mode opts sid a =
     (case Start (ae_start e sid) opts of
        Inl err \<Rightarrow> (a, Inl (OpenStart err))
      | Inr (s, fx) \<Rightarrow>
          let (s, info) = Info s; (a, h) = install (ae_now e) sid s fx a
          in (if ag_persist a
              then writeMeta (ae_files_ok e) (meta_of oreq tool mode (so_shell opts) (so_tool opts) sid info) a
              else a, Inr h))"

definition openSession :: "agent_env \<Rightarrow> open_request \<Rightarrow> agent \<Rightarrow> agent \<times> (open_error + nat)" where
  "openSession e oreq a =
     (let tool = (if or_tool oreq = '''' then ToolShell else or_tool oreq);
          mode = (if or_approval_mode oreq = ModeOther '''' then ApprovalNotify else or_approval_mode oreq)
      in if \<not> known_tool tool then (a, Inl (OpenUnknownTool tool))
         else case Resolve (config_Resolver (ag_cfg a)) (or_preset oreq) of
           Inl err \<Rightarrow> (a, Inl (OpenPreset err))
         | Inr presetEnv \<Rightarrow>
             (case fresh_sid (\<lambda>sid. mget (ag_sessions a) sid \<noteq> None) (ae_rand e) of
                None \<Rightarrow> (a, Inl OpenNoSID)
              | Some sid \<Rightarrow>
                  (case tool_spec_for e oreq tool sid a of
                     None \<Rightarrow> (a, Inl OpenSettings)
                   | Some spec \<Rightarrow>
                       let opts = open_options e oreq spec mode (tool_env e tool a presetEnv) sid a
                       in start_opened e oreq tool mode opts sid (settings_dir tool sid a))))"

definition closeSession :: "instant \<Rightarrow> u32 \<Rightarrow> agent \<Rightarrow> agent \<times> bool" where
  "closeSession now sid a =
     (let found = handle_of sid a;
          a = a\<lparr>ag_sessions := mdel sid (ag_sessions a), ag_pty_keys := mdel sid (ag_pty_keys a),
                ag_acks := mdel sid (ag_acks a)\<rparr>
      in case found of
           None \<Rightarrow> (a, False)
         | Some h \<Rightarrow>
             let a = close_approvals now sid ''close'' a;
                 a = session_op now h OpClose a
             in (a\<lparr>ag_dirs := mdel (dir_of sid) (ag_dirs a)\<rparr>, True))"


section \<open>Messages from the relay\<close>

definition replyAck :: "msg \<Rightarrow> agent \<Rightarrow> agent" where
  "replyAck m a =
     (if m_req_id m = '''' \<and> m_client_id m = '''' then a
      else sendMsg ((Msg0 TAck)\<lparr>m_req_id := m_req_id m, m_client_id := m_client_id m, m_sid := m_sid m\<rparr>) a)"

definition replyError :: "agent_env \<Rightarrow> msg \<Rightarrow> agent_error \<Rightarrow> agent \<Rightarrow> agent" where
  "replyError e m err a =
     sendMsg ((Msg0 TError)\<lparr>m_req_id := m_req_id m, m_client_id := m_client_id m, m_sid := m_sid m,
       m_error := error_text e err\<rparr>) a"

definition start_task :: "task \<Rightarrow> agent \<Rightarrow> agent" where
  "start_task t a = a\<lparr>ag_tasks := ag_tasks a @ [t]\<rparr>"

definition send_info :: "nat \<Rightarrow> (session_info \<Rightarrow> msg) \<Rightarrow> agent \<Rightarrow> agent" where
  "send_info h f a = (case obj h a of
     None \<Rightarrow> a
   | Some s \<Rightarrow> let (s, info) = Info s in sendMsg (f info) (put_obj h s a))"

definition handleOpen :: "agent_env \<Rightarrow> msg \<Rightarrow> agent \<Rightarrow> agent" where
  "handleOpen e m a = (case m_open m of
     None \<Rightarrow> replyError e m ErrOpenWithoutOpen a
   | Some oreq \<Rightarrow>
       (case openSession e oreq a of
          (a, Inl err) \<Rightarrow> replyError e m (ErrOpenFailed err) a
        | (a, Inr h) \<Rightarrow>
            send_info h (\<lambda>info. (Msg0 TSessionOpened)\<lparr>m_req_id := m_req_id m, m_client_id := m_client_id m,
              m_sid := si_sid info, m_session := Some info\<rparr>) a))"

text \<open>A tool that is still alive is nudged into a repaint by two resizes, in a goroutine.\<close>

definition handleAttach :: "agent_env \<Rightarrow> msg \<Rightarrow> agent \<Rightarrow> agent" where
  "handleAttach e m a = (case agent_session (m_sid m) a of
     None \<Rightarrow> replyError e m ErrUnknownSession a
   | Some (h, s) \<Rightarrow>
       let a = session_op (ae_now e) h OpAttach a;
           a = session_op (ae_now e) h (OpReplay (m_last_seq m)) a
       in case obj h a of
            None \<Rightarrow> a
          | Some s \<Rightarrow> if Tool s \<noteq> ToolShell \<and> Alive s then start_task (NudgeTask h) a else a)"

definition session_resize :: "agent_env \<Rightarrow> nat \<Rightarrow> u16 \<Rightarrow> u16 \<Rightarrow> agent \<Rightarrow> agent \<times> session_error option" where
  "session_resize e h cols rows a = (case obj h a of
     None \<Rightarrow> (a, None)
   | Some s \<Rightarrow>
       let (err, s', fx) = Resize (ae_pty_ok e) cols rows s
       in (run_effects (ae_now e) (so_sid (ss_opts s)) h fx (put_obj h s' a), err))"

definition handleResize :: "agent_env \<Rightarrow> msg \<Rightarrow> agent \<Rightarrow> agent" where
  "handleResize e m a = (case handle_of (m_sid m) a of
     None \<Rightarrow> replyError e m ErrUnknownSession a
   | Some h \<Rightarrow>
       (case session_resize e h (m_cols m) (m_rows m) a of
          (a, Some err) \<Rightarrow> replyError e m (ErrSession err) a
        | (a, None) \<Rightarrow> replyAck m a))"

definition handleSetMode :: "agent_env \<Rightarrow> msg \<Rightarrow> agent \<Rightarrow> agent" where
  "handleSetMode e m a = (case agent_session (m_sid m) a of
     None \<Rightarrow> replyError e m ErrUnknownSession a
   | Some (h, s) \<Rightarrow>
       if m_mode m \<noteq> ApprovalNotify \<and> m_mode m \<noteq> ApprovalRemoteFirst then replyError e m ErrBadMode a
       else
         let (s', info) = SetApprovalMode (m_mode m) s;
             a = sendMsg ((Msg0 TSessionUpdated)\<lparr>m_sid := m_sid m, m_session := Some info\<rparr>) (put_obj h s' a)
         in replyAck m a)"

definition handleDecide :: "agent_env \<Rightarrow> msg \<Rightarrow> agent \<Rightarrow> agent" where
  "handleDecide e m a =
     (let by = (if m_by m = '''' then m_client_id m else m_by m);
          by = (if by = '''' then ''relay'' else by);
          (st, r) = store_Decide (m_key m) (m_decision m) by (ae_now e) (ag_store a)
      in case r of
           None \<Rightarrow> replyError e m ErrNotPending a
         | Some _ \<Rightarrow> a\<lparr>ag_store := st\<rparr>)"

definition onHeartbeatEcho :: "instant \<Rightarrow> heartbeat option \<Rightarrow> agent \<Rightarrow> agent" where
  "onHeartbeatEcho now hb a = (case hb of
     None \<Rightarrow> a
   | Some hb \<Rightarrow> if hb_sent_at hb = 0 then a
       else a\<lparr>ag_rtt := time_sub now (hb_sent_at hb), ag_last_echo := now\<rparr>)"

definition handleClose :: "agent_env \<Rightarrow> msg \<Rightarrow> agent \<Rightarrow> agent" where
  "handleClose e m a = (case closeSession (ae_now e) (m_sid m) a of
     (a, False) \<Rightarrow> replyError e m ErrUnknownSession a
   | (a, True) \<Rightarrow>
       sendMsg ((Msg0 TSessionClosed)\<lparr>m_req_id := m_req_id m, m_client_id := m_client_id m, m_sid := m_sid m\<rparr>) a)"

definition handleDetach :: "agent_env \<Rightarrow> msg \<Rightarrow> agent \<Rightarrow> agent" where
  "handleDetach e m a = (case handle_of (m_sid m) a of
     None \<Rightarrow> a | Some h \<Rightarrow> session_op (ae_now e) h OpDetach a)"

definition handleSignal :: "agent_env \<Rightarrow> msg \<Rightarrow> agent \<Rightarrow> agent" where
  "handleSignal e m a = (case handle_of (m_sid m) a of
     None \<Rightarrow> replyError e m ErrUnknownSession a
   | Some h \<Rightarrow> start_task (SignalTask h m) a)"

definition handleMsg :: "agent_env \<Rightarrow> msg \<Rightarrow> agent \<Rightarrow> agent" where
  "handleMsg e m a = (case m_t m of
     TAck \<Rightarrow> if m_req_id m \<noteq> '''' \<and> m_req_id m = ag_hello_id a then a\<lparr>ag_hello_ok := True\<rparr> else a
   | THeartbeat \<Rightarrow> onHeartbeatEcho (ae_now e) (m_heartbeat m) a
   | TSessionOpen \<Rightarrow> handleOpen e m a
   | TSessionAttach \<Rightarrow> handleAttach e m a
   | TSessionDetach \<Rightarrow> handleDetach e m a
   | TSessionResize \<Rightarrow> handleResize e m a
   | TSessionSignal \<Rightarrow> handleSignal e m a
   | TSessionClose \<Rightarrow> handleClose e m a
   | TSessionSetMode \<Rightarrow> handleSetMode e m a
   | TApprovalDecide \<Rightarrow> handleDecide e m a
   | _ \<Rightarrow> a)"

text \<open>The frames from the relay: input, resize and acknowledgements.\<close>

definition handleFrame :: "agent_env \<Rightarrow> frame \<Rightarrow> agent \<Rightarrow> agent" where
  "handleFrame e f a =
     (if fr_type f = FrameInput then
        (case handle_of (fr_sid f) a of
           None \<Rightarrow> a
         | Some h \<Rightarrow> session_op (ae_now e) h (OpWrite (ae_pty_ok e) (fr_payload f)) a)
      else if fr_type f = FrameResize then
        (case handle_of (fr_sid f) a of
           None \<Rightarrow> a
         | Some h \<Rightarrow>
             (case ParseResize (fr_payload f) of
                Inl _ \<Rightarrow> a
              | Inr (cols, rows) \<Rightarrow> fst (session_resize e h cols rows a)))
      else if fr_type f = FrameAck then
        let old = (case mget (ag_acks a) (fr_sid f) of None \<Rightarrow> 0 | Some q \<Rightarrow> q)
        in if fr_seq f > old then a\<lparr>ag_acks := mput (fr_sid f) (fr_seq f) (ag_acks a)\<rparr> else a
      else a)"

text \<open>
  A turn of \<^verbatim>\<open>readLoop\<close>: a text that is no message is skipped, a binary message that is no frame
  ends the loop.
\<close>

datatype wire = WireText "msg option" | WireBinary "byte list"

definition readLoop :: "agent_env \<Rightarrow> wire \<Rightarrow> agent \<Rightarrow> agent \<times> bool" where
  "readLoop e w a = (case w of
     WireText None \<Rightarrow> (a, True)
   | WireText (Some m) \<Rightarrow> (handleMsg e m a, True)
   | WireBinary b \<Rightarrow> (case Unmarshal b of Inl _ \<Rightarrow> (a, False) | Inr f \<Rightarrow> (handleFrame e f a, True)))"

section \<open>Goroutines of the handlers\<close>

text \<open>
  A signal: bytes to the terminal, or the three sections of kill-and-resume, between which
  anything may run. The answer is sent at the end.
\<close>

definition signal_bytes :: "agent_env \<Rightarrow> nat \<Rightarrow> msg \<Rightarrow> agent \<Rightarrow> agent" where
  "signal_bytes e h m a = (case obj h a of
     None \<Rightarrow> a
   | Some s \<Rightarrow>
       (case Signal (m_sig m) of
          SendBytes bs \<Rightarrow>
            (case session_Write (ae_pty_ok e) bs s of
               (Some err, fx) \<Rightarrow> replyError e m (ErrSession err) a
             | (None, fx) \<Rightarrow> replyAck m (run_effects (ae_now e) (so_sid (ss_opts s)) h fx a))
        | BadSignal \<Rightarrow> replyError e m (ErrSession (ErrUnknownSignal (m_sig m))) a
        | DoKillResume \<Rightarrow> a))"

definition kill_claim :: "agent_env \<Rightarrow> nat \<Rightarrow> msg \<Rightarrow> agent \<Rightarrow> agent \<times> bool" where
  "kill_claim e h m a = (case obj h a of
     None \<Rightarrow> (a, False)
   | Some s \<Rightarrow>
       (case killResume_claim s of
          Inl err \<Rightarrow> (replyError e m (ErrSession err) a, False)
        | Inr (s', fx) \<Rightarrow> (run_effects (ae_now e) (so_sid (ss_opts s)) h fx (put_obj h s' a), True)))"

definition kill_respawn :: "agent_env \<Rightarrow> nat \<Rightarrow> msg \<Rightarrow> agent \<Rightarrow> agent" where
  "kill_respawn e h m a = (case obj h a of
     None \<Rightarrow> a
   | Some s \<Rightarrow>
       let se = ae_start e (so_sid (ss_opts s));
           (err, s', fx) = killResume_respawn (se_tmux_server se) (se_spawn_ok se) (ae_now e) s;
           a = run_effects (ae_now e) (so_sid (ss_opts s)) h fx (put_obj h s' a)
       in case err of
            Some err \<Rightarrow> replyError e m (ErrSession err) a
          | None \<Rightarrow>
              replyAck m (send_info h (\<lambda>info. (Msg0 TSessionUpdated)\<lparr>m_sid := m_sid m, m_session := Some info\<rparr>) a))"

definition nudge_grow :: "agent_env \<Rightarrow> nat \<Rightarrow> agent \<Rightarrow> agent" where
  "nudge_grow e h a = (case obj h a of
     None \<Rightarrow> a
   | Some s \<Rightarrow>
       let cols = si_cols (ss_info s); rows = si_rows (ss_info s)
       in case session_resize e h (cols + 1) rows a of
            (a, Some _) \<Rightarrow> a
          | (a, None) \<Rightarrow> start_task (NudgeBack h cols rows) a)"

definition nudge_back :: "agent_env \<Rightarrow> nat \<Rightarrow> u16 \<Rightarrow> u16 \<Rightarrow> agent \<Rightarrow> agent" where
  "nudge_back e h cols rows a = fst (session_resize e h cols rows a)"

section \<open>Periodic work\<close>

definition sendHeartbeat :: "instant \<Rightarrow> agent \<Rightarrow> agent" where
  "sendHeartbeat now a =
     (let a = a\<lparr>ag_hb_seq := ag_hb_seq a + 1\<rparr>
      in sendMsg ((Msg0 THeartbeat)\<lparr>m_heartbeat := Some \<lparr>hb_seq = ag_hb_seq a, hb_sent_at = now,
           hb_power = ''unknown'', hb_sessions = sessionHealth a\<rparr>\<rparr>) a)"

definition ptyKey :: "(string \<Rightarrow> byte list) \<Rightarrow> u32 \<Rightarrow> string \<Rightarrow> string" where
  "ptyKey sha sid line = ''pty-'' @ take 12 (hex_encode (sha (''pty'' @ format_uint (unat sid) @ line)))"

definition pty_approval :: "agent_env \<Rightarrow> u32 \<Rightarrow> string \<Rightarrow> session \<Rightarrow> approval" where
  "pty_approval e sid line s =
     \<lparr>ap_key = ptyKey (ae_sha256 e) sid line, ap_sid = sid, ap_device_id = '''', ap_agent = Tool s,
      ap_tool = ''pty'', ap_summary = line, ap_input = '''', ap_cwd = si_cwd (ss_info s), ap_level = LevelSuspect,
      ap_mode = si_approval_mode (ss_info s), ap_created_at = ae_now e, ap_hook_timeout_at = None,
      ap_status = StatusOther '''', ap_decided_by = '''', ap_decided_at = None\<rparr>"

definition pty_state :: "agent_env \<Rightarrow> u32 \<Rightarrow> session_state \<Rightarrow> need_kind \<Rightarrow> agent \<Rightarrow> agent" where
  "pty_state e sid st kind a = agent_SessionState (ae_now e) sid st kind SourcePTY ConfidenceLow a"

definition on_suspect :: "agent_env \<Rightarrow> u32 \<Rightarrow> nat \<Rightarrow> string \<Rightarrow> agent \<Rightarrow> agent" where
  "on_suspect e sid h line a =
     (let a = pty_state e sid StateNeedsInput NeedQuestion a in
      case obj h a of
        None \<Rightarrow> a
      | Some s \<Rightarrow>
          let (st, stored, dup) = store_Add (ae_now e) (pty_approval e sid line s) (ag_store a);
              a = put_obj h (fst (Info s)) (a\<lparr>ag_store := st, ag_pty_keys := mput sid (ap_key stored) (ag_pty_keys a)\<rparr>)
          in if dup then a else agent_ApprovalNew stored a)"

definition on_cleared :: "agent_env \<Rightarrow> u32 \<Rightarrow> agent \<Rightarrow> agent" where
  "on_cleared e sid a =
     (let key = (case mget (ag_pty_keys a) sid of None \<Rightarrow> '''' | Some k \<Rightarrow> k);
          (st, r) = store_Close key ApprovalClosedLocal ''output'' (ae_now e) (ag_store a);
          a = a\<lparr>ag_pty_keys := mdel sid (ag_pty_keys a), ag_store := st\<rparr>;
          a = (case r of None \<Rightarrow> a | Some ap \<Rightarrow> agent_ApprovalClosed ''output'' ap a)
      in pty_state e sid StateRunning no_kind a)"

definition heuristic_session :: "agent_env \<Rightarrow> u32 \<times> nat \<Rightarrow> agent \<Rightarrow> agent" where
  "heuristic_session e sh a = (case sh of (sid, h) \<Rightarrow> (case obj h a of
     None \<Rightarrow> a
   | Some s \<Rightarrow>
       let (s', v) = session_Heuristic (ae_now e) s; a = put_obj h s' a
       in case vd_kind v of
            VerdictSuspect \<Rightarrow> on_suspect e sid h (vd_line v) a
          | VerdictCleared \<Rightarrow> on_cleared e sid a
          | VerdictUnknown \<Rightarrow> pty_state e sid StateUnknown no_kind a
          | VerdictResumed \<Rightarrow> pty_state e sid StateRunning no_kind a
          | _ \<Rightarrow> a))"

definition runHeuristics :: "agent_env \<Rightarrow> agent \<Rightarrow> agent" where
  "runHeuristics e a = fold (heuristic_session e) (ag_sessions a) a"

definition sweep_tick :: "instant \<Rightarrow> agent \<Rightarrow> agent" where
  "sweep_tick now a = a\<lparr>ag_store := store_Sweep (24 * 3600 * second) now (ag_store a)\<rparr>"

section \<open>The agent's process and its connections\<close>

definition helloMsg :: "agent_env \<Rightarrow> string \<Rightarrow> agent \<Rightarrow> agent \<times> msg" where
  "helloMsg e reqID a =
     (let (a, infos) = sessionList a
      in (a, (Msg0 TAgentHello)\<lparr>m_req_id := reqID, m_agent_id := cf_agent_id (ag_cfg a), m_version := ae_version e,
           m_os := ae_os e, m_caps := [''pty'', ''hooks.http''], m_sessions := infos\<rparr>))"

text \<open>\<^verbatim>\<open>runConn\<close> once dialled, and its end. The new connection has an id of its own.\<close>

definition runConn :: "agent_env \<Rightarrow> nat \<Rightarrow> string \<Rightarrow> agent \<Rightarrow> agent" where
  "runConn e cid helloID a =
     (let (a, hello) = helloMsg e helloID a;
          a = a\<lparr>ag_conn := Some \<lparr>wc_id = cid, wc_out = [], wc_sent = [], wc_closed = False\<rparr>, ag_hello_id := helloID\<rparr>
      in sendHeartbeat (ae_now e) (sendMsg hello a))"

definition runConn_end :: "nat \<Rightarrow> agent \<Rightarrow> agent" where
  "runConn_end cid a = (case ag_conn a of
     None \<Rightarrow> a
   | Some w \<Rightarrow> if wc_id w = cid then a\<lparr>ag_conn := None\<rparr> else a)"

definition closeConn :: "agent \<Rightarrow> agent" where
  "closeConn a = a\<lparr>ag_conn := None\<rparr>"

definition new_agent :: "config \<Rightarrow> string \<Rightarrow> string \<Rightarrow> (string, session_meta option) gomap \<Rightarrow> agent" where
  "new_agent cfg root exe dirs =
     \<lparr>ag_cfg = cfg, ag_root = root, ag_exe = exe, ag_store = NewStore, ag_persist = False, ag_tmux_conf = '''',
      ag_objs = [], ag_next = 0, ag_sessions = [], ag_pty_keys = [], ag_acks = [], ag_conn = None, ag_hb_seq = 0,
      ag_rtt = 0, ag_last_echo = 0, ag_hello_ok = False, ag_hello_id = '''', ag_dirs = dirs, ag_tasks = [], ag_fx = []\<rparr>"

text \<open>The configuration file of tmux is written to disk; the argument tells its path, if that worked.\<close>

definition setupPersistence :: "bool \<Rightarrow> string option \<Rightarrow> agent \<Rightarrow> agent" where
  "setupPersistence tmux_available conf a =
     (if \<not> PersistEnabled (ag_cfg a) \<or> \<not> tmux_available then a
      else case conf of None \<Rightarrow> a | Some c \<Rightarrow> a\<lparr>ag_persist := True, ag_tmux_conf := c\<rparr>)"

definition adopt_options :: "session_meta \<Rightarrow> string list \<Rightarrow> agent \<Rightarrow> session_opts" where
  "adopt_options m presetEnv a =
     \<lparr>so_sid = sm_sid m, so_shell = sm_shell m, so_cwd = sm_cwd m,
      so_tool = \<lparr>ts_tool = sm_tool m, ts_name = sm_name m, ts_permission_mode = sm_permission_mode m,
        ts_resume = '''', ts_extra = sm_extra m, ts_settings_path = sm_settings_path m,
        ts_codex_notify = sm_codex_notify m, ts_shell_kind = ''''\<rparr>,
      so_name = sm_name m, so_preset = sm_preset m,
      so_approval_mode = (if sm_approval_mode m = ModeOther '''' then ApprovalNotify else sm_approval_mode m),
      so_env = (''TX_HOOK_TOKEN='' @ cf_hook_token (ag_cfg a)) # presetEnv,
      so_cols = sm_cols m, so_rows = sm_rows m, so_persist = True, so_persist_conf = ag_tmux_conf a,
      so_persist_state_dir = sessionDir a (sm_sid m), so_ring_size = 0, so_on_output = True, so_on_exit = True\<rparr>"

definition agent_adopt :: "agent_env \<Rightarrow> session_meta \<Rightarrow> agent \<Rightarrow> agent" where
  "agent_adopt e m a =
     (let presetEnv = (case Resolve (config_Resolver (ag_cfg a)) (sm_preset m) of Inl _ \<Rightarrow> [] | Inr env \<Rightarrow> env)
      in case Adopt (ae_start e (sm_sid m)) (adopt_options m presetEnv a) of
           Inl _ \<Rightarrow> a
         | Inr (s, fx) \<Rightarrow>
             fst (install (ae_now e) (sm_sid m)
               (if sm_tool_session_id m \<noteq> '''' then SetToolSession (sm_tool_session_id m) s else s) fx a))"

definition adopt_entry :: "agent_env \<Rightarrow> u32 list \<Rightarrow> string \<Rightarrow> agent \<Rightarrow> agent" where
  "adopt_entry e alive name a = (case parse_uint 32 name of
     None \<Rightarrow> a
   | Some n \<Rightarrow>
       let sid = word_of_nat n in
       if sid \<notin> set alive then a\<lparr>ag_dirs := mdel (dir_of sid) (ag_dirs a)\<rparr>
       else case readMeta sid a of None \<Rightarrow> a | Some m \<Rightarrow> agent_adopt e m a)"

text \<open>The entries in the order in which \<^verbatim>\<open>ReadDir\<close> gives them, sorted by name.\<close>

definition adoptSessions :: "agent_env \<Rightarrow> u32 list \<Rightarrow> agent \<Rightarrow> agent" where
  "adoptSessions e alive a =
     (if \<not> ag_persist a then a else fold (adopt_entry e alive) (sort (mkeys (ag_dirs a))) a)"

definition suspendAllSessions :: "instant \<Rightarrow> agent \<Rightarrow> agent" where
  "suspendAllSessions now a =
     fold (\<lambda>h. session_op now h OpSuspend) (mvals (ag_sessions a)) (a\<lparr>ag_sessions := []\<rparr>)"

end
