(* ===== verification/AgentLink.thy ===== *)
theory AgentLink
  imports Agent
begin

text \<open>
  The agent's link to the relay: its bounded send queue loses nothing silently, reconnection backs
  off within bounds, and an attaching client's replay reaches the queue as the frames it needs.
\<close>

section \<open>The queue of a connection\<close>

datatype conn_action = OfferOp out_msg | WriteOp bool | CloseOp

fun conn_op :: "conn_action \<Rightarrow> wsconn \<Rightarrow> wsconn" where
  "conn_op (OfferOp x) w = fst (conn_send x w)"
| "conn_op (WriteOp ok) w = writeLoop ok w"
| "conn_op CloseOp w = conn_close w"

definition offered :: "conn_action list \<Rightarrow> out_msg list" where
  "offered ops = List.map_filter (\<lambda>x. case x of OfferOp m \<Rightarrow> Some m | _ \<Rightarrow> None) ops"

definition fresh_conn :: "nat \<Rightarrow> wsconn" where
  "fresh_conn i = \<lparr>wc_id = i, wc_out = [], wc_sent = [], wc_closed = False\<rparr>"

lemma offered_simps [simp]:
  "offered [] = []" "offered (OfferOp m # ops) = m # offered ops"
  "offered (WriteOp ok # ops) = offered ops" "offered (CloseOp # ops) = offered ops"
  by (simp_all add: offered_def List.map_filter_simps)

lemma offered_append [simp]: "offered (xs @ ys) = offered xs @ offered ys"
  by (simp add: offered_def List.map_filter_def)

text \<open>
  While the connection is open, what was written and what is queued is what was offered; once it
  is closed, what was written stays a prefix of it.
\<close>

definition conn_inv :: "out_msg list \<Rightarrow> wsconn \<Rightarrow> bool" where
  "conn_inv offs w \<longleftrightarrow> length (wc_out w) \<le> sendQueueLen \<and> (\<exists>rest. offs = wc_sent w @ rest)
     \<and> (\<not> wc_closed w \<longrightarrow> wc_sent w @ wc_out w = offs)"

lemma conn_op_inv:
  assumes "conn_inv offs w"
  shows "conn_inv (offs @ offered [x]) (conn_op x w)"
  using assms
  by (cases x) (auto simp: conn_inv_def conn_send_def conn_close_def writeLoop_def split: list.splits)

lemma conn_ops_inv: "conn_inv offs w \<Longrightarrow> conn_inv (offs @ offered ops) (fold conn_op ops w)"
proof (induction ops arbitrary: offs w)
  case (Cons x ops)
  from Cons.IH [OF conn_op_inv [OF Cons.prems, of x]] show ?case
    by (metis append.assoc append_Cons append_Nil fold_simps(2) offered_append)
qed simp

lemma conn_closed_stays: "wc_closed w \<Longrightarrow> wc_closed (fold conn_op ops w) \<and> wc_sent (fold conn_op ops w) = wc_sent w"
proof (induction ops arbitrary: w)
  case (Cons x ops)
  have "wc_closed (conn_op x w) \<and> wc_sent (conn_op x w) = wc_sent w"
    using Cons.prems by (cases x) (auto simp: conn_send_def conn_close_def writeLoop_def)
  with Cons.IH [of "conn_op x w"] show ?case by simp
qed simp

text \<open>C28: The queue to the relay is bounded, ordered and never silently lossy: after any offers,
  writes and closes on a fresh connection, at most 4096 messages wait, the relay has received a
  prefix of what was offered, in order, and unless the connection was closed everything offered
  was received or still waits; after a close nothing more is ever sent.\<close>

theorem send_queue_lossless:
  fixes ops ops' i
  defines "w \<equiv> fold conn_op ops (fresh_conn i)"
  shows "length (wc_out w) \<le> 4096 \<and> (\<exists>rest. offered ops = wc_sent w @ rest)
    \<and> (wc_closed w \<or> wc_sent w @ wc_out w = offered ops)
    \<and> (\<not> wc_closed w \<or> wc_sent (fold conn_op ops' w) = wc_sent w)"
proof -
  have "conn_inv (offered ops) w"
    using conn_ops_inv [of "[]" "fresh_conn i" ops] by (simp add: w_def conn_inv_def fresh_conn_def)
  then show ?thesis
    using conn_closed_stays [of w ops'] by (auto simp: conn_inv_def sendQueueLen_def)
qed

theorem send_queue_lossless_witness:
  "let w = fold conn_op [OfferOp (OutBinary [1]), WriteOp True, OfferOp (OutBinary [2]), CloseOp] (fresh_conn 1)
   in wc_closed w \<and> wc_sent w = [OutBinary [1]]
     \<and> wc_sent (fold conn_op [OfferOp (OutBinary [3]), WriteOp True] w) = [OutBinary [1]]"
proof -
  let ?w = "fold conn_op [OfferOp (OutBinary [1]), WriteOp True, OfferOp (OutBinary [2]), CloseOp] (fresh_conn 1)"
  have "wc_closed ?w" "wc_sent ?w = [OutBinary [1]]"
    by (simp_all add: fresh_conn_def conn_send_def sendQueueLen_def writeLoop_def conn_close_def)
  with send_queue_lossless [of "[OfferOp (OutBinary [1]), WriteOp True, OfferOp (OutBinary [2]), CloseOp]" 1
      "[OfferOp (OutBinary [3]), WriteOp True]"]
  show ?thesis unfolding Let_def by metis
qed

section \<open>Reconnecting\<close>

lemma backoff_base_eq: "backoff_base n d = (if n = 0 \<or> backoffMax \<le> d then d else backoff_base (n - 1) (2 * d))"
  by (cases n) auto

lemma backoff_base_bounds: "0 < d \<Longrightarrow> d \<le> backoffMax \<Longrightarrow> d \<le> backoff_base n d \<and> backoff_base n d < 2 * backoffMax"
proof (induction n arbitrary: d)
  case (Suc n)
  show ?case
  proof (cases "2 * d \<le> backoffMax")
    case True
    with Suc.IH [of "2 * d"] Suc.prems show ?thesis by auto
  next
    case False
    then show ?thesis using Suc.prems by (cases n) auto
  qed
qed (auto simp: backoffMax_def duration_defs)

lemma backoff_values:
  "(if backoff_base n backoffMin > backoffMax then backoffMax else backoff_base n backoffMin) = min backoffMax (2 ^ n * backoffMin)"
proof -
  have *: "0 < d \<Longrightarrow> d \<le> backoffMax \<Longrightarrow>
      (if backoff_base n d > backoffMax then backoffMax else backoff_base n d) = min backoffMax (2 ^ n * d)" for d
  proof (induction n arbitrary: d)
    case (Suc n)
    have pow: "2 ^ n * (2 * d) \<ge> 2 * d"
      using Suc.prems(1) by (simp add: mult_le_cancel_right1 mult.commute)
    show ?case
    proof (cases "2 * d \<le> backoffMax")
      case True
      with Suc.IH [of "2 * d"] Suc.prems show ?thesis
        by (auto simp: mult.assoc mult.left_commute)
    next
      case False
      then have "backoff_base n (2 * d) = 2 * d"
        by (cases n) auto
      moreover have "backoffMax \<le> 2 ^ Suc n * d"
        using pow False by simp
      ultimately show ?thesis
        using False Suc.prems by (auto simp: min_def simp del: power_Suc)
    qed
  qed (auto simp: min_def)
  show ?thesis
    by (rule *) (simp_all add: backoffMin_def backoffMax_def duration_defs)
qed

text \<open>Reconnection backs off within bounds: attempt \<open>n\<close> waits \<open>2\<^sup>n \<cdot> 2\<close> s, at most 16 s, give or
  take a quarter, so between 1.5 s and 20 s; the attempt counter grows by one unless the last
  connection's hello was acknowledged, which starts it anew.\<close>

theorem backoff_bounds:
  assumes "4 * \<bar>jitter\<bar> \<le> min backoffMax (2 ^ n * backoffMin)"
  shows "backoffDelay jitter n = min (16 * second) (2 ^ n * (2 * second)) + jitter
    \<and> 1500 * millisecond \<le> backoffDelay jitter n \<and> backoffDelay jitter n \<le> 20 * second
    \<and> fst (snd (connection_lost jitter n a)) = (if ag_hello_ok a then 1 else n + 1)
    \<and> \<not> ag_hello_ok (fst (connection_lost jitter n a))"
proof -
  have D: "backoffDelay jitter n = min backoffMax (2 ^ n * backoffMin) + jitter"
    by (simp add: backoffDelay_def Let_def backoff_values)
  have "backoffMin \<le> 2 ^ n * backoffMin"
    by (simp add: backoffMin_def duration_defs)
  then have "backoffMin \<le> min backoffMax (2 ^ n * backoffMin)" "min backoffMax (2 ^ n * backoffMin) \<le> backoffMax"
    by (simp_all add: backoffMin_def backoffMax_def duration_defs)
  moreover have "1500 * millisecond \<le> d + jitter \<and> d + jitter \<le> 20 * second"
    if "4 * \<bar>jitter\<bar> \<le> d" "backoffMin \<le> d" "d \<le> backoffMax" for d
    using that by (auto simp: backoffMin_def backoffMax_def duration_defs)
  ultimately have "1500 * millisecond \<le> min backoffMax (2 ^ n * backoffMin) + jitter"
    "min backoffMax (2 ^ n * backoffMin) + jitter \<le> 20 * second"
    using assms by blast+
  then show ?thesis
    by (simp add: D connection_lost_def Let_def) (simp add: backoffMin_def backoffMax_def)
qed

theorem backoff_bounds_witness:
  "backoffDelay (- 500 * millisecond) 0 = 1500 * millisecond \<and> backoffDelay (4 * second) 9 = 20 * second"
  using backoff_bounds [of "- 500 * millisecond" 0 "new_agent undefined '''' '''' []"]
    backoff_bounds [of "4 * second" 9 "new_agent undefined '''' '''' []"]
  by (simp add: backoffMin_def backoffMax_def duration_defs)


section \<open>Attaching, from the session to the queue\<close>

definition frames_in :: "out_msg list \<Rightarrow> frame list" where
  "frames_in xs = List.map_filter (\<lambda>x. case x of
     OutBinary b \<Rightarrow> (case Unmarshal b of Inr f \<Rightarrow> Some f | Inl _ \<Rightarrow> None) | OutText _ \<Rightarrow> None) xs"

definition wire_bytes :: "frame \<Rightarrow> byte list" where
  "wire_bytes f = (case Marshal f of Inr b \<Rightarrow> b | Inl _ \<Rightarrow> [])"

definition sendable :: "frame list \<Rightarrow> bool" where
  "sendable fs \<longleftrightarrow> (\<forall>f \<in> set fs. \<exists>b. Marshal f = Inr b)"

lemma sendable_append [simp]: "sendable (xs @ ys) \<longleftrightarrow> sendable xs \<and> sendable ys"
  by (auto simp: sendable_def)

lemma sendable_Chunk: "sendable (Chunk t sid seq payload extra)"
  using Chunk_spec [of t sid seq payload extra] by (simp add: sendable_def)

abbreviation as_messages :: "frame list \<Rightarrow> out_msg list" where
  "as_messages fs \<equiv> map (\<lambda>f. OutBinary (wire_bytes f)) fs"

lemma frames_in_messages: "sendable fs \<Longrightarrow> frames_in (as_messages fs) = fs"
  by (induction fs)
     (auto simp: frames_in_def sendable_def wire_bytes_def List.map_filter_simps Marshal_Unmarshal_eq)

lemma conn_send_cases:
  "\<not> wc_closed (fst (conn_send x w)) \<Longrightarrow> \<not> wc_closed w \<and> wc_out (fst (conn_send x w)) = wc_out w @ [x]"
  by (auto simp: conn_send_def conn_close_def split: if_splits)

text \<open>Frames sent while connected change the queue and nothing else.\<close>

lemma send_frames:
  assumes "sendable fs" and "ag_conn a = Some w"
  shows "\<exists>w'. fold sendFrame fs a = a\<lparr>ag_conn := Some w'\<rparr> \<and> (wc_closed w \<longrightarrow> wc_closed w')
    \<and> (\<not> wc_closed w' \<longrightarrow> wc_out w' = wc_out w @ as_messages fs)"
  using assms
proof (induction fs arbitrary: a w)
  case (Cons f fs)
  let ?x = "OutBinary (wire_bytes f)"
  let ?w = "fst (conn_send ?x w)"
  have send: "sendFrame f a = a\<lparr>ag_conn := Some ?w\<rparr>"
    using Cons.prems by (auto simp: sendable_def sendFrame_def agent_send_def wire_bytes_def)
  have "sendable fs"
    using Cons.prems(1) by (simp add: sendable_def)
  then obtain w' where w': "fold sendFrame fs (a\<lparr>ag_conn := Some ?w\<rparr>) = a\<lparr>ag_conn := Some w'\<rparr>"
    "wc_closed ?w \<longrightarrow> wc_closed w'" "\<not> wc_closed w' \<longrightarrow> wc_out w' = wc_out ?w @ as_messages fs"
    using Cons.IH [of "a\<lparr>ag_conn := Some ?w\<rparr>" ?w] by auto
  moreover have "wc_closed w \<longrightarrow> wc_closed ?w"
    by (simp add: conn_send_def conn_close_def)
  ultimately show ?case
    using conn_send_cases [of ?x w] by (intro exI [of _ w']) (auto simp: send)
next
  case Nil
  then show ?case by (intro exI [of _ w]) simp
qed

lemma mput_mput [simp]: "mput k v (mput k v' m) = mput k v m"
  by (induction m) (auto simp: mput_def)

lemma obj_simps [simp]:
  "obj h (put_obj h' s a) = (if h = h' then Some s else obj h a)" "ag_conn (put_obj h s a) = ag_conn a"
  "obj h (a\<lparr>ag_conn := c\<rparr>) = obj h a" "put_obj h s (put_obj h s' a) = put_obj h s a"
  "ag_conn (start_task t a) = ag_conn a" "ag_sessions (put_obj h s a) = ag_sessions a"
  by (simp_all add: obj_def put_obj_def start_task_def)

lemma flush_effects: "snd (flush s) = (if ss_pending s = [] \<or> \<not> so_on_output (ss_opts s) then [] else [Output (ss_pending_seq s) (ss_pending s)])"
  by (simp add: flush_def flushLocked_def Let_def)

lemma same_stream_Attach: "same_stream s (Attach s)"
  by (simp add: Attach_def same_stream_def)

text \<open>The frames of an attach: the pending batch for everyone, then the replay.\<close>

definition pending_frames :: "u32 \<Rightarrow> session \<Rightarrow> frame list" where
  "pending_frames sid s = (if ss_pending s = [] then [] else Chunk FrameOutput sid (ss_pending_seq s) (ss_pending s) 0)"

definition replay_frames :: "u32 \<Rightarrow> u64 \<Rightarrow> session \<Rightarrow> byte list \<Rightarrow> frame list" where
  "replay_frames sid q s xs = Chunk FrameSnapshot sid (word_of_nat (length xs)) (replay_data q s xs)
     (if replay_delta q s xs then 0 else FlagReset)"

lemma attach_frames:
  assumes sess: "agent_session (m_sid m) a = Some (h, s)" and sid: "so_sid (ss_opts s) = m_sid m"
    and inv: "stream_inv s xs" "length xs < stream_bound"
  shows "ag_conn (handleAttach e m a) =
    ag_conn (fold sendFrame (pending_frames (m_sid m) s @ replay_frames (m_sid m) (m_last_seq m) s xs)
      (put_obj h (fst (flush (Attach s))) a))"
proof -
  let ?sid = "m_sid m" and ?q = "m_last_seq m"
  let ?a = "put_obj h (fst (flush (Attach s))) a"
  have at: "ss_pending (Attach s) = ss_pending s" "ss_pending_seq (Attach s) = ss_pending_seq s"
    "ss_opts (Attach s) = ss_opts s" "replay_data ?q (Attach s) xs = replay_data ?q s xs"
    "replay_delta ?q (Attach s) xs = replay_delta ?q s xs"
    by (simp_all add: Attach_def replay_data_def replay_delta_def)
  have on: "so_on_output (ss_opts s)" and inv': "stream_inv (Attach s) xs"
    using inv(1) same_stream_inv [OF same_stream_Attach] by (simp_all add: stream_inv_def)
  have obj: "obj h a = Some s"
    using sess by (auto simp: agent_session_def split: option.splits)
  have "session_op (ae_now e) h OpAttach a = put_obj h (Attach s) a"
    by (simp add: session_op_def obj run_effects_def)
  moreover have "session_op (ae_now e) h (OpReplay ?q) (put_obj h (Attach s) a) =
      run_effects (ae_now e) ?sid h (snd (flush (Attach s)) @ [Replayed (replay_data ?q s xs) (word_of_nat (length xs)) (replay_delta ?q s xs)]) ?a"
    by (simp add: session_op_def Replay_spec [OF inv' inv(2)] at sid)
  moreover have "\<dots> = fold sendFrame (pending_frames ?sid s @ replay_frames ?sid ?q s xs) ?a"
    by (simp add: flush_effects at on run_effects_def onOutput_def send_replay_def pending_frames_def replay_frames_def)
  ultimately show ?thesis
    by (auto simp: handleAttach_def sess Let_def split: option.splits)
qed



lemma send_frames_room:
  "sendable fs \<Longrightarrow> ag_conn a = Some w \<Longrightarrow> \<not> wc_closed w \<Longrightarrow> length (wc_out w) + length fs \<le> sendQueueLen \<Longrightarrow>
   \<exists>w'. ag_conn (fold sendFrame fs a) = Some w' \<and> \<not> wc_closed w'"
proof (induction fs arbitrary: a w)
  case (Cons f fs)
  let ?w = "w\<lparr>wc_out := wc_out w @ [OutBinary (wire_bytes f)]\<rparr>"
  have "sendFrame f a = a\<lparr>ag_conn := Some ?w\<rparr>"
    using Cons.prems by (auto simp: sendable_def sendFrame_def agent_send_def wire_bytes_def conn_send_def)
  moreover have "sendable fs"
    using Cons.prems(1) by (simp add: sendable_def)
  ultimately show ?case
    using Cons.IH [of "a\<lparr>ag_conn := Some ?w\<rparr>" ?w] Cons.prems by simp
qed simp

definition demo_agent :: "session \<Rightarrow> agent" where
  "demo_agent s = (new_agent undefined ''/r'' ''/tx'' [])\<lparr>ag_objs := [(0, s)], ag_next := 1, ag_sessions := [(7, 0)],
     ag_conn := Some (fresh_conn 1)\<rparr>"

definition demo_aenv :: agent_env where
  "demo_aenv = \<lparr>ae_now = 10, ae_rand = [7], ae_start = (\<lambda>_. demo_env), ae_settings = None, ae_files_ok = True,
     ae_pty_ok = True, ae_hooks_port = 9, ae_version = [], ae_os = [], ae_sha256 = (\<lambda>s. bytes_of s),
     ae_canon = (\<lambda>s. s), ae_decode = (\<lambda>_. None), ae_quote = (\<lambda>s. s), ae_wording = (\<lambda>_. [])\<rparr>"

definition demo_attach :: msg where
  "demo_attach = (Msg0 TSessionAttach)\<lparr>m_sid := 7, m_last_seq := 2\<rparr>"

lemma demo_agent_session: "agent_session 7 (demo_agent s) = Some (0, s)"
  by (simp add: agent_session_def handle_of_def obj_def demo_agent_def new_agent_def mget_Cons)

lemma length_small_Chunk: "length p \<le> MaxPayload \<Longrightarrow> length (Chunk t sid seq p extra) = 1"
  by (auto simp: Chunk_def chunk_loop_step chunk_loop_done chunk_end_def Let_def)

lemma demo_start_fields:
  assumes "start demo_env demo_opts False = Inr (s, fx)"
  shows "ss_pending s = []" "so_sid (ss_opts s) = 7"
  using assms by (auto simp: demo_defs Let_def)

lemma emit_fields:
  "ss_opts (fst (emit now d s)) = ss_opts s"
  "length (ss_pending s @ d) < batch_limit \<Longrightarrow> ss_pending (fst (emit now d s)) = ss_pending s @ d"
  "ss_opts (fst (flush s)) = ss_opts s" "ss_pending (fst (flush s)) = []"
  by (simp_all add: emit_def emit_locked_def flush_def flushLocked_def Let_def case_prod_beta)

text \<open>A session with five bytes of output, of which two are pending, and the attach message for it.\<close>

abbreviation demo_ops :: "op list" where
  "demo_ops \<equiv> [OpEmit 1 [1, 2, 3], OpFlush, OpEmit 2 [4, 5]]"

lemma demo_attached:
  obtains s0 fx0 s fx w' where "start demo_env demo_opts False = Inr (s0, fx0)" "so_on_output demo_opts"
    and "perform_all demo_ops s0 = (s, fx)" and "start_history demo_env False @ emitted_all demo_ops s0 = [1, 2, 3, 4, 5]"
    and "ring_Cap (ss_ring s) = 4" "ss_pending s = [4, 5]" "so_sid (ss_opts s) = 7"
    and "ag_conn (handleMsg demo_aenv demo_attach (demo_agent s)) = Some w'" "\<not> wc_closed w'" "length (wc_out w') = 2"
proof -
  obtain s0 fx0 where 0: "start demo_env demo_opts False = Inr (s0, fx0)" "so_on_output demo_opts"
    and cap0: "ring_Cap (ss_ring s0) = 4"
    by (rule demo_start)
  obtain s fx where 1: "perform_all demo_ops s0 = (s, fx)"
    by fastforce
  have xs: "start_history demo_env False @ emitted_all demo_ops s0 = [1, 2, 3, 4, 5]"
    by (simp add: start_history_def)
  note step = perform_all_stream [OF start_stream(1) [OF 0], of demo_ops]
  have inv: "stream_inv s [1, 2, 3, 4, 5]" and cap: "ring_Cap (ss_ring s) = 4"
    using step cap0 1 xs by (simp_all add: stream_step_def)
  have pend: "ss_pending s = [4, 5]" and sid: "so_sid (ss_opts s) = 7"
    using demo_start_fields [OF 0(1)] 1 by (auto simp: emit_fields batch_limit_def case_prod_beta)
  let ?fs = "pending_frames 7 s @ replay_frames 7 2 s [1, 2, 3, 4, 5]" and ?a = "put_obj 0 (fst (flush (Attach s))) (demo_agent s)"
  have ok: "sendable ?fs"
    by (simp add: pending_frames_def replay_frames_def sendable_Chunk) (simp add: sendable_def)
  have len: "length ?fs = 2"
    by (simp add: pending_frames_def replay_frames_def replay_data_def replay_delta_def cap pend length_small_Chunk MaxPayload_def)
  have conn: "ag_conn ?a = Some (fresh_conn 1)"
    by (simp add: demo_agent_def)
  obtain w' where w': "ag_conn (fold sendFrame ?fs ?a) = Some w'" "\<not> wc_closed w'"
    using send_frames_room [OF ok conn] len by (auto simp: fresh_conn_def sendQueueLen_def)
  moreover have "length (wc_out w') = 2"
    using send_frames [OF ok conn] w' len by (auto simp: fresh_conn_def)
  moreover have "ag_conn (handleMsg demo_aenv demo_attach (demo_agent s)) = Some w'"
    using attach_frames [OF _ _ inv, of demo_attach "demo_agent s" 0 demo_aenv] w'(1) demo_agent_session [of s] sid
    by (simp add: handleMsg_def demo_attach_def stream_bound_def)
  ultimately show ?thesis using that 0 1 xs cap pend sid by blast
qed


end
