(* ===== verification/AgentLife.thy ===== *)
theory AgentLife
  imports AgentLink
begin

text \<open>
  The life of the agent's sessions: fresh ids, the heuristic's influence on the reported state, and
  the adoption of persisted sessions by the next agent process.
\<close>

section \<open>What sending leaves alone\<close>

text \<open>Sending and the callbacks only touch the connection, the approval store and the log.\<close>

definition tables :: "agent \<Rightarrow> agent" where
  "tables a = a\<lparr>ag_conn := None, ag_store := NewStore, ag_fx := []\<rparr>"

definition same_tables :: "agent \<Rightarrow> agent \<Rightarrow> bool" where
  "same_tables a a' \<longleftrightarrow> tables a' = tables a"

lemma tables_sel:
  "ag_sessions (tables a) = ag_sessions a" "ag_objs (tables a) = ag_objs a" "ag_next (tables a) = ag_next a"
  "ag_dirs (tables a) = ag_dirs a" "ag_persist (tables a) = ag_persist a" "ag_cfg (tables a) = ag_cfg a"
  "ag_root (tables a) = ag_root a" "ag_tmux_conf (tables a) = ag_tmux_conf a" "ag_pty_keys (tables a) = ag_pty_keys a"
  "ag_acks (tables a) = ag_acks a" "tables (a\<lparr>ag_conn := c\<rparr>) = tables a" "tables (a\<lparr>ag_store := st\<rparr>) = tables a"
  "tables (a\<lparr>ag_fx := fx\<rparr>) = tables a"
  by (simp_all add: tables_def)

lemma same_tables_simps:
  assumes "same_tables a a'"
  shows "ag_sessions a' = ag_sessions a" "ag_objs a' = ag_objs a" "ag_next a' = ag_next a" "ag_dirs a' = ag_dirs a"
    "ag_persist a' = ag_persist a" "ag_cfg a' = ag_cfg a" "ag_root a' = ag_root a" "ag_tmux_conf a' = ag_tmux_conf a"
    "ag_pty_keys a' = ag_pty_keys a" "ag_acks a' = ag_acks a" "obj h a' = obj h a" "agent_session sid a' = agent_session sid a"
proof -
  have E: "tables a' = tables a"
    using assms by (simp add: same_tables_def)
  show *: "ag_sessions a' = ag_sessions a" "ag_objs a' = ag_objs a" "ag_next a' = ag_next a" "ag_dirs a' = ag_dirs a"
    "ag_persist a' = ag_persist a" "ag_cfg a' = ag_cfg a" "ag_root a' = ag_root a" "ag_tmux_conf a' = ag_tmux_conf a"
    "ag_pty_keys a' = ag_pty_keys a" "ag_acks a' = ag_acks a"
    using arg_cong [OF E, of ag_sessions] arg_cong [OF E, of ag_objs] arg_cong [OF E, of ag_next] arg_cong [OF E, of ag_dirs]
      arg_cong [OF E, of ag_persist] arg_cong [OF E, of ag_cfg] arg_cong [OF E, of ag_root] arg_cong [OF E, of ag_tmux_conf]
      arg_cong [OF E, of ag_pty_keys] arg_cong [OF E, of ag_acks]
    by (simp_all add: tables_sel)
  have "obj k a' = obj k a" for k
    by (simp add: obj_def *)
  then show "obj h a' = obj h a" "agent_session sid a' = agent_session sid a"
    by (simp_all add: agent_session_def handle_of_def * split: option.split)
qed

lemma same_tables_refl [simp]: "same_tables a a"
  by (simp add: same_tables_def)

lemma same_tables_trans: "same_tables a b \<Longrightarrow> same_tables b c \<Longrightarrow> same_tables a c"
  by (auto simp: same_tables_def)

lemma same_tables_fold: "(\<And>x a. same_tables a (f x a)) \<Longrightarrow> same_tables a (fold f xs a)"
  by (induction xs arbitrary: a) (auto intro: same_tables_trans)

lemma same_tables_send: "same_tables a (agent_send x a)"
  by (auto simp: agent_send_def same_tables_def tables_sel split: option.split)

lemma same_tables_upd [simp]:
  "same_tables a (a'\<lparr>ag_store := st\<rparr>) = same_tables a a'" "same_tables a (a'\<lparr>ag_fx := fx\<rparr>) = same_tables a a'"
  "same_tables (a\<lparr>ag_store := st\<rparr>) a' = same_tables a a'"
  by (simp_all add: same_tables_def tables_sel)

lemma same_tables_msg [simp]: "same_tables a (sendMsg m a)"
  by (simp add: sendMsg_def same_tables_send)

lemma same_tables_frame [simp]: "same_tables a (sendFrame f a)"
  by (simp add: sendFrame_def same_tables_send split: sum.split)

lemma same_tables_closed [simp]: "same_tables a (agent_ApprovalClosed by ap a)" "same_tables a (agent_ApprovalNew ap a)"
  by (simp_all add: agent_ApprovalClosed_def agent_ApprovalNew_def Let_def)

lemma same_tables_approvals [simp]: "same_tables a (close_approvals now sid by a)"
proof -
  have "same_tables (a\<lparr>ag_store := st\<rparr>) (fold (agent_ApprovalClosed by) out (a\<lparr>ag_store := st\<rparr>))" for st out
    by (rule same_tables_fold) simp
  then show ?thesis
    by (simp add: close_approvals_def case_prod_beta)
qed

lemma same_tables_effect: "same_tables a (run_effect now sid h fx a)"
proof (cases fx)
  case (Exited code r)
  show ?thesis
    unfolding Exited run_effect.simps onExit_def Let_def
    by (rule same_tables_trans [OF same_tables_frame same_tables_trans [OF same_tables_msg same_tables_approvals]])
qed (simp_all add: onOutput_def send_replay_def same_tables_fold)

lemma same_tables_effects [simp]: "same_tables a (run_effects now sid h fx a)"
  by (simp add: run_effects_def same_tables_fold same_tables_effect)

section \<open>Fresh session ids\<close>

text \<open>The ids that a list of random words offers, in order.\<close>

definition sid_candidates :: "u32 list \<Rightarrow> u32 list" where
  "sid_candidates ws = filter (\<lambda>sid. sid \<noteq> 0) (map (\<lambda>w. and w 0x7fffffff) ws)"

lemma NewSID_candidates:
  "map_option fst (NewSID ws) = (case sid_candidates ws of [] \<Rightarrow> None | sid # _ \<Rightarrow> Some sid)
   \<and> (\<forall>sid ws'. NewSID ws = Some (sid, ws') \<longrightarrow> sid_candidates ws = sid # sid_candidates ws')"
  by (induction ws) (auto simp: sid_candidates_def Let_def)

lemma fresh_sid_find: "fresh_sid used ws = List.find (\<lambda>sid. \<not> used sid) (sid_candidates ws)"
proof (induction used ws rule: fresh_sid.induct)
  case (1 used ws)
  show ?case
  proof (cases "NewSID ws")
    case None
    then show ?thesis
      using NewSID_candidates [of ws] by (simp add: fresh_sid.simps [of used ws] split: list.splits)
  next
    case (Some x)
    then obtain sid ws' where x: "NewSID ws = Some (sid, ws')" by fastforce
    with 1 [OF Some, of sid ws'] NewSID_candidates [of ws] Some show ?thesis
      by (auto simp: fresh_sid.simps [of used ws])
  qed
qed

lemma masked_sid: "unat (and w (0x7fffffff :: u32)) < 2 ^ 31"
proof -
  have "(0x7fffffff :: u32) = mask 31"
    by (simp add: mask_eq_exp_minus_1)
  then have "unat (and w (0x7fffffff :: u32)) = unat w mod 2 ^ 31"
    by (metis take_bit_eq_mask take_bit_eq_mod unsigned_take_bit_eq)
  then show ?thesis by simp
qed

lemma fresh_sid_ok:
  assumes "fresh_sid used ws = Some sid"
  shows "sid \<noteq> 0" "unat sid < 2 ^ 31" "\<not> used sid"
proof -
  from assms have "sid \<in> set (sid_candidates ws)" "\<not> used sid"
    by (auto simp: fresh_sid_find find_Some_iff)
  then show "sid \<noteq> 0" "unat sid < 2 ^ 31" "\<not> used sid"
    using masked_sid by (auto simp: sid_candidates_def)
qed

text \<open>C29: The search for a session id ends and never reuses one: it returns as soon as a random word
  gives an id, and whenever one of the words given does; the id is not zero, fits 31 bits and
  is not the id of a session the agent has, so that opening never replaces a session.\<close>

theorem fresh_sid_terminates:
  "(fresh_sid used ws \<noteq> None \<longleftrightarrow> (\<exists>w \<in> set ws. and w 0x7fffffff \<noteq> 0 \<and> \<not> used (and w 0x7fffffff)))
   \<and> (fresh_sid used ws = Some sid \<longrightarrow> sid \<noteq> 0 \<and> unat sid < 2 ^ 31 \<and> \<not> used sid)
   \<and> (case openSession e oreq a of (a', Inl _) \<Rightarrow> ag_sessions a' = ag_sessions a
      | (a', Inr h) \<Rightarrow> \<exists>sid. mget (ag_sessions a) sid = None \<and> h = ag_next a \<and> ag_sessions a' = mput sid h (ag_sessions a))"
proof (intro conjI impI)
  show "fresh_sid used ws \<noteq> None \<longleftrightarrow> (\<exists>w \<in> set ws. and w 0x7fffffff \<noteq> 0 \<and> \<not> used (and w 0x7fffffff))"
    by (auto simp: fresh_sid_find find_None_iff sid_candidates_def)
  assume "fresh_sid used ws = Some sid"
  then show "sid \<noteq> 0" "unat sid < 2 ^ 31" "\<not> used sid"
    by (rule fresh_sid_ok)+
next
  show "case openSession e oreq a of (a', Inl _) \<Rightarrow> ag_sessions a' = ag_sessions a
      | (a', Inr h) \<Rightarrow> \<exists>sid. mget (ag_sessions a) sid = None \<and> h = ag_next a \<and> ag_sessions a' = mput sid h (ag_sessions a)"
  proof -
    have start: "case start_opened e oreq tool mode opts sid b of (a', Inl _) \<Rightarrow> ag_sessions a' = ag_sessions b
      | (a', Inr h) \<Rightarrow> h = ag_next b \<and> ag_sessions a' = mput sid h (ag_sessions b)" for tool mode opts sid b
    proof (cases "Start (ae_start e sid) opts")
      case (Inr x)
      then show ?thesis
        by (cases x) (auto simp: start_opened_def install_def writeMeta_def put_obj_def Let_def case_prod_beta
            same_tables_simps [OF same_tables_effects])
    qed (simp add: start_opened_def)
    define busy where "busy = (\<lambda>sid. mget (ag_sessions a) sid \<noteq> None)"
    have dir: "ag_sessions (settings_dir tool sid a) = ag_sessions a" "ag_next (settings_dir tool sid a) = ag_next a" for tool sid
      by (simp_all add: settings_dir_def)
    have fresh: "mget (ag_sessions a) sid = None" if "fresh_sid busy (ae_rand e) = Some sid" for sid
      using fresh_sid_ok(3) [OF that] by (simp add: busy_def)
    define tool where "tool = (if or_tool oreq = '''' then ToolShell else or_tool oreq)"
    define mode where "mode = (if or_approval_mode oreq = ModeOther '''' then ApprovalNotify else or_approval_mode oreq)"
    note D = openSession_def [of e oreq a, folded tool_def mode_def, unfolded Let_def, folded tool_def mode_def busy_def]
    show ?thesis
    proof (cases "known_tool tool")
      case known: True
      show ?thesis
      proof (cases "Resolve (config_Resolver (ag_cfg a)) (or_preset oreq)")
        case env: (Inr presetEnv)
        show ?thesis
        proof (cases "fresh_sid busy (ae_rand e)")
          case sid: (Some sid)
          show ?thesis
          proof (cases "tool_spec_for e oreq tool sid a")
            case (Some spec)
            let ?o = "open_options e oreq spec mode (tool_env e tool a presetEnv) sid a"
            have "openSession e oreq a = start_opened e oreq tool mode ?o sid (settings_dir tool sid a)"
              by (simp add: D known env sid Some)
            then show ?thesis
              using start [where tool = tool and mode = mode and opts = ?o and sid = sid and b = "settings_dir tool sid a"] fresh [OF sid]
              by (auto simp: dir split: prod.splits sum.splits)
          qed (simp add: D known env sid)
        qed (simp add: D known env)
      qed (simp add: D known)
    qed (simp add: D)
  qed
qed


theorem fresh_sid_terminates_witness:
  "fresh_sid (\<lambda>s. s = 5) [0, 5, 0x80000000, 0x80000007] = Some 7 \<and> (7 :: u32) \<noteq> 0"
proof -
  have 7: "fresh_sid (\<lambda>s. s = 5) [0, 5, 0x80000000, 0x80000007] = Some 7"
    by (simp add: fresh_sid_find sid_candidates_def)
  with fresh_sid_terminates [of "\<lambda>s. s = 5" "[0, 5, 0x80000000, 0x80000007]" 7] show ?thesis
    by blast
qed

section \<open>The heuristic against the hooks\<close>

lemma agent_session_put [simp]:
  "agent_session sid a = Some (h, s0) \<Longrightarrow> agent_session sid (put_obj h s a) = Some (h, s)"
  by (auto simp: agent_session_def handle_of_def split: option.splits)

lemma state_event:
  assumes "agent_session sid a = Some (h, s)" and "si_state (ss_info s) \<noteq> StateExited"
  shows "agent_session sid (agent_SessionState now sid st k src conf a) = Some (h, fst (SetState st k src conf now s))"
  using assms
  by (simp add: agent_SessionState_def case_prod_beta Let_def SetState_def same_tables_simps [OF same_tables_msg])

text \<open>A suspicion that a structured signal has just made obsolete is cleared.\<close>

lemma fresh_signal_clears:
  assumes "si_pty_alive (ss_info s)" "\<not> ss_closed s" "\<not> ss_tool_exited s"
    and "si_tool (ss_info s) \<noteq> '''' \<and> si_tool (ss_info s) \<noteq> ''shell''" and "suspectAt (ss_heur s) \<noteq> 0"
    and "ss_last_structured s \<noteq> 0" and "time_sub now (ss_last_structured s) < StructuredFreshFor"
  shows "session_Heuristic now s = (s\<lparr>ss_heur := (ss_heur s)\<lparr>suspectAt := 0, candidateSince := 0\<rparr>\<rparr>, just_verdict VerdictCleared)"
  using assms by (simp add: session_Heuristic_def Evaluate_def structFresh_def is_zero_time_def case_prod_beta Let_def)

text \<open>The heuristic overrules the hooks: when a session is suspected to be stuck and the tool's
  own hook then reports that it needs a permission, the next evaluation within the time such a
  signal counts as fresh reports the session as running, with the low confidence of the
  heuristic, although the tool is still waiting.\<close>

theorem heuristic_overrides_hook:
  assumes "agent_session sid a = Some (h, s)" and "si_state (ss_info s) \<noteq> StateExited"
    and "si_pty_alive (ss_info s)" "\<not> ss_closed s" "\<not> ss_tool_exited s"
    and "si_tool (ss_info s) \<noteq> '''' \<and> si_tool (ss_info s) \<noteq> ''shell''" and "suspectAt (ss_heur s) \<noteq> 0"
    and "ae_now e1 \<noteq> 0" and "time_sub (ae_now e2) (ae_now e1) < StructuredFreshFor"
  defines "a1 \<equiv> run_event e1 (hook_state sid StateNeedsInput NeedPermission) a"
  shows "\<exists>s1 s2. agent_session sid a1 = Some (h, s1) \<and> si_state (ss_info s1) = StateNeedsInput
    \<and> si_source (ss_info s1) = SourceHook
    \<and> agent_session sid (heuristic_session e2 (sid, h) a1) = Some (h, s2) \<and> si_state (ss_info s2) = StateRunning
    \<and> si_source (ss_info s2) = SourcePTY \<and> si_confidence (ss_info s2) = ConfidenceLow"
proof -
  define s1 where "s1 = fst (SetState StateNeedsInput NeedPermission SourceHook ConfidenceHigh (ae_now e1) s)"
  have 1: "agent_session sid a1 = Some (h, s1)"
    using state_event [OF assms(1,2)] by (simp add: a1_def hook_state_def s1_def)
  have s1: "si_state (ss_info s1) = StateNeedsInput" "si_source (ss_info s1) = SourceHook" "ss_last_structured s1 = ae_now e1"
    "si_pty_alive (ss_info s1)" "\<not> ss_closed s1" "\<not> ss_tool_exited s1" "ss_heur s1 = ss_heur s"
    "si_tool (ss_info s1) = si_tool (ss_info s)"
    using assms(2-5) by (simp_all add: s1_def SetState_def Let_def structured_source_def)
  define s1' where "s1' = s1\<lparr>ss_heur := (ss_heur s1)\<lparr>suspectAt := 0, candidateSince := 0\<rparr>\<rparr>"
  have v: "session_Heuristic (ae_now e2) s1 = (s1', just_verdict VerdictCleared)"
    unfolding s1'_def by (rule fresh_signal_clears) (use assms(6-9) s1 in simp_all)
  let ?a = "put_obj h s1' a1"
  have "agent_session sid ?a = Some (h, s1')"
    using 1 by simp
  moreover have "same_tables ?a (case r of None \<Rightarrow> ?a | Some ap \<Rightarrow> agent_ApprovalClosed ''output'' ap ?a)" for r
    by (simp split: option.split)
  ultimately have 2: "agent_session sid (case r of None \<Rightarrow> ?a\<lparr>ag_pty_keys := k, ag_store := st\<rparr>
      | Some ap \<Rightarrow> agent_ApprovalClosed ''output'' ap (?a\<lparr>ag_pty_keys := k, ag_store := st\<rparr>)) = Some (h, s1')" for r k st
    by (auto simp: same_tables_simps [OF same_tables_closed(1)] agent_session_def handle_of_def obj_def split: option.splits)
  have obj: "obj h a1 = Some s1"
    using 1 by (auto simp: agent_session_def split: option.splits)
  have alive: "si_state (ss_info s1') \<noteq> StateExited"
    using s1(1) by (simp add: s1'_def)
  have "agent_session sid (heuristic_session e2 (sid, h) a1)
      = Some (h, fst (SetState StateRunning no_kind SourcePTY ConfidenceLow (ae_now e2) s1'))"
    using state_event [OF 2 alive]
    by (simp add: heuristic_session_def obj v just_verdict_def on_cleared_def pty_state_def case_prod_beta Let_def)
  with 1 s1 alive show ?thesis
    by (auto simp: SetState_def Let_def structured_source_def)
qed


definition demo_suspected :: "session \<Rightarrow> session" where
  "demo_suspected s = upd_info (\<lambda>i. i\<lparr>si_tool := ToolClaude\<rparr>) (s\<lparr>ss_heur := \<lparr>candidateSince = 0, suspectAt = 5, unknownAt = 0\<rparr>\<rparr>)"

lemma demo_start_state:
  assumes "start demo_env demo_opts False = Inr (s, fx)"
  shows "si_state (ss_info s) = StateRunning" "si_pty_alive (ss_info s)" "\<not> ss_closed s" "\<not> ss_tool_exited s"
  using assms by (auto simp: demo_defs Let_def new_info_def)

theorem heuristic_overrides_hook_witness:
  "\<exists>s0 fx0 s1 s2. start demo_env demo_opts False = Inr (s0, fx0)
     \<and> (let a1 = run_event demo_aenv (hook_state 7 StateNeedsInput NeedPermission) (demo_agent (demo_suspected s0))
        in agent_session 7 a1 = Some (0, s1) \<and> si_state (ss_info s1) = StateNeedsInput
         \<and> agent_session 7 (heuristic_session demo_aenv (7, 0) a1) = Some (0, s2) \<and> si_state (ss_info s2) = StateRunning)"
proof -
  obtain s0 fx0 where 0: "start demo_env demo_opts False = Inr (s0, fx0)"
    using demo_start by blast
  let ?s = "demo_suspected s0"
  have sess: "agent_session 7 (demo_agent ?s) = Some (0, ?s)"
    by (rule demo_agent_session)
  have h: "si_state (ss_info ?s) \<noteq> StateExited" "si_pty_alive (ss_info ?s)" "\<not> ss_closed ?s" "\<not> ss_tool_exited ?s"
    "si_tool (ss_info ?s) \<noteq> '''' \<and> si_tool (ss_info ?s) \<noteq> ''shell''" "suspectAt (ss_heur ?s) \<noteq> 0"
    "ae_now demo_aenv \<noteq> 0" "time_sub (ae_now demo_aenv) (ae_now demo_aenv) < StructuredFreshFor"
    using demo_start_state [OF 0]
    by (simp_all add: demo_suspected_def demo_aenv_def threshold_defs duration_defs time_sub_def duration_max_def)
  from heuristic_overrides_hook [OF sess h] 0 show ?thesis
    unfolding Let_def by blast
qed

section \<open>Restart\<close>

lemma start_ok:
  fixes e o0
  defines "d \<equiv> default_opts e o0"
  assumes "so_persist o0" "so_persist_conf o0 \<noteq> ''''" "so_cwd o0 = '''' \<or> se_cwd_is_dir e" "so_ring_size o0 \<le> 0"
    and "se_shell e \<noteq> None" "se_tmux e" "se_has_session e" "se_spawn_ok e"
  shows "\<exists>s fx. start e o0 adopt = Inr (s, fx) \<and> ss_persist s \<and> \<not> ss_closed s \<and> (adopt \<longrightarrow> length fx = 1)"
proof -
  obtain path kind args where sh: "se_shell e = Some (path, kind, args)"
    using assms(6) by (cases "se_shell e") auto
  obtain r where ring: "NewRing (so_ring_size d) = Some r"
    using assms(5) by (auto simp: d_def default_opts_def Let_def NewRing_def DefaultRingSize_def)
  have d: "so_persist d" "so_persist_conf d \<noteq> ''''" "so_cwd d = so_cwd o0"
    using assms(2,3) by (simp_all add: d_def default_opts_def Let_def)
  define o1 where "o1 = (if so_cwd d = '''' then d\<lparr>so_cwd := se_default_cwd e\<rparr> else d)"
  have o1: "so_persist o1" "so_persist_conf o1 \<noteq> ''''"
    using d by (simp_all add: o1_def)
  define o2 where "o2 = o1\<lparr>so_tool := (so_tool o1)\<lparr>ts_shell_kind := kind\<rparr>\<rparr>"
  have "start e o0 adopt = launch_session e o2 (path, kind, args) r adopt"
    using assms(2,4) d(3)
    by (cases "so_cwd o0 = ''''") (auto simp: start_def d_def [symmetric] Let_def ring sh o1_def o2_def)
  then show ?thesis
    using o1 assms(7-9)
    by (simp add: launch_session_def new_session_def start_spawn_def spawn_def Let_def o2_def case_prod_beta)
qed

text \<open>What a session looks like right after its start.\<close>

lemma start_fields:
  fixes e o0
  defines "d \<equiv> default_opts e o0"
  assumes "start e o0 adopt = Inr (s, fx)"
  shows "so_sid (ss_opts s) = so_sid d" "ss_info s = new_info e (if so_cwd d = '''' then d\<lparr>so_cwd := se_default_cwd e\<rparr> else d)"
    "ss_persist_name s = (if ss_persist s then PersistName (so_sid d) else '''')" "ss_persist s \<Longrightarrow> so_persist d"
    "\<exists>g name argv tl. fx = Launch g name argv # tl \<and> (tl = [] \<or> (\<exists>line. tl = [TypeTool g line]))"
proof -
  define o1 where "o1 = (if so_cwd d = '''' then d\<lparr>so_cwd := se_default_cwd e\<rparr> else d)"
  obtain path kind args r where sh: "se_shell e = Some (path, kind, args)" and r: "NewRing (so_ring_size o1) = Some r"
    and L: "launch_session e (o1\<lparr>so_tool := (so_tool o1)\<lparr>ts_shell_kind := kind\<rparr>\<rparr>) (path, kind, args) r adopt = Inr (s, fx)"
    using assms(2) by (auto simp: start_def d_def [symmetric] o1_def Let_def split: if_splits option.splits)
  define o2 where "o2 = o1\<lparr>so_tool := (so_tool o1)\<lparr>ts_shell_kind := kind\<rparr>\<rparr>"
  let ?n = "new_session e o2 (path, kind, args) r"
  obtain s1 mode where S: "start_spawn e mode s1 = Inr (s, fx)" and s1: "s1 = ?n \<or> (\<exists>r'. s1 = ?n\<lparr>ss_ring := r'\<rparr>)"
    using L [folded o2_def] by (auto simp: launch_session_def Let_def split: if_splits)
  have same: "ss_opts s = ss_opts s1 \<and> ss_info s = ss_info s1 \<and> ss_persist s = ss_persist s1 \<and> ss_persist_name s = ss_persist_name s1"
    and fx: "\<exists>g name argv tl. fx = Launch g name argv # tl \<and> (tl = [] \<or> (\<exists>line. tl = [TypeTool g line]))"
    using S by (auto simp: start_spawn_def spawn_def Let_def case_prod_beta split: if_splits option.splits)
  have n: "ss_opts s1 = o2" "ss_info s1 = new_info e o2" "ss_persist_name s1 = (if ss_persist s1 then PersistName (so_sid o2) else '''')"
    "ss_persist s1 \<longrightarrow> so_persist o2"
    using s1 by (auto simp: new_session_def Let_def)
  have o2: "so_sid o2 = so_sid d" "new_info e o2 = new_info e o1" "so_persist o2 = so_persist d"
    by (simp_all add: o2_def o1_def new_info_def)
  show "so_sid (ss_opts s) = so_sid d" "ss_info s = new_info e (if so_cwd d = '''' then d\<lparr>so_cwd := se_default_cwd e\<rparr> else d)"
    "ss_persist_name s = (if ss_persist s then PersistName (so_sid d) else '''')" "ss_persist s \<Longrightarrow> so_persist d"
    using same n o2 by (auto simp: o1_def)
  show "\<exists>g name argv tl. fx = Launch g name argv # tl \<and> (tl = [] \<or> (\<exists>line. tl = [TypeTool g line]))"
    by (rule fx)
qed

text \<open>The part of a session's information that identifies it to its user.\<close>

definition same_description :: "session_info \<Rightarrow> session_info \<Rightarrow> bool" where
  "same_description i i' \<longleftrightarrow> si_sid i = si_sid i' \<and> si_name i = si_name i' \<and> si_tool i = si_tool i'
     \<and> si_preset i = si_preset i' \<and> si_permission_mode i = si_permission_mode i'
     \<and> si_approval_mode i = si_approval_mode i' \<and> si_cols i = si_cols i' \<and> si_rows i = si_rows i'
     \<and> (si_cwd i' \<noteq> '''' \<longrightarrow> si_cwd i = si_cwd i')"

definition describes :: "session_meta \<Rightarrow> session_info \<Rightarrow> bool" where
  "describes m i \<longleftrightarrow> sm_sid m = si_sid i \<and> sm_name m = si_name i \<and> sm_tool m = si_tool i \<and> sm_preset m = si_preset i
     \<and> sm_permission_mode m = si_permission_mode i \<and> sm_approval_mode m = si_approval_mode i
     \<and> sm_cols m = si_cols i \<and> sm_rows m = si_rows i \<and> sm_cwd m = si_cwd i
     \<and> sm_sid m \<noteq> 0 \<and> sm_tool m \<noteq> '''' \<and> sm_approval_mode m \<noteq> ModeOther '''' \<and> sm_cols m \<noteq> 0 \<and> sm_rows m \<noteq> 0"

definition ready_to_adopt :: "start_env \<Rightarrow> bool" where
  "ready_to_adopt se \<longleftrightarrow> se_shell se \<noteq> None \<and> se_tmux se \<and> se_has_session se \<and> se_spawn_ok se \<and> se_cwd_is_dir se"

definition adopted :: "u32 \<Rightarrow> session_info \<Rightarrow> agent \<Rightarrow> bool" where
  "adopted sid i a \<longleftrightarrow> (\<exists>h s. agent_session sid a = Some (h, s) \<and> Alive s \<and> ss_persist s
     \<and> ss_persist_name s = PersistName sid \<and> same_description (ss_info s) i)"

text \<open>Handles in use are below the next one.\<close>

definition handles_ok :: "agent \<Rightarrow> bool" where
  "handles_ok a \<longleftrightarrow> (\<forall>sid h. mget (ag_sessions a) sid = Some h \<longrightarrow> h < ag_next a)"

lemma install_session:
  "agent_session sid' (fst (install now sid s fx a)) =
     (if sid' = sid then Some (ag_next a, s)
      else case handle_of sid' a of None \<Rightarrow> None
        | Some h \<Rightarrow> if h = ag_next a then Some (h, s) else map_option (Pair h) (obj h a))"
  "ag_dirs (fst (install now sid s fx a)) = ag_dirs a" "ag_tmux_conf (fst (install now sid s fx a)) = ag_tmux_conf a"
  "ag_next (fst (install now sid s fx a)) = ag_next a + 1" "ag_cfg (fst (install now sid s fx a)) = ag_cfg a"
  "ag_sessions (fst (install now sid s fx a)) = mput sid (ag_next a) (ag_sessions a)"
  "snd (install now sid s fx a) = ag_next a" "ag_persist (fst (install now sid s fx a)) = ag_persist a"
proof -
  define b where "b = put_obj (ag_next a) s (a\<lparr>ag_next := ag_next a + 1\<rparr>)"
  have b: "ag_sessions b = ag_sessions a" "ag_objs b = mput (ag_next a) s (ag_objs a)" "ag_dirs b = ag_dirs a"
    "ag_tmux_conf b = ag_tmux_conf a" "ag_next b = ag_next a + 1" "ag_cfg b = ag_cfg a"
    "ag_persist b = ag_persist a"
    by (simp_all add: b_def put_obj_def)
  define c where "c = run_effects now sid (ag_next a) fx b"
  have T: "ag_sessions c = ag_sessions a" "ag_objs c = mput (ag_next a) s (ag_objs a)" "ag_dirs c = ag_dirs a"
    "ag_tmux_conf c = ag_tmux_conf a" "ag_next c = ag_next a + 1" "ag_cfg c = ag_cfg a"
    "ag_persist c = ag_persist a"
    using same_tables_simps [OF same_tables_effects [of b now sid "ag_next a" fx]] by (simp_all add: c_def b)
  have I: "install now sid s fx a = (c\<lparr>ag_sessions := mput sid (ag_next a) (ag_sessions c)\<rparr>, ag_next a)"
    by (simp add: install_def Let_def c_def b_def)
  show "agent_session sid' (fst (install now sid s fx a)) =
     (if sid' = sid then Some (ag_next a, s)
      else case handle_of sid' a of None \<Rightarrow> None
        | Some h \<Rightarrow> if h = ag_next a then Some (h, s) else map_option (Pair h) (obj h a))"
    by (auto simp: I T agent_session_def handle_of_def obj_def split: option.splits)
  show "ag_dirs (fst (install now sid s fx a)) = ag_dirs a" "ag_tmux_conf (fst (install now sid s fx a)) = ag_tmux_conf a"
    "ag_next (fst (install now sid s fx a)) = ag_next a + 1" "ag_cfg (fst (install now sid s fx a)) = ag_cfg a"
    "ag_sessions (fst (install now sid s fx a)) = mput sid (ag_next a) (ag_sessions a)"
    "snd (install now sid s fx a) = ag_next a" "ag_persist (fst (install now sid s fx a)) = ag_persist a"
    by (simp_all add: I T)
qed

lemma install_other:
  "handles_ok a \<Longrightarrow> sid' \<noteq> sid \<Longrightarrow> agent_session sid' (fst (install now sid s fx a)) = agent_session sid' a"
  by (simp add: install_session) (auto simp: agent_session_def handles_ok_def handle_of_def split: option.splits)

lemma install_handles: "handles_ok a \<Longrightarrow> handles_ok (fst (install now sid s fx a))"
  by (auto simp: handles_ok_def install_session less_Suc_eq)


lemma default_opts_same:
  assumes "so_sid o0 \<noteq> 0" "so_cols o0 \<noteq> 0" "so_rows o0 \<noteq> 0" "ts_tool (so_tool o0) \<noteq> ''''"
    "so_approval_mode o0 \<noteq> ModeOther ''''" "so_ring_size o0 \<le> 0"
  shows "default_opts e o0 = o0\<lparr>so_ring_size := DefaultRingSize\<rparr>"
  using assms by (simp add: default_opts_def Let_def)

text \<open>Adopting one entry of the directory.\<close>

lemma adopt_describes:
  assumes "describes m i" and "ready_to_adopt (ae_start e (sm_sid m))" and "ag_tmux_conf a \<noteq> ''''"
  shows "adopted (sm_sid m) i (agent_adopt e m a)"
proof -
  let ?se = "ae_start e (sm_sid m)"
  obtain env where env: "(case Resolve (config_Resolver (ag_cfg a)) (sm_preset m) of Inl _ \<Rightarrow> [] | Inr env \<Rightarrow> env) = env"
    by blast
  let ?o = "adopt_options m env a"
  have o: "so_persist ?o" "so_persist_conf ?o \<noteq> ''''" "so_cwd ?o = '''' \<or> se_cwd_is_dir ?se" "so_ring_size ?o \<le> 0"
    using assms(2,3) by (simp_all add: adopt_options_def ready_to_adopt_def)
  have r: "se_shell ?se \<noteq> None" "se_tmux ?se" "se_has_session ?se" "se_spawn_ok ?se"
    using assms(2) by (simp_all add: ready_to_adopt_def)
  obtain s fx where ad: "start ?se ?o True = Inr (s, fx)" and s: "ss_persist s" "\<not> ss_closed s"
    using start_ok [OF o r, of True] by (elim exE conjE)
  note F = start_fields [OF ad]
  have nz: "sm_sid m \<noteq> 0" "sm_tool m \<noteq> ''''" "sm_approval_mode m \<noteq> ModeOther ''''" "sm_cols m \<noteq> 0" "sm_rows m \<noteq> 0"
    using assms(1) by (auto simp: describes_def)
  have D: "default_opts ?se ?o = ?o\<lparr>so_ring_size := DefaultRingSize\<rparr>"
  proof (rule default_opts_same)
    show "so_sid ?o \<noteq> 0" "so_cols ?o \<noteq> 0" "so_rows ?o \<noteq> 0" "ts_tool (so_tool ?o) \<noteq> ''''"
      "so_approval_mode ?o \<noteq> ModeOther ''''" "so_ring_size ?o \<le> 0"
      using nz by (simp_all add: adopt_options_def)
  qed
  have info: "si_sid (ss_info s) = sm_sid m" "si_name (ss_info s) = sm_name m" "si_tool (ss_info s) = sm_tool m"
    "si_preset (ss_info s) = sm_preset m" "si_permission_mode (ss_info s) = sm_permission_mode m"
    "si_approval_mode (ss_info s) = sm_approval_mode m" "si_cols (ss_info s) = sm_cols m" "si_rows (ss_info s) = sm_rows m"
    "sm_cwd m \<noteq> '''' \<Longrightarrow> si_cwd (ss_info s) = sm_cwd m" "si_pty_alive (ss_info s)"
    using nz unfolding F(2) D by (simp_all add: new_info_def adopt_options_def)
  have name: "ss_persist_name s = PersistName (sm_sid m)"
    using F(3) s(1) unfolding D by (simp add: adopt_options_def)
  define s' where "s' = (if sm_tool_session_id m \<noteq> '''' then SetToolSession (sm_tool_session_id m) s else s)"
  have s': "ss_persist s'" "ss_persist_name s' = PersistName (sm_sid m)" "Alive s'" "same_description (ss_info s') i"
    using s(1,2) name info assms(1)
    by (simp_all add: s'_def SetToolSession_def Alive_def describes_def same_description_def)
  have "agent_adopt e m a = fst (install (ae_now e) (sm_sid m) s' fx a)"
    using o(1) by (simp add: agent_adopt_def env Adopt_def ad s'_def)
  then show ?thesis
    using s' by (auto simp: adopted_def install_session)
qed

definition adoptable :: "u32 \<Rightarrow> session_info \<Rightarrow> agent \<Rightarrow> bool" where
  "adoptable sid i a \<longleftrightarrow> (\<exists>m. mget (ag_dirs a) (dir_of sid) = Some (Some m) \<and> describes (m\<lparr>sm_sid := sid\<rparr>) i)
     \<and> ag_tmux_conf a \<noteq> '''' \<and> handles_ok a"

lemma dir_of_inject [simp]: "dir_of sid = dir_of sid' \<longleftrightarrow> sid = sid'"
  by (simp add: dir_of_def word_unat_eq_iff)

lemma agent_session_eq:
  "ag_sessions a' = ag_sessions a \<Longrightarrow> ag_objs a' = ag_objs a \<Longrightarrow> agent_session sid a' = agent_session sid a"
  by (simp add: agent_session_def handle_of_def obj_def split: option.split)

lemma agent_adopt_other:
  assumes "handles_ok a" and "sid \<noteq> sm_sid m"
  shows "agent_session sid (agent_adopt e m a) = agent_session sid a"
  using install_other [OF assms] by (auto simp: agent_adopt_def Let_def split: sum.splits)

lemma agent_adopt_keeps:
  "ag_dirs (agent_adopt e m a) = ag_dirs a" "ag_tmux_conf (agent_adopt e m a) = ag_tmux_conf a"
  "handles_ok a \<Longrightarrow> handles_ok (agent_adopt e m a)"
  by (auto simp: agent_adopt_def Let_def install_session install_handles split: sum.splits)

lemma adopt_entry_step:
  assumes "adoptable sid i a" and "sid \<in> set alive" and "ready_to_adopt (ae_start e sid)"
  shows "adoptable sid i (adopt_entry e alive name a)"
    and "adopted sid i a \<or> name = dir_of sid \<Longrightarrow> adopted sid i (adopt_entry e alive name a)"
proof -
  obtain m where m: "mget (ag_dirs a) (dir_of sid) = Some (Some m)" "describes (m\<lparr>sm_sid := sid\<rparr>) i"
    and conf: "ag_tmux_conf a \<noteq> ''''" and hok: "handles_ok a"
    using assms(1) by (auto simp: adoptable_def)
  have read: "readMeta sid a = Some (m\<lparr>sm_sid := sid\<rparr>)"
    by (simp add: readMeta_def m)
  have own: "adopted sid i (agent_adopt e (m\<lparr>sm_sid := sid\<rparr>) a)"
    using adopt_describes [OF m(2), of e a] assms(3) conf by simp
  have sid_of: "m'\<lparr>sm_sid := sid'\<rparr> = m'' \<Longrightarrow> sm_sid m'' = sid'" for m' m'' and sid'
    by auto
  have meta_sid: "readMeta sid' a = Some m' \<Longrightarrow> sm_sid m' = sid'" for sid' m'
    by (auto simp: readMeta_def split: option.splits)
  show "adoptable sid i (adopt_entry e alive name a)"
  proof -
    have del: "adoptable sid i (a\<lparr>ag_dirs := mdel (dir_of sid') (ag_dirs a)\<rparr>)" if "sid' \<noteq> sid" for sid'
      using m conf hok that by (auto simp: adoptable_def handles_ok_def)
    have "adoptable sid i (agent_adopt e m' a)" for m'
      using m conf hok by (simp add: adoptable_def agent_adopt_keeps)
    moreover have "sid' \<notin> set alive \<Longrightarrow> sid' \<noteq> sid" for sid'
      using assms(2) by blast
    ultimately show ?thesis
      using del assms(1) by (simp add: adopt_entry_def Let_def split: option.split)
  qed
  show "adopted sid i a \<or> name = dir_of sid \<Longrightarrow> adopted sid i (adopt_entry e alive name a)"
  proof (cases "parse_uint 32 name")
    case None
    then have "name \<noteq> dir_of sid"
      using parse_format_uint [of "unat sid" 32] unat_u32_less [of sid] by (auto simp: dir_of_def)
    then show "adopted sid i a \<or> name = dir_of sid \<Longrightarrow> adopted sid i (adopt_entry e alive name a)"
      by (simp add: adopt_entry_def None)
  next
    case (Some n)
    have n: "word_of_nat n = sid" if "name = dir_of sid"
      using Some parse_format_uint [of "unat sid" 32] unat_u32_less [of sid] that by (auto simp: dir_of_def)
    assume prem: "adopted sid i a \<or> name = dir_of sid"
    show "adopted sid i (adopt_entry e alive name a)"
    proof (cases "(word_of_nat n :: u32) = sid")
      case True
      then show ?thesis
        using own by (simp add: adopt_entry_def Some read assms(2))
    next
      case False
      with prem n have ad: "adopted sid i a" by auto
      have "agent_session sid (adopt_entry e alive name a) = agent_session sid a"
        using False agent_adopt_other [OF hok, of sid] meta_sid [of "word_of_nat n"]
        by (auto simp: adopt_entry_def Some Let_def intro!: agent_session_eq split: option.split)
      then show ?thesis using ad by (simp add: adopted_def)
    qed
  qed
qed

lemma adopt_entries:
  assumes "sid \<in> set alive" and "ready_to_adopt (ae_start e sid)"
  shows "adoptable sid i a \<Longrightarrow> adopted sid i a \<or> dir_of sid \<in> set names \<Longrightarrow> adopted sid i (fold (adopt_entry e alive) names a)"
proof (induction names arbitrary: a)
  case (Cons name names)
  note step = adopt_entry_step [OF Cons.prems(1) assms, of name]
  show ?case
    using Cons.IH [OF step(1)] step(2) Cons.prems(2) by auto
qed simp


text \<open>Opening a persisted session writes its description.\<close>

lemma open_cases:
  assumes "openSession e oreq a = (a', Inr h)"
  obtains tool mode spec env sid s fx where "fresh_sid (\<lambda>sid. mget (ag_sessions a) sid \<noteq> None) (ae_rand e) = Some sid"
    "tool \<noteq> ''''" "mode \<noteq> ModeOther ''''" "tool_spec_for e oreq tool sid a = Some spec"
    "Start (ae_start e sid) (open_options e oreq spec mode env sid a) = Inr (s, fx)"
    "start_opened e oreq tool mode (open_options e oreq spec mode env sid a) sid (settings_dir tool sid a) = (a', Inr h)"
proof -
  define tool where "tool = (if or_tool oreq = '''' then ToolShell else or_tool oreq)"
  define mode where "mode = (if or_approval_mode oreq = ModeOther '''' then ApprovalNotify else or_approval_mode oreq)"
  define busy where "busy = (\<lambda>sid. mget (ag_sessions a) sid \<noteq> None)"
  note D = assms [unfolded openSession_def, folded tool_def mode_def, unfolded Let_def, folded tool_def mode_def busy_def]
  from D have known: "known_tool tool"
    by (auto split: if_splits)
  from D known obtain env where env: "Resolve (config_Resolver (ag_cfg a)) (or_preset oreq) = Inr env"
    by (auto split: sum.splits)
  from D known env obtain sid where sid: "fresh_sid busy (ae_rand e) = Some sid"
    by (auto split: option.splits)
  from D known env sid obtain spec where spec: "tool_spec_for e oreq tool sid a = Some spec"
    by (auto split: option.splits)
  define opts where "opts = open_options e oreq spec mode (tool_env e tool a env) sid a"
  have O: "start_opened e oreq tool mode opts sid (settings_dir tool sid a) = (a', Inr h)"
    using D known env sid spec by (simp add: opts_def)
  then obtain s fx where "Start (ae_start e sid) opts = Inr (s, fx)"
    by (auto simp: start_opened_def split: sum.splits)
  moreover have "tool \<noteq> ''''" "mode \<noteq> ModeOther ''''"
    by (simp_all add: tool_def mode_def)
  ultimately show thesis
    using that sid spec O unfolding opts_def busy_def by blast
qed

lemma tool_spec_tool:
  "tool_spec_for e oreq tool sid a = Some spec \<Longrightarrow> ts_tool spec = tool \<and> ts_permission_mode spec = or_permission_mode oreq"
  by (auto simp: tool_spec_for_def Let_def split: if_splits)

lemma open_describes:
  assumes "openSession e oreq a = (a', Inr h)" and "ag_persist a" and "ae_files_ok e"
  shows "\<exists>s m. obj h a' = Some s \<and> mget (ag_dirs a') (dir_of (so_sid (ss_opts s))) = Some (Some m)
    \<and> describes m (ss_info s) \<and> so_sid (ss_opts s) = sm_sid m \<and> (ss_persist s \<longrightarrow> ss_persist_name s = PersistName (sm_sid m))"
proof -
  from assms(1) obtain tool mode spec env sid s fx
    where sid: "fresh_sid (\<lambda>sid. mget (ag_sessions a) sid \<noteq> None) (ae_rand e) = Some sid"
    and tm: "tool \<noteq> ''''" "mode \<noteq> ModeOther ''''" and spec: "tool_spec_for e oreq tool sid a = Some spec"
    and S: "Start (ae_start e sid) (open_options e oreq spec mode env sid a) = Inr (s, fx)"
    and O: "start_opened e oreq tool mode (open_options e oreq spec mode env sid a) sid (settings_dir tool sid a) = (a', Inr h)"
    by (rule open_cases)
  have nz: "sid \<noteq> 0"
    using fresh_sid_ok(1) [OF sid] .
  let ?o = "open_options e oreq spec mode env sid a" and ?se = "ae_start e sid"
  have spec': "ts_tool spec = tool" "ts_permission_mode spec = or_permission_mode oreq"
    using tool_spec_tool [OF spec] by simp_all
  note F = start_fields [OF S [unfolded Start_def]]
  define s' where "s' = fst (Info s)"
  have info: "snd (Info s) = ss_info s'"
    by (simp add: s'_def Info_def Let_def)
  have d: "so_sid (default_opts ?se ?o) = sid" "so_name (default_opts ?se ?o) = or_name oreq"
    "ts_tool (so_tool (default_opts ?se ?o)) = tool" "so_preset (default_opts ?se ?o) = or_preset oreq"
    "ts_permission_mode (so_tool (default_opts ?se ?o)) = or_permission_mode oreq"
    "so_approval_mode (default_opts ?se ?o) = mode" "so_cols (default_opts ?se ?o) \<noteq> 0" "so_rows (default_opts ?se ?o) \<noteq> 0"
    using nz tm spec' by (auto simp: default_opts_def open_options_def Let_def DefaultCols_def DefaultRows_def)
  have i: "si_sid (ss_info s') = sid" "si_name (ss_info s') = or_name oreq" "si_tool (ss_info s') = tool"
    "si_preset (ss_info s') = or_preset oreq" "si_permission_mode (ss_info s') = or_permission_mode oreq"
    "si_approval_mode (ss_info s') = mode" "si_cols (ss_info s') \<noteq> 0" "si_rows (ss_info s') \<noteq> 0"
    using d by (simp_all add: s'_def Info_def Let_def F(2) new_info_def)
  let ?m = "meta_of oreq tool mode (so_shell ?o) (so_tool ?o) sid (ss_info s')"
  let ?b = "settings_dir tool sid a"
  have A: "a' = writeMeta True ?m (fst (install (ae_now e) sid s' fx ?b))" "h = ag_next ?b"
    using O assms(2,3) S info
    by (auto simp: start_opened_def settings_dir_def Let_def case_prod_beta install_session s'_def split: if_splits)
  have "agent_session sid (fst (install (ae_now e) sid s' fx ?b)) = Some (ag_next ?b, s')"
    by (simp add: install_session)
  then have "obj h a' = Some s'"
    by (auto simp: A writeMeta_def agent_session_def obj_def split: option.splits)
  moreover have "mget (ag_dirs a') (dir_of sid) = Some (Some ?m)"
    by (simp add: A(1) writeMeta_def meta_of_def)
  moreover have "describes ?m (ss_info s')" "sm_sid ?m = sid"
    using i nz tm by (simp_all add: describes_def meta_of_def)
  moreover have "so_sid (ss_opts s') = sid" "ss_persist s' \<longrightarrow> ss_persist_name s' = PersistName sid"
    using F(1,3) d(1) by (simp_all add: s'_def Info_def Let_def upd_info_def)
  ultimately show ?thesis by metis
qed


text \<open>Suspending all sessions keeps the directory, and a persisted session's tmux session alive.\<close>

lemma Suspend_effects:
  "\<forall>fx \<in> set (snd (Suspend s)). (\<exists>n. fx = KillTmux n) \<or> (\<exists>g. fx = Terminate g)"
  "ss_persist s \<Longrightarrow> KillTmux n \<notin> set (snd (Suspend s))"
  "ss_persist (fst (Suspend s)) = ss_persist s"
  by (auto simp: Suspend_def Close_def Let_def split: option.splits)

lemma run_effects_log:
  "\<forall>fx \<in> set fxs. (\<exists>n. fx = KillTmux n) \<or> (\<exists>g. fx = Terminate g) \<Longrightarrow>
   run_effects now sid h fxs a = a\<lparr>ag_fx := ag_fx a @ map (Pair h) fxs\<rparr>"
  by (induction fxs arbitrary: a) (auto simp: run_effects_def)

lemma suspend_op:
  "session_op now h OpSuspend a = (case obj h a of None \<Rightarrow> a
     | Some s \<Rightarrow> (put_obj h (fst (Suspend s)) a)\<lparr>ag_fx := ag_fx a @ map (Pair h) (snd (Suspend s))\<rparr>)"
  by (simp add: session_op_def case_prod_beta run_effects_log [OF Suspend_effects(1)] put_obj_def split: option.split)

lemma suspend_all:
  assumes "obj h a = Some s" and "ss_persist s"
  shows "ag_dirs (fold (\<lambda>h. session_op now h OpSuspend) hs a) = ag_dirs a
    \<and> (\<exists>new. ag_fx (fold (\<lambda>h. session_op now h OpSuspend) hs a) = ag_fx a @ new \<and> (\<forall>n. (h, KillTmux n) \<notin> set new))"
  using assms
proof (induction hs arbitrary: a s)
  case (Cons x hs)
  let ?a = "session_op now x OpSuspend a"
  have dirs: "ag_dirs ?a = ag_dirs a"
    by (simp add: suspend_op put_obj_def split: option.split)
  obtain new where new: "ag_fx ?a = ag_fx a @ new" "\<forall>n. (h, KillTmux n) \<notin> set new"
    using Cons.prems Suspend_effects(2) by (cases "x = h"; cases "obj x a") (auto simp: suspend_op)
  obtain s' where s': "obj h ?a = Some s'" "ss_persist s'"
    using Cons.prems Suspend_effects(3) by (cases "x = h"; cases "obj x a") (auto simp: suspend_op obj_def put_obj_def)
  from Cons.IH [OF s'] dirs new show ?case by fastforce
qed simp



definition demo_tmux_env :: start_env where
  "demo_tmux_env = demo_env\<lparr>se_tmux := True, se_has_session := True\<rparr>"

definition demo_cfg :: config where
  "demo_cfg = \<lparr>cf_relay_url = ''https://r'', cf_device_id = ''dev_1'', cf_device_token = ''t'', cf_agent_id = ''agt_1'',
     cf_name = ''n'', cf_privkey = '''', cf_pubkey = '''', cf_fingerprint = '''', cf_hooks_port = 0, cf_hook_token = ''h'',
     cf_presets = [], cf_secrets = \<lparr>sc_minimax_key = '''', sc_minimax_url = '''', sc_station_url = '''', sc_station_key = ''''\<rparr>,
     cf_default_shell = '''', cf_persist = ''''\<rparr>"

definition demo_persist_agent :: agent where
  "demo_persist_agent = setupPersistence True (Some ''/c'') (new_agent demo_cfg ''/r'' ''/tx'' [])"

definition demo_open :: open_request where
  "demo_open = \<lparr>or_shell = '''', or_cwd = ''/w'', or_tool = '''', or_name = ''fix'', or_preset = '''', or_permission_mode = '''',
     or_approval_mode = ModeOther '''', or_resume = '''', or_cols = 80, or_rows = 24, or_extra = []\<rparr>"

definition demo_restart_env :: agent_env where
  "demo_restart_env = demo_aenv\<lparr>ae_start := (\<lambda>_. demo_tmux_env)\<rparr>"

lemma trim_space_empty: "trim_space [] = []"
  using trim_space_subset [of "[]"] by simp

lemma demo_persist: "PersistEnabled demo_cfg"
  "demo_persist_agent = (new_agent demo_cfg ''/r'' ''/tx'' [])\<lparr>ag_persist := True, ag_tmux_conf := ''/c''\<rparr>"
proof -
  show p: "PersistEnabled demo_cfg"
    by (simp add: PersistEnabled_def demo_cfg_def trim_space_empty)
  show "demo_persist_agent = (new_agent demo_cfg ''/r'' ''/tx'' [])\<lparr>ag_persist := True, ag_tmux_conf := ''/c''\<rparr>"
    by (simp add: demo_persist_agent_def setupPersistence_def p new_agent_def)
qed

lemma demo_ready: "ready_to_adopt (ae_start demo_restart_env sid)"
  by (simp add: ready_to_adopt_def demo_restart_env_def demo_tmux_env_def demo_env_def)

lemma demo_open_result:
  "\<exists>a1 h s. openSession demo_restart_env demo_open demo_persist_agent = (a1, Inr h) \<and> obj h a1 = Some s
     \<and> Persisted s \<and> so_sid (ss_opts s) = 7"
proof -
  let ?a = demo_persist_agent and ?e = demo_restart_env
  define spec where "spec = \<lparr>ts_tool = ToolShell, ts_name = ''fix'', ts_permission_mode = '''', ts_resume = '''', ts_extra = [],
    ts_settings_path = '''', ts_codex_notify = [], ts_shell_kind = ''''\<rparr>"
  define opts where "opts = open_options ?e demo_open spec ApprovalNotify (tool_env ?e ToolShell ?a []) 7 ?a"
  have sid: "fresh_sid (\<lambda>sid. mget (ag_sessions ?a) sid \<noteq> None) (ae_rand ?e) = Some 7"
    by (simp add: fresh_sid_find sid_candidates_def demo_persist(2) new_agent_def demo_restart_env_def demo_aenv_def)
  have res: "Resolve (config_Resolver (ag_cfg ?a)) (or_preset demo_open) = Inr []"
    by (simp add: Resolve_def Let_def trim_space_empty demo_open_def)
  have spec: "tool_spec_for ?e demo_open ToolShell 7 ?a = Some spec"
    by (simp add: tool_spec_for_def Let_def demo_open_def spec_def)
  have "so_persist opts" "so_persist_conf opts \<noteq> ''''" "so_ring_size opts \<le> 0"
    by (simp_all add: opts_def open_options_def demo_persist(2))
  then obtain s fx where S: "start (ae_start ?e 7) opts False = Inr (s, fx)" "ss_persist s"
    using start_ok [of opts "ae_start ?e 7" False] demo_ready [of 7] by (auto simp: ready_to_adopt_def)
  have d: "so_sid (ss_opts s) = 7"
    using start_fields(1) [OF S(1)] by (simp add: default_opts_def Let_def opts_def open_options_def)
  define a' where "a' = fst (install (ae_now ?e) 7 (fst (Info s)) fx ?a)"
  have sess: "agent_session 7 a' = Some (ag_next ?a, fst (Info s))"
    by (simp add: a'_def install_session)
  have "openSession ?e demo_open ?a = start_opened ?e demo_open ToolShell ApprovalNotify opts 7 ?a"
    using sid res spec
    by (simp add: openSession_def Let_def known_tool_def demo_open_def opts_def settings_dir_def split: option.split)
  moreover have ok: "ag_persist ?a" "ae_files_ok ?e"
    by (simp_all add: demo_persist(2)) (simp add: demo_restart_env_def demo_aenv_def)
  moreover have "\<exists>m. start_opened ?e demo_open ToolShell ApprovalNotify opts 7 ?a = (writeMeta True m a', Inr (ag_next ?a))"
    by (simp add: start_opened_def Start_def S(1) case_prod_beta Let_def a'_def install_session ok) blast
  moreover have "obj (ag_next ?a) (writeMeta True m a') = Some (fst (Info s))" for m
    using sess by (auto simp: agent_session_def writeMeta_def obj_def split: option.splits)
  moreover have "Persisted (fst (Info s))" "so_sid (ss_opts (fst (Info s))) = 7"
    using S(2) d by (simp_all add: Persisted_def Info_def Let_def)
  ultimately show ?thesis by metis
qed


end
