(* ===== verification/StoreTime.thy ===== *)
theory StoreTime
  imports Prelude "HOL-Library.List_Lexorder" "HOL-Library.Char_ord"
begin

text \<open>
  The time columns of the relay's tables (\<^verbatim>\<open>fmtTime\<close>, \<^verbatim>\<open>parseTime\<close> in
  \<^verbatim>\<open>internal/relay/store/store.go\<close>): an instant is stored as text in the layout RFC3339Nano of
  Go, in UTC, whose fraction loses its trailing zeros, and SQLite compares the texts byte by byte,
  which is the order of the library on lists of characters. The lemmas show in what sense that
  order is the order of the instants, and that an instant is read back as it was written.
\<close>

section \<open>The calendar\<close>

text \<open>
  Days are counted from 0001-01-01 in the proleptic Gregorian calendar. The year of a day is
  searched upwards from a year that cannot be after it.
\<close>

definition is_leap :: "int \<Rightarrow> bool" where
  "is_leap y \<longleftrightarrow> 4 dvd y \<and> (\<not> 100 dvd y \<or> 400 dvd y)"

definition year_start :: "int \<Rightarrow> int" where
  "year_start y = 365 * (y - 1) + (y - 1) div 4 - (y - 1) div 100 + (y - 1) div 400"

lemma div_pred:
  assumes "0 < (n :: int)"
  shows "y div n = (y - 1) div n + (if n dvd y then 1 else 0)"
proof (cases "n dvd y")
  case True
  then obtain k where y: "y = n * k" ..
  have "n * k - 1 = n * (k - 1) + (n - 1)" by (simp add: algebra_simps)
  then have "(n * k - 1) div n = k - 1"
    by (rule int_div_pos_eq) (use assms in simp_all)
  then show ?thesis using True assms y by simp
next
  case False
  have "y mod n \<noteq> 0" using False by (simp add: dvd_eq_mod_eq_0)
  then have "0 \<le> y mod n - 1" "y mod n - 1 < n"
    using assms pos_mod_bound [of n y] pos_mod_sign [of n y] by linarith+
  moreover have "y - 1 = n * (y div n) + (y mod n - 1)"
    by (simp add: algebra_simps)
  ultimately have "(y - 1) div n = y div n"
    by (intro int_div_pos_eq)
  then show ?thesis using False by simp
qed

lemma year_start_Suc: "year_start (y + 1) = year_start y + (if is_leap y then 366 else 365)"
proof -
  have sub: "100 dvd y \<Longrightarrow> 4 dvd y" "400 dvd y \<Longrightarrow> 100 dvd y"
    using dvd_trans [of 4 100 y] dvd_trans [of 100 400 y] by simp_all
  have "y div 4 = (y - 1) div 4 + (if 4 dvd y then 1 else 0)"
    and "y div 100 = (y - 1) div 100 + (if 100 dvd y then 1 else 0)"
    and "y div 400 = (y - 1) div 400 + (if 400 dvd y then 1 else 0)"
    by (rule div_pred, simp)+
  then have eq: "year_start (y + 1) = year_start y + 365 + (if 4 dvd y then 1 else 0)
      - (if 100 dvd y then 1 else 0) + (if 400 dvd y then 1 else 0)"
    unfolding year_start_def by (simp only: add_diff_cancel_right' right_diff_distrib)
  from sub show ?thesis
    unfolding eq is_leap_def
    by (cases "4 dvd y"; cases "100 dvd y"; cases "400 dvd y") simp_all
qed

function year_from :: "int \<Rightarrow> int \<Rightarrow> int" where
  "year_from y d = (if year_start (y + 1) \<le> d then year_from (y + 1) d else y)"
  by pat_completeness auto
termination
  by (relation "measure (\<lambda>(y, d). nat (d + 1 - year_start y))")
     (auto simp: year_start_Suc split: if_splits)

declare year_from.simps [simp del]

definition year_of :: "int \<Rightarrow> int" where
  "year_of d = year_from (1 + (if 0 \<le> d then d div 366 else d div 365)) d"

definition month_days :: "int \<Rightarrow> int list" where
  "month_days y = [31, if is_leap y then 29 else 28, 31, 30, 31, 30, 31, 31, 30, 31, 30, 31]"

fun month_from :: "nat \<Rightarrow> int \<Rightarrow> int list \<Rightarrow> nat \<times> nat" where
  "month_from m n [] = (m, nat n + 1)"
| "month_from m n (k # ks) = (if n < k then (m, nat n + 1) else month_from (m + 1) (n - k) ks)"

definition civil :: "int \<Rightarrow> int \<times> nat \<times> nat" where
  "civil d = (let y = year_of d in (y, month_from 1 (d - year_start y) (month_days y)))"

section \<open>The layout\<close>

fun pad :: "nat \<Rightarrow> int \<Rightarrow> string" where
  "pad 0 n = []"
| "pad (Suc w) n = pad w (n div 10) @ [digit_char (nat (n mod 10))]"

definition year_text :: "int \<Rightarrow> string" where
  "year_text y = (if y < 0 then ''-'' else '''')
     @ (let n = \<bar>y\<bar> in if n < 10000 then pad 4 n else format_uint (nat n))"

definition second_text :: "int \<Rightarrow> string" where
  "second_text s =
     (case civil (s div 86400) of (y, m, d) \<Rightarrow>
        let r = s mod 86400 in
        year_text y @ ''-'' @ pad 2 (int m) @ ''-'' @ pad 2 (int d) @ ''T''
        @ pad 2 (r div 3600) @ '':'' @ pad 2 (r div 60 mod 60) @ '':'' @ pad 2 (r mod 60))"

definition frac_text :: "int \<Rightarrow> string" where
  "frac_text n = (if n = 0 then '''' else ''.'' @ trim_right (\<lambda>c. c = CHR ''0'') (pad 9 n))"

definition fmtTime :: "instant \<Rightarrow> string" where
  "fmtTime t = (if is_zero_time t then ''''
     else second_text (t div second) @ frac_text (t mod second) @ ''Z'')"

definition fmtTimePtr :: "instant option \<Rightarrow> string option" where
  "fmtTimePtr t = (case t of None \<Rightarrow> None | Some u \<Rightarrow> if is_zero_time u then None else Some (fmtTime u))"

text \<open>
  Reading follows the grammar of RFC 3339 with the zone \<^verbatim>\<open>Z\<close>, the only zone the tables hold: fixed
  widths, ranges checked, and the first nine digits of a fraction. Anything else is the zero time.
\<close>

definition take_num :: "nat \<Rightarrow> string \<Rightarrow> (nat \<times> string) option" where
  "take_num w s = (if w \<le> length s \<and> list_all is_digit (take w s)
     then Some (decimal_value (take w s), drop w s) else None)"

fun take_char :: "char \<Rightarrow> string \<Rightarrow> string option" where
  "take_char c [] = None"
| "take_char c (x # s) = (if x = c then Some s else None)"

definition take_frac :: "string \<Rightarrow> (nat \<times> string) option" where
  "take_frac s = (case take_char (CHR ''.'') s of
     None \<Rightarrow> Some (0, s)
   | Some r \<Rightarrow>
       let ds = takeWhile is_digit r; f = take 9 ds in
       if ds = [] then None else Some (decimal_value f * 10 ^ (9 - length f), dropWhile is_digit r))"

definition day_of :: "nat \<Rightarrow> nat \<Rightarrow> nat \<Rightarrow> int option" where
  "day_of y m d =
     (let ms = month_days (int y) in
      if 1 \<le> m \<and> m \<le> 12 \<and> 1 \<le> d \<and> int d \<le> ms ! (m - 1)
      then Some (year_start (int y) + sum_list (take (m - 1) ms) + (int d - 1)) else None)"

definition parse_rfc3339 :: "string \<Rightarrow> instant option" where
  "parse_rfc3339 s =
     Option.bind (take_num 4 s) (\<lambda>(y, s). Option.bind (take_char (CHR ''-'') s) (\<lambda>s.
     Option.bind (take_num 2 s) (\<lambda>(m, s). Option.bind (take_char (CHR ''-'') s) (\<lambda>s.
     Option.bind (take_num 2 s) (\<lambda>(d, s). Option.bind (take_char (CHR ''T'') s) (\<lambda>s.
     Option.bind (take_num 2 s) (\<lambda>(h, s). Option.bind (take_char (CHR '':'') s) (\<lambda>s.
     Option.bind (take_num 2 s) (\<lambda>(i, s). Option.bind (take_char (CHR '':'') s) (\<lambda>s.
     Option.bind (take_num 2 s) (\<lambda>(x, s). Option.bind (take_frac s) (\<lambda>(n, s).
     Option.bind (day_of y m d) (\<lambda>days.
       if s = ''Z'' \<and> h < 24 \<and> i < 60 \<and> x < 60
       then Some ((days * 86400 + int (h * 3600 + i * 60 + x)) * second + int n)
       else None)))))))))))))"

definition parseTime :: "string \<Rightarrow> instant" where
  "parseTime s = (if s = '''' then 0 else case parse_rfc3339 s of None \<Rightarrow> 0 | Some t \<Rightarrow> t)"

definition parseTimePtr :: "string option \<Rightarrow> instant option" where
  "parseTimePtr s = (case s of None \<Rightarrow> None | Some x \<Rightarrow>
     if x = '''' then None else let t = parseTime x in if is_zero_time t then None else Some t)"

section \<open>Days in order\<close>

lemma year_start_le: "y \<le> y' \<Longrightarrow> year_start y + 365 * (y' - y) \<le> year_start y'"
proof (induction "nat (y' - y)" arbitrary: y')
  case (Suc n)
  then have "year_start y + 365 * (y' - 1 - y) \<le> year_start (y' - 1)"
    by (intro Suc.hyps) auto
  with year_start_Suc [of "y' - 1"] show ?case
    by (simp split: if_splits)
qed simp

lemma year_from_bounds:
  "year_start y \<le> d \<Longrightarrow> year_start (year_from y d) \<le> d \<and> d < year_start (year_from y d + 1)"
proof (induction y d rule: year_from.induct)
  case (1 y d)
  then show ?case by (subst (1 2) year_from.simps) simp
qed

lemma year_start_search: "year_start (1 + (if 0 \<le> d then d div 366 else d div 365)) \<le> d"
proof -
  have div: "n * (k div n) \<le> k \<and> k < n * (k div n) + n" if "0 < n" for n k :: int
    using pos_mod_sign [OF that, of k] pos_mod_bound [OF that, of k] mult_div_mod_eq [of n k] by linarith
  have pos: "a - b + c \<le> k" if "4 * a \<le> k" "0 \<le> b" "400 * c \<le> k" "0 \<le> k" for a b c k :: int
    using that by linarith
  have neg: "a - b + c \<le> 0" if "4 * a \<le> k" "k < 100 * b + 100" "400 * c \<le> k" "k < 0" for a b c k :: int
    using that by linarith
  have start: "year_start (1 + k) = 365 * k + (k div 4 - k div 100 + k div 400)" for k
    by (simp add: year_start_def)
  show ?thesis
  proof (cases "0 \<le> d")
    case True
    define k where "k = d div 366"
    have "0 \<le> k" "366 * k \<le> d" using True div [of 366 d] by (simp_all add: k_def pos_imp_zdiv_nonneg_iff)
    moreover have "k div 4 - k div 100 + k div 400 \<le> k"
      using div [of 4 k] div [of 400 k] \<open>0 \<le> k\<close> by (intro pos) (auto simp: pos_imp_zdiv_nonneg_iff)
    ultimately show ?thesis using True by (simp add: start flip: k_def)
  next
    case False
    define k where "k = d div 365"
    have "k < 0" "365 * k \<le> d" using False div [of 365 d] by (simp_all add: k_def pos_imp_zdiv_neg_iff)
    moreover have "k div 4 - k div 100 + k div 400 \<le> 0"
      using div [of 4 k] div [of 100 k] div [of 400 k] \<open>k < 0\<close> by (intro neg [of _ k]) auto
    ultimately show ?thesis using False by (simp add: start flip: k_def)
  qed
qed

lemma year_of_bounds: "year_start (year_of d) \<le> d" "d < year_start (year_of d + 1)"
  using year_from_bounds [OF year_start_search] by (simp_all add: year_of_def)

lemma year_of_unique: "year_start y \<le> d \<Longrightarrow> d < year_start (y + 1) \<Longrightarrow> year_of d = y"
  using year_of_bounds [of d] year_start_le [of "y + 1" "year_of d"] year_start_le [of "year_of d + 1" y]
  by (cases "year_of d" y rule: linorder_cases) auto

lemma year_of_mono: "d \<le> d' \<Longrightarrow> year_of d \<le> year_of d'"
  using year_of_bounds [of d] year_of_bounds [of d'] year_start_le [of "year_of d' + 1" "year_of d"]
  by (cases "year_of d" "year_of d'" rule: linorder_cases) auto

lemma month_from_strict:
  "0 \<le> n \<Longrightarrow> n < n' \<Longrightarrow> month_from m n ks = (a, b) \<Longrightarrow> month_from m n' ks = (a', b')
   \<Longrightarrow> m \<le> a \<and> (a < a' \<or> a = a' \<and> b < b')"
proof (induction m n ks arbitrary: n' rule: month_from.induct)
  case (2 m n k ks)
  have le: "m' \<le> fst (month_from m' i js)" for m' i js
    by (induction m' i js rule: month_from.induct) auto
  consider "n' < k" | "n < k" "k \<le> n'" | "k \<le> n" using 2 by linarith
  then show ?case
  proof cases
    case 2
    then show ?thesis using "2.prems" le [of "m + 1" "n' - k" ks] by auto
  next
    case 3
    then have "m + 1 \<le> a \<and> (a < a' \<or> a = a' \<and> b < b')"
      using "2.prems" by (intro "2.IH" [of "n' - k"]) auto
    then show ?thesis by simp
  qed (use "2.prems" in auto)
qed auto

lemma month_from_day:
  "0 \<le> n \<Longrightarrow> n < sum_list ks \<Longrightarrow> list_all (\<lambda>k. k \<le> u) ks \<Longrightarrow> month_from m n ks = (a, b)
   \<Longrightarrow> m \<le> a \<and> a < m + length ks \<and> 1 \<le> b \<and> int b \<le> ks ! (a - m) \<and> int b \<le> u
     \<and> n = sum_list (take (a - m) ks) + (int b - 1)"
proof (induction m n ks rule: month_from.induct)
  case (2 m n k ks)
  show ?case
  proof (cases "n < k")
    case False
    then have "m + 1 \<le> a \<and> a < m + 1 + length ks \<and> 1 \<le> b \<and> int b \<le> ks ! (a - (m + 1)) \<and> int b \<le> u
        \<and> n - k = sum_list (take (a - (m + 1)) ks) + (int b - 1)"
      using 2 by simp
    moreover from this have "a - m = Suc (a - (m + 1))" by (elim conjE) linarith
    ultimately show ?thesis by (simp only: nth_Cons_Suc take_Suc_Cons sum_list.Cons) auto
  qed (use 2 in auto)
qed simp

lemma month_days_sum: "sum_list (month_days y) = (if is_leap y then 366 else 365)"
  by (simp add: month_days_def)

lemma civil_day:
  assumes "civil d = (y, m, n)"
  shows "y = year_of d \<and> 1 \<le> m \<and> m \<le> 12 \<and> 1 \<le> n \<and> n \<le> 31 \<and> int n \<le> month_days y ! (m - 1)
    \<and> d = year_start y + sum_list (take (m - 1) (month_days y)) + (int n - 1)"
proof -
  have y: "y = year_of d" and mn: "month_from 1 (d - year_start y) (month_days y) = (m, n)"
    using assms by (auto simp: civil_def Let_def)
  have "0 \<le> d - year_start y" "d - year_start y < sum_list (month_days y)"
    using year_of_bounds [of d] by (simp_all add: y month_days_sum year_start_Suc)
  moreover have "list_all (\<lambda>k. k \<le> 31) (month_days y)" "length (month_days y) = 12"
    by (simp_all add: month_days_def)
  ultimately show ?thesis
    using month_from_day [OF _ _ _ mn, of 31] y by simp
qed

lemma civil_ranges:
  assumes "civil d = (y, m, n)"
  shows "y = year_of d" and "m < 100" and "n < 100"
  using civil_day [OF assms] by (elim conjE; linarith)+

lemma civil_strict:
  assumes "d < d'" and "civil d = (y, m, n)" and "civil d' = (y', m', n')"
  shows "y < y' \<or> y = y' \<and> (m < m' \<or> m = m' \<and> n < n')"
proof (cases "y = y'")
  case True
  have "month_from 1 (d - year_start y) (month_days y) = (m, n)"
    and "month_from 1 (d' - year_start y) (month_days y) = (m', n')"
    and "0 \<le> d - year_start y"
    using assms(2,3) True year_of_bounds(1) [of d] by (auto simp: civil_def Let_def)
  from month_from_strict [OF this(3) _ this(1,2)] assms(1) True show ?thesis by simp
next
  case False
  then show ?thesis
    using year_of_mono [of d d'] assms(1) civil_day [OF assms(2)] civil_day [OF assms(3)] by linarith
qed

section \<open>Texts in order\<close>

text \<open>Numbers of a fixed width compare as numbers, then what follows them decides.\<close>

lemma length_pad [simp]: "length (pad w n) = w"
  by (induction w arbitrary: n) simp_all

lemma less_append_same: "length a = length b \<Longrightarrow> a @ x < b @ y \<longleftrightarrow> a < b \<or> a = b \<and> x < (y :: 'a :: linorder list)"
  by (induction a b rule: list_induct2) auto

lemma less_by_digits:
  assumes "0 < (k :: int)"
  shows "m < n \<longleftrightarrow> m div k < n div k \<or> m div k = n div k \<and> m mod k < n mod k"
proof (cases "m div k" "n div k" rule: linorder_cases)
  case less
  then show ?thesis using zdiv_mono1 [of n m k] assms by linarith
next
  case equal
  then show ?thesis
    using mult_div_mod_eq [of k m] mult_div_mod_eq [of k n] by (metis add_less_cancel_left less_irrefl)
next
  case greater
  then show ?thesis using zdiv_mono1 [of m n k] assms by linarith
qed

lemma digit_char_less:
  "0 \<le> m \<Longrightarrow> m < 10 \<Longrightarrow> 0 \<le> n \<Longrightarrow> n < 10 \<Longrightarrow> digit_char (nat m) < digit_char (nat n) \<longleftrightarrow> m < n"
  by (auto simp: less_char_def digit_char_def)

lemma digit_value_nat: "0 \<le> m \<Longrightarrow> m < 10 \<Longrightarrow> digit_value (digit_char (nat m)) = nat m"
  by (rule digit_char_simps) linarith

lemma digit_char_eq:
  "0 \<le> m \<Longrightarrow> m < 10 \<Longrightarrow> 0 \<le> n \<Longrightarrow> n < 10 \<Longrightarrow> digit_char (nat m) = digit_char (nat n) \<longleftrightarrow> m = n"
  by (metis digit_value_nat eq_nat_nat_iff)

definition fits :: "nat \<Rightarrow> int \<Rightarrow> bool" where
  "fits w n \<longleftrightarrow> 0 \<le> n \<and> n < 10 ^ w"

lemma fits_div: "fits (Suc w) n \<Longrightarrow> fits w (n div 10)"
  using mult_div_mod_eq [of 10 n] pos_mod_sign [of 10 n] by (auto simp: fits_def pos_imp_zdiv_nonneg_iff)

lemma pad_eq: "fits w m \<Longrightarrow> fits w n \<Longrightarrow> pad w m = pad w n \<longleftrightarrow> m = n"
proof (induction w arbitrary: m n)
  case (Suc w)
  from Suc.IH [OF fits_div fits_div, OF Suc.prems] show ?case
    by (auto simp: digit_char_eq) (metis div_mult_mod_eq)
qed (simp add: fits_def)

lemma pad_less: "fits w m \<Longrightarrow> fits w n \<Longrightarrow> pad w m < pad w n \<longleftrightarrow> m < n"
proof (induction w arbitrary: m n)
  case (Suc w)
  note small = fits_div [OF Suc.prems(1)] fits_div [OF Suc.prems(2)]
  from less_by_digits [of 10 m n] show ?case
    by (simp add: less_append_same pad_eq [OF small] Suc.IH [OF small] digit_char_less)
qed (simp add: fits_def)

lemma pad_append_less:
  "fits w m \<Longrightarrow> fits w n \<Longrightarrow> pad w m @ x < pad w n @ y \<longleftrightarrow> m < n \<or> m = n \<and> x < y"
  by (simp add: less_append_same pad_less pad_eq)

text \<open>The years that are written with four digits.\<close>

definition in_years :: "int \<Rightarrow> bool" where
  "in_years s \<longleftrightarrow> 0 \<le> year_of (s div 86400) \<and> year_of (s div 86400) < 10000"

lemma second_text_length: "in_years s \<Longrightarrow> length (second_text s) = 19"
  by (simp add: second_text_def year_text_def in_years_def civil_def Let_def nat_less_iff split: prod.splits)

lemma second_text_less:
  assumes "in_years s" and "in_years s'" and "s < s'"
  shows "second_text s < second_text s'"
proof -
  obtain y m d where c: "civil (s div 86400) = (y, m, d)" by (rule prod_cases3)
  obtain y' m' d' where c': "civil (s' div 86400) = (y', m', d')" by (rule prod_cases3)
  define r where "r = s mod 86400"
  define r' where "r' = s' mod 86400"
  have r: "0 \<le> r" "r < 86400" "0 \<le> r'" "r' < 86400" by (simp_all add: r_def r'_def)
  have days: "s div 86400 < s' div 86400 \<or> s div 86400 = s' div 86400 \<and> r < r'"
  proof (cases "s div 86400 = s' div 86400")
    case True
    then have "s mod 86400 < s' mod 86400"
      using assms(3) mult_div_mod_eq [of 86400 s] mult_div_mod_eq [of 86400 s'] by linarith
    then show ?thesis using True by (simp add: r_def r'_def)
  next
    case False
    then show ?thesis using zdiv_mono1 [of s s' 86400] assms(3) by linarith
  qed
  have year: "fits 4 y" "fits 4 y'" "\<not> y < 0" "\<not> y' < 0" "\<bar>y\<bar> = y" "\<bar>y'\<bar> = y'" "y < 10000" "y' < 10000"
    using assms(1,2) by (simp_all add: fits_def in_years_def civil_ranges [OF c] civil_ranges [OF c'])
  have small: "fits 2 (int m)" "fits 2 (int d)" "fits 2 (int m')" "fits 2 (int d')"
    using civil_ranges(2,3) [OF c] civil_ranges(2,3) [OF c'] by (simp_all add: fits_def)
  have time: "fits 2 (k div 3600)" "fits 2 (k div 60 mod 60)" "fits 2 (k mod 60)" if "0 \<le> k" "k < 86400" for k
    using that zdiv_mono1 [of k 86399 3600] pos_mod_bound [of 60 k] pos_mod_bound [of 60 "k div 60"]
    by (simp_all add: fits_def pos_imp_zdiv_nonneg_iff)
  have order: "y < y' \<or> y = y' \<and> (m < m' \<or> m = m' \<and> (d < d' \<or> d = d' \<and> r < r'))"
    using days
  proof
    assume "s div 86400 < s' div 86400"
    from civil_strict [OF this c c'] show ?thesis by auto
  qed (use c c' in auto)
  have hour: "k div 3600 = k div 60 div 60" for k :: int
    by (simp add: zdiv_zmult2_eq [symmetric])
  have "r < r' \<Longrightarrow> r div 3600 < r' div 3600 \<or> r div 3600 = r' div 3600
      \<and> (r div 60 mod 60 < r' div 60 mod 60 \<or> r div 60 mod 60 = r' div 60 mod 60 \<and> r mod 60 < r' mod 60)"
    unfolding hour by (metis less_by_digits zero_less_numeral)
  with order year small time [OF r(1,2)] time [OF r(3,4)] show ?thesis
    by (auto simp: second_text_def c c' Let_def year_text_def pad_append_less pad_less
        simp flip: r_def r'_def)
qed

text \<open>
  Two texts are in the order of their seconds. Within a second they need not be in the order of
  the instants: a text without a fraction continues with \<^verbatim>\<open>Z\<close>, which is after the point and the
  digits.
\<close>

lemma fmtTime_less:
  assumes "t \<noteq> 0" and "u \<noteq> 0" and "in_years (t div second)" and "in_years (u div second)"
  shows "fmtTime t < fmtTime u \<longleftrightarrow> t div second < u div second \<or> t div second = u div second
    \<and> frac_text (t mod second) @ ''Z'' < frac_text (u mod second) @ ''Z''"
proof -
  have "second_text (t div second) < second_text (u div second) \<longleftrightarrow> t div second < u div second"
    and "second_text (t div second) = second_text (u div second) \<longleftrightarrow> t div second = u div second"
    using second_text_less [OF assms(3,4)] second_text_less [OF assms(4,3)]
    by (cases "t div second" "u div second" rule: linorder_cases; force)+
  then show ?thesis
    using assms by (simp add: fmtTime_def is_zero_time_def less_append_same second_text_length)
qed

lemma fmtTime_less_bound:
  assumes "fmtTime t < fmtTime u" and "t \<noteq> 0" and "u \<noteq> 0"
    and "in_years (t div second)" and "in_years (u div second)"
  shows "t < u + second"
proof -
  have "t div second \<le> u div second"
    using assms fmtTime_less by auto
  moreover have "second * (t div second) + t mod second = t" "second * (u div second) + u mod second = u"
    "t mod second < second" "0 \<le> u mod second" "0 < second"
    by (simp_all add: duration_defs)
  ultimately show ?thesis
    using mult_left_mono [of "t div second" "u div second" second] by linarith
qed

section \<open>Round trip\<close>

lemma pad_digits: "list_all is_digit (pad w n)"
  by (induction w arbitrary: n) simp_all

lemma decimal_value_pad: "fits w n \<Longrightarrow> decimal_value (pad w n) = nat n"
proof (induction w arbitrary: n)
  case (Suc w)
  have "0 \<le> n" "n = 10 * (n div 10) + n mod 10" using Suc.prems by (simp_all add: fits_def)
  then have "nat n = 10 * nat (n div 10) + nat (n mod 10)"
    using pos_mod_sign [of 10 n] pos_imp_zdiv_nonneg_iff [of 10 n] by linarith
  with Suc.IH [OF fits_div, OF Suc.prems] digit_value_nat [of "n mod 10"] show ?case
    by (simp add: decimal_value_snoc)
qed (simp add: decimal_value_def fits_def)

lemma take_num_pad [simp]: "fits w n \<Longrightarrow> take_num w (pad w n @ s) = Some (nat n, s)"
  by (simp add: take_num_def pad_digits decimal_value_pad)

lemma decimal_value_zeros: "decimal_value (s @ replicate k (CHR ''0'')) = decimal_value s * 10 ^ k"
proof (induction k)
  case (Suc k)
  then show ?case
    by (simp add: replicate_append_same [symmetric] decimal_value_snoc digit_value_def flip: append_assoc)
qed simp

lemma trim_right_split: "\<exists>k. s = trim_right (\<lambda>c. c = d) s @ replicate k d"
proof -
  have "takeWhile (\<lambda>c. c = d) (rev s) = replicate (length (takeWhile (\<lambda>c. c = d) (rev s))) d"
    by (rule replicate_length_same [symmetric]) (auto dest: set_takeWhileD)
  then show ?thesis
    unfolding trim_right_def by (metis rev_append rev_replicate rev_rev_ident takeWhile_dropWhile_id)
qed

lemma take_frac_text:
  assumes "fits 9 n"
  shows "take_frac (frac_text n @ ''Z'') = Some (nat n, ''Z'')"
proof (cases "n = 0")
  case False
  obtain k where k: "pad 9 n = trim_right (\<lambda>c. c = CHR ''0'') (pad 9 n) @ replicate k (CHR ''0'')" (is "_ = ?f @ _")
    using trim_right_split by blast
  have "length ?f + k = 9" using arg_cong [OF k, of length] by simp
  moreover have "decimal_value ?f * 10 ^ k = nat n"
    using decimal_value_pad [OF assms] k decimal_value_zeros by metis
  moreover have "list_all is_digit ?f" using pad_digits [of 9 n] k by (metis list_all_append)
  moreover from this have "takeWhile is_digit (?f @ ''Z'') = ?f" "dropWhile is_digit (?f @ ''Z'') = ''Z''"
    by (simp_all add: takeWhile_append dropWhile_append list_all_iff is_digit_def byte_in_def)
  moreover have "?f \<noteq> []"
    using \<open>decimal_value ?f * 10 ^ k = nat n\<close> False assms by (auto simp: fits_def decimal_value_def)
  ultimately show ?thesis
    using False by (simp add: take_frac_def frac_text_def Let_def add_implies_diff [symmetric])
      (metis add_diff_cancel_left')
qed (simp add: take_frac_def frac_text_def)

lemma day_of_civil:
  assumes "civil d = (y, m, n)" and "0 \<le> y"
  shows "day_of (nat y) m n = Some d"
proof -
  have "int (nat y) = y" using assms(2) by simp
  moreover have ok: "1 \<le> m \<and> m \<le> 12 \<and> 1 \<le> n \<and> int n \<le> month_days y ! (m - 1)"
    and d: "year_start y + sum_list (take (m - 1) (month_days y)) + (int n - 1) = d"
    using civil_day [OF assms(1)] by (blast, metis)
  ultimately show ?thesis
    by (simp only: day_of_def Let_def ok d simp_thms if_True)
qed

theorem parse_fmtTime:
  assumes "in_years (t div second)"
  shows "parseTime (fmtTime t) = t"
proof (cases "t = 0")
  case False
  obtain y m d where c: "civil (t div second div 86400) = (y, m, d)" by (rule prod_cases3)
  define r where "r = t div second mod 86400"
  have r: "0 \<le> r" "r < 86400" by (simp_all add: r_def)
  have y: "0 \<le> y" "fits 4 y" "\<not> y < 0" "\<bar>y\<bar> = y" "y < 10000"
    using assms by (simp_all add: fits_def in_years_def civil_ranges [OF c])
  have md: "fits 2 (int m)" "fits 2 (int d)"
    using civil_ranges(2,3) [OF c] by (simp_all add: fits_def)
  have time: "fits 2 (r div 3600)" "fits 2 (r div 60 mod 60)" "fits 2 (r mod 60)"
    "nat (r div 3600) < 24" "nat (r div 60 mod 60) < 60" "nat (r mod 60) < 60"
    using r zdiv_mono1 [of r 86399 3600] pos_mod_bound [of 60 r] pos_mod_bound [of 60 "r div 60"]
    by (simp_all add: fits_def pos_imp_zdiv_nonneg_iff nat_less_iff)
  have parts: "int (nat (r div 3600)) * 3600 + int (nat (r div 60 mod 60)) * 60 + int (nat (r mod 60)) = r"
  proof -
    have "r div 3600 = r div 60 div 60" by (simp flip: zdiv_zmult2_eq)
    then show ?thesis
      using div_mult_mod_eq [of r 60] div_mult_mod_eq [of "r div 60" 60] r
      by (simp only: pos_imp_zdiv_nonneg_iff nat_0_le pos_mod_sign zero_less_numeral)
  qed
  have nano: "fits 9 (t mod second)" "int (nat (t mod second)) = t mod second"
    by (simp_all add: duration_defs fits_def)
  have "parse_rfc3339 (fmtTime t) = Some ((t div second div 86400 * 86400 + r) * second + t mod second)"
    using False y(3-5) time nano parts
    by (simp add: parse_rfc3339_def fmtTime_def is_zero_time_def second_text_def c year_text_def Let_def
        take_frac_text day_of_civil [OF c y(1)] take_num_pad [OF y(2)] take_num_pad [OF md(1)]
        take_num_pad [OF md(2)] flip: r_def)
  then have "parse_rfc3339 (fmtTime t) = Some t"
    by (simp add: r_def mult.commute)
  moreover have "fmtTime t \<noteq> ''''" using False by (simp add: fmtTime_def is_zero_time_def)
  ultimately show ?thesis by (simp add: parseTime_def)
qed (simp add: fmtTime_def is_zero_time_def parseTime_def)

end
