(* ===== verification/RelayStore.thy ===== *)
theory RelayStore
  imports Messages StoreTime "HOL-Library.Sublist"
begin

text \<open>
  The relay's metadata store (\<^verbatim>\<open>internal/relay/store/store.go\<close>): the five tables of the SQLite
  database with the statements that the code executes on them. A table with a primary key is a
  map from the key to the other columns, with the times as the texts they are stored as; the
  audit log is the list of its rows in the order of their numbers. A statement that fails
  leaves the tables unchanged: \<open>db_fault\<close> says that the database refuses everything (a full
  disk, a closed handle), and a violated key is an error of its own.
\<close>

section \<open>Tables\<close>

record device_row =
  dr_name :: string
  dr_os :: string
  dr_agent_version :: string
  dr_token_hash :: string
  dr_pubkey :: string
  dr_fingerprint :: string
  dr_created_at :: string
  dr_last_seen :: string
  dr_revoked_at :: "string option"

record pair_row =
  pr_created_at :: string
  pr_expires_at :: string
  pr_used_at :: "string option"
  pr_attempts :: int

record approval_row =
  ar_device_id :: string
  ar_sid :: int
  ar_agent :: string
  ar_tool :: string
  ar_summary :: string
  ar_input_json :: string
  ar_cwd :: string
  ar_level :: string
  ar_mode :: string
  ar_created_at :: string
  ar_hook_timeout_at :: "string option"
  ar_status :: string
  ar_decided_by :: string
  ar_decided_at :: "string option"

record audit_row =
  au_id :: int
  au_at :: string
  au_actor :: string
  au_device_id :: string
  au_sid :: int
  au_action :: string
  au_detail :: string

record database =
  db_fault :: bool
  db_devices :: "(string, device_row) gomap"
  db_pair_codes :: "(string, pair_row) gomap"
  db_approvals :: "(string, approval_row) gomap"
  db_audit :: "audit_row list"
  db_audit_seq :: int
  db_settings :: "(string, string) gomap"

definition empty_db :: database where
  "empty_db = \<lparr>db_fault = False, db_devices = [], db_pair_codes = [], db_approvals = [],
     db_audit = [], db_audit_seq = 0, db_settings = []\<rparr>"

datatype store_error = ErrNotFound | StoreFailed

definition sql :: "database \<Rightarrow> store_error + 'a \<Rightarrow> store_error + 'a" where
  "sql db r = (if db_fault db then Inl StoreFailed else r)"

section \<open>Devices\<close>

record device =
  dv_id :: string
  dv_name :: string
  dv_os :: string
  dv_agent_version :: string
  dv_token_hash :: string
  dv_pubkey :: string
  dv_fingerprint :: string
  dv_created_at :: instant
  dv_last_seen :: instant
  dv_revoked_at :: "instant option"

definition CreateDevice :: "device \<Rightarrow> database \<Rightarrow> store_error + database" where
  "CreateDevice d db = sql db
     (case mget (db_devices db) (dv_id d) of
        Some _ \<Rightarrow> Inl StoreFailed
      | None \<Rightarrow> Inr (db\<lparr>db_devices := mput (dv_id d)
          \<lparr>dr_name = dv_name d, dr_os = dv_os d, dr_agent_version = dv_agent_version d,
           dr_token_hash = dv_token_hash d, dr_pubkey = dv_pubkey d, dr_fingerprint = dv_fingerprint d,
           dr_created_at = fmtTime (dv_created_at d), dr_last_seen = fmtTime (dv_last_seen d),
           dr_revoked_at = fmtTimePtr (dv_revoked_at d)\<rparr> (db_devices db)\<rparr>))"

definition scanDevice :: "string \<times> device_row \<Rightarrow> device" where
  "scanDevice p = (case p of (did, r) \<Rightarrow>
     \<lparr>dv_id = did, dv_name = dr_name r, dv_os = dr_os r, dv_agent_version = dr_agent_version r,
      dv_token_hash = dr_token_hash r, dv_pubkey = dr_pubkey r, dv_fingerprint = dr_fingerprint r,
      dv_created_at = parseTime (dr_created_at r), dv_last_seen = parseTime (dr_last_seen r),
      dv_revoked_at = parseTimePtr (dr_revoked_at r)\<rparr>)"

definition GetDevice :: "string \<Rightarrow> database \<Rightarrow> store_error + device" where
  "GetDevice did db = sql db
     (case mget (db_devices db) did of None \<Rightarrow> Inl ErrNotFound | Some r \<Rightarrow> Inr (scanDevice (did, r)))"

definition DeviceByTokenHash :: "string \<Rightarrow> database \<Rightarrow> store_error + device" where
  "DeviceByTokenHash h db =
     (if h = '''' then Inl ErrNotFound
      else sql db
        (case find (\<lambda>(did, r). dr_token_hash r = h \<and> dr_revoked_at r = None) (db_devices db) of
           None \<Rightarrow> Inl ErrNotFound
         | Some p \<Rightarrow> Inr (scanDevice p)))"

text \<open>Rows with the same time of creation keep the order of the table.\<close>

definition ListDevices :: "database \<Rightarrow> store_error + device list" where
  "ListDevices db = sql db
     (Inr (map scanDevice
        (sort_key (\<lambda>(did, r). dr_created_at r) (filter (\<lambda>(did, r). dr_revoked_at r = None) (db_devices db)))))"

text \<open>An update of the row with a given key that meets a condition; no row is \<^verbatim>\<open>ErrNotFound\<close>.\<close>

definition update_row :: "'k \<Rightarrow> ('r \<Rightarrow> bool) \<Rightarrow> ('r \<Rightarrow> 'r) \<Rightarrow> ('k, 'r) gomap \<Rightarrow> ('k, 'r) gomap option" where
  "update_row k P f m = (case mget m k of
     Some r \<Rightarrow> if P r then Some (mput k (f r) m) else None
   | None \<Rightarrow> None)"

definition RenameDevice :: "string \<Rightarrow> string \<Rightarrow> database \<Rightarrow> store_error + database" where
  "RenameDevice did name db = sql db
     (case update_row did (\<lambda>r. dr_revoked_at r = None) (\<lambda>r. r\<lparr>dr_name := name\<rparr>) (db_devices db) of
        None \<Rightarrow> Inl ErrNotFound
      | Some t \<Rightarrow> Inr (db\<lparr>db_devices := t\<rparr>))"

definition TouchDevice :: "string \<Rightarrow> instant \<Rightarrow> string \<Rightarrow> string \<Rightarrow> database \<Rightarrow> store_error + database" where
  "TouchDevice did at osName version db = sql db
     (case update_row did (\<lambda>_. True)
        (\<lambda>r. r\<lparr>dr_last_seen := fmtTime at,
               dr_os := (if osName = '''' then dr_os r else osName),
               dr_agent_version := (if version = '''' then dr_agent_version r else version)\<rparr>) (db_devices db) of
        None \<Rightarrow> Inr db
      | Some t \<Rightarrow> Inr (db\<lparr>db_devices := t\<rparr>))"

definition RevokeDevice :: "string \<Rightarrow> instant \<Rightarrow> database \<Rightarrow> store_error + database" where
  "RevokeDevice did at db = sql db
     (case update_row did (\<lambda>r. dr_revoked_at r = None)
        (\<lambda>r. r\<lparr>dr_revoked_at := Some (fmtTime at), dr_token_hash := ''''\<rparr>) (db_devices db) of
        None \<Rightarrow> Inl ErrNotFound
      | Some t \<Rightarrow> Inr (db\<lparr>db_devices := t\<rparr>))"

section \<open>Pair codes\<close>

record pair_code =
  pc_code :: string
  pc_created_at :: instant
  pc_expires_at :: instant
  pc_used_at :: "instant option"
  pc_attempts :: int

definition CreatePairCode :: "pair_code \<Rightarrow> database \<Rightarrow> store_error + database" where
  "CreatePairCode p db = sql db
     (case mget (db_pair_codes db) (pc_code p) of
        Some _ \<Rightarrow> Inl StoreFailed
      | None \<Rightarrow> Inr (db\<lparr>db_pair_codes := mput (pc_code p)
          \<lparr>pr_created_at = fmtTime (pc_created_at p), pr_expires_at = fmtTime (pc_expires_at p),
           pr_used_at = fmtTimePtr (pc_used_at p), pr_attempts = pc_attempts p\<rparr> (db_pair_codes db)\<rparr>))"

definition GetPairCode :: "string \<Rightarrow> database \<Rightarrow> store_error + pair_code" where
  "GetPairCode code db = sql db
     (case mget (db_pair_codes db) code of
        None \<Rightarrow> Inl ErrNotFound
      | Some r \<Rightarrow> Inr \<lparr>pc_code = code, pc_created_at = parseTime (pr_created_at r),
          pc_expires_at = parseTime (pr_expires_at r), pc_used_at = parseTimePtr (pr_used_at r),
          pc_attempts = pr_attempts r\<rparr>)"

definition IncPairAttempts :: "string \<Rightarrow> database \<Rightarrow> store_error + database" where
  "IncPairAttempts code db = sql db
     (case update_row code (\<lambda>_. True) (\<lambda>r. r\<lparr>pr_attempts := pr_attempts r + 1\<rparr>) (db_pair_codes db) of
        None \<Rightarrow> Inr db
      | Some t \<Rightarrow> Inr (db\<lparr>db_pair_codes := t\<rparr>))"

definition RedeemPairCode :: "string \<Rightarrow> instant \<Rightarrow> database \<Rightarrow> store_error + database" where
  "RedeemPairCode code now db = sql db
     (case update_row code (\<lambda>r. pr_used_at r = None \<and> pr_expires_at r > fmtTime now)
        (\<lambda>r. r\<lparr>pr_used_at := Some (fmtTime now)\<rparr>) (db_pair_codes db) of
        None \<Rightarrow> Inl ErrNotFound
      | Some t \<Rightarrow> Inr (db\<lparr>db_pair_codes := t\<rparr>))"

definition PurgePairCodes :: "instant \<Rightarrow> database \<Rightarrow> store_error + database" where
  "PurgePairCodes cutoff db = sql db
     (Inr (db\<lparr>db_pair_codes := filter (\<lambda>(c, r). \<not> pr_expires_at r < fmtTime cutoff) (db_pair_codes db)\<rparr>))"

section \<open>Approvals\<close>

definition approval_level_of :: "string \<Rightarrow> approval_level" where
  "approval_level_of = enum_of approval_levels LevelOther"

definition approval_level_string :: "approval_level \<Rightarrow> string" where
  "approval_level_string = enum_string approval_levels (\<lambda>t. case t of LevelOther s \<Rightarrow> s | _ \<Rightarrow> '''')"

definition approval_mode_of :: "string \<Rightarrow> approval_mode" where
  "approval_mode_of = enum_of approval_modes ModeOther"

definition approval_mode_string :: "approval_mode \<Rightarrow> string" where
  "approval_mode_string = enum_string approval_modes (\<lambda>t. case t of ModeOther s \<Rightarrow> s | _ \<Rightarrow> '''')"

definition UpsertApproval :: "approval \<Rightarrow> database \<Rightarrow> store_error + database" where
  "UpsertApproval a db = sql db
     (Inr (db\<lparr>db_approvals := mput (ap_key a)
        \<lparr>ar_device_id = ap_device_id a, ar_sid = uint (ap_sid a), ar_agent = ap_agent a, ar_tool = ap_tool a,
         ar_summary = ap_summary a, ar_input_json = ap_input a, ar_cwd = ap_cwd a,
         ar_level = approval_level_string (ap_level a), ar_mode = approval_mode_string (ap_mode a),
         ar_created_at = fmtTime (ap_created_at a), ar_hook_timeout_at = fmtTimePtr (ap_hook_timeout_at a),
         ar_status = approval_status_string (ap_status a), ar_decided_by = ap_decided_by a,
         ar_decided_at = fmtTimePtr (ap_decided_at a)\<rparr> (db_approvals db)\<rparr>))"

definition SetApprovalStatus ::
  "string \<Rightarrow> approval_status \<Rightarrow> string \<Rightarrow> instant \<Rightarrow> database \<Rightarrow> store_error + database" where
  "SetApprovalStatus key status who at db = sql db
     (case update_row key (\<lambda>_. True)
        (\<lambda>r. r\<lparr>ar_status := approval_status_string status, ar_decided_by := who,
               ar_decided_at := Some (fmtTime at)\<rparr>) (db_approvals db) of
        None \<Rightarrow> Inl ErrNotFound
      | Some t \<Rightarrow> Inr (db\<lparr>db_approvals := t\<rparr>))"

definition scanApproval :: "string \<times> approval_row \<Rightarrow> approval" where
  "scanApproval p = (case p of (key, r) \<Rightarrow>
     \<lparr>ap_key = key, ap_sid = word_of_int (ar_sid r), ap_device_id = ar_device_id r, ap_agent = ar_agent r,
      ap_tool = ar_tool r, ap_summary = ar_summary r, ap_input = ar_input_json r, ap_cwd = ar_cwd r,
      ap_level = approval_level_of (ar_level r), ap_mode = approval_mode_of (ar_mode r),
      ap_created_at = parseTime (ar_created_at r), ap_hook_timeout_at = parseTimePtr (ar_hook_timeout_at r),
      ap_status = approval_status_of (ar_status r), ap_decided_by = ar_decided_by r,
      ap_decided_at = parseTimePtr (ar_decided_at r)\<rparr>)"

definition GetApproval :: "string \<Rightarrow> database \<Rightarrow> store_error + approval" where
  "GetApproval key db = sql db
     (case mget (db_approvals db) key of None \<Rightarrow> Inl ErrNotFound | Some r \<Rightarrow> Inr (scanApproval (key, r)))"

definition ListApprovals :: "bool \<Rightarrow> int \<Rightarrow> database \<Rightarrow> store_error + approval list" where
  "ListApprovals pendingOnly limit db = sql db
     (let n = (if limit \<le> 0 then 200 else nat limit);
          rows = (if pendingOnly
            then filter (\<lambda>(k, r). ar_status r = approval_status_string ApprovalPending) (db_approvals db)
            else db_approvals db)
      in Inr (map scanApproval (take n (rev (sort_key (\<lambda>(k, r). ar_created_at r) rows)))))"

section \<open>Audit and settings\<close>

record audit_entry =
  ad_id :: int
  ad_at :: instant
  ad_actor :: string
  ad_device_id :: string
  ad_sid :: u32
  ad_action :: string
  ad_detail :: string

text \<open>\<open>wall\<close> is \<^verbatim>\<open>time.Now()\<close>, for an entry without a time.\<close>

definition AppendAudit :: "instant \<Rightarrow> audit_entry \<Rightarrow> database \<Rightarrow> store_error + database" where
  "AppendAudit wall e db = sql db
     (let at = (if is_zero_time (ad_at e) then wall else ad_at e); n = db_audit_seq db + 1
      in Inr (db\<lparr>db_audit_seq := n, db_audit := db_audit db @
        [\<lparr>au_id = n, au_at = fmtTime at, au_actor = ad_actor e, au_device_id = ad_device_id e,
          au_sid = uint (ad_sid e), au_action = ad_action e, au_detail = ad_detail e\<rparr>]\<rparr>))"

definition ListAudit :: "int \<Rightarrow> database \<Rightarrow> store_error + audit_entry list" where
  "ListAudit limit db = sql db
     (let n = (if limit \<le> 0 then 100 else nat limit) in
      Inr (map (\<lambda>r. \<lparr>ad_id = au_id r, ad_at = parseTime (au_at r), ad_actor = au_actor r,
             ad_device_id = au_device_id r, ad_sid = word_of_int (au_sid r), ad_action = au_action r,
             ad_detail = au_detail r\<rparr>) (take n (rev (db_audit db)))))"

definition GetSetting :: "string \<Rightarrow> database \<Rightarrow> store_error + string" where
  "GetSetting k db = sql db (Inr (case mget (db_settings db) k of None \<Rightarrow> '''' | Some v \<Rightarrow> v))"

definition SetSetting :: "string \<Rightarrow> string \<Rightarrow> database \<Rightarrow> store_error + database" where
  "SetSetting k v db = sql db (Inr (db\<lparr>db_settings := mput k v (db_settings db)\<rparr>))"

section \<open>What the statements promise\<close>

lemma sql_Inr [simp]: "sql db r = Inr x \<longleftrightarrow> \<not> db_fault db \<and> r = Inr x"
  by (simp add: sql_def)

lemma update_row_Some:
  "update_row k P f m = Some m' \<longleftrightarrow> (\<exists>r. mget m k = Some r \<and> P r \<and> m' = mput k (f r) m)"
  by (auto simp: update_row_def split: option.splits)

lemma update_row_None: "update_row k P f m = None \<longleftrightarrow> (\<forall>r. mget m k = Some r \<longrightarrow> \<not> P r)"
  by (auto simp: update_row_def split: option.splits)

lemmas store_writes =
  CreateDevice_def RenameDevice_def TouchDevice_def RevokeDevice_def CreatePairCode_def IncPairAttempts_def
  RedeemPairCode_def PurgePairCodes_def UpsertApproval_def SetApprovalStatus_def AppendAudit_def SetSetting_def

definition db_wf :: "database \<Rightarrow> bool" where
  "db_wf db \<longleftrightarrow> mwf (db_devices db) \<and> mwf (db_pair_codes db) \<and> mwf (db_approvals db) \<and> mwf (db_settings db)"

text \<open>A device that is in the table and revoked, and a code that nobody can redeem any more.\<close>

definition revoked :: "string \<Rightarrow> database \<Rightarrow> bool" where
  "revoked did db \<longleftrightarrow> (case mget (db_devices db) did of None \<Rightarrow> False | Some r \<Rightarrow> dr_revoked_at r \<noteq> None)"

definition spent_code :: "string \<Rightarrow> database \<Rightarrow> bool" where
  "spent_code c db \<longleftrightarrow> (case mget (db_pair_codes db) c of None \<Rightarrow> True | Some r \<Rightarrow> pr_used_at r \<noteq> None)"

text \<open>
  The rows of the database: a revoked device has no digest left, and the entries of the audit log
  are numbered upwards. What a statement may do to the tables: keep them so, never forget or
  bring back a device, never make a spent code redeemable, unless it is one of the codes issued
  anew, and only add to the audit log.
\<close>

definition revoked_blank :: "string \<times> device_row \<Rightarrow> bool" where
  "revoked_blank p \<longleftrightarrow> (dr_revoked_at (snd p) \<noteq> None \<longrightarrow> dr_token_hash (snd p) = '''')"

definition audit_ok :: "database \<Rightarrow> bool" where
  "audit_ok db \<longleftrightarrow> sorted_wrt (<) (map au_id (db_audit db)) \<and> list_all (\<lambda>r. au_id r \<le> db_audit_seq db) (db_audit db)"

definition db_ok :: "database \<Rightarrow> bool" where
  "db_ok db \<longleftrightarrow> db_wf db \<and> mget (db_devices db) '''' = None \<and> list_all revoked_blank (db_devices db) \<and> audit_ok db"

definition db_keeps :: "string set \<Rightarrow> database \<Rightarrow> database \<Rightarrow> bool" where
  "db_keeps issued db db' \<longleftrightarrow>
     (db_ok db \<longrightarrow> db_ok db')
     \<and> (\<forall>did. mget (db_devices db) did \<noteq> None \<longrightarrow> mget (db_devices db') did \<noteq> None)
     \<and> (\<forall>did. revoked did db \<longrightarrow> revoked did db')
     \<and> (\<forall>c. c \<notin> issued \<longrightarrow> db_ok db \<longrightarrow> spent_code c db \<longrightarrow> spent_code c db')
     \<and> prefix (db_audit db) (db_audit db')"

lemma db_keeps_refl [simp]: "db_keeps I db db"
  by (simp add: db_keeps_def)

lemma db_keeps_trans: "db_keeps I a b \<Longrightarrow> db_keeps I b c \<Longrightarrow> db_keeps I a c"
  by (auto simp: db_keeps_def)

lemma db_keepsI:
  assumes "db_ok db \<Longrightarrow> db_ok db'"
    and "\<And>did. mget (db_devices db) did \<noteq> None \<Longrightarrow> mget (db_devices db') did \<noteq> None"
    and "\<And>did. revoked did db \<Longrightarrow> revoked did db'"
    and "\<And>c. c \<notin> I \<Longrightarrow> db_ok db \<Longrightarrow> spent_code c db \<Longrightarrow> spent_code c db'"
    and "prefix (db_audit db) (db_audit db')"
  shows "db_keeps I db db'"
  using assms by (simp add: db_keeps_def)

lemma list_all_mput: "list_all P m \<Longrightarrow> P (k, v) \<Longrightarrow> list_all P (mput k v m)"
  by (induction m) (auto simp: mput_def)

lemma list_all_mget: "list_all P m \<Longrightarrow> mget m k = Some v \<Longrightarrow> P (k, v)"
  by (auto simp: mget_def list_all_iff dest: map_of_SomeD)

lemma revoked_blank_update:
  assumes "list_all revoked_blank m" and "mget m k = Some r"
    and "dr_revoked_at r' = dr_revoked_at r" and "dr_token_hash r' = dr_token_hash r"
  shows "list_all revoked_blank (mput k r' m)"
  using list_all_mget [OF assms(1,2)] assms by (intro list_all_mput) (auto simp: revoked_blank_def)

lemma revoked_blank_new:
  "list_all revoked_blank m \<Longrightarrow> dr_revoked_at r = None \<or> dr_token_hash r = '''' \<Longrightarrow> list_all revoked_blank (mput k r m)"
  by (intro list_all_mput) (auto simp: revoked_blank_def)

lemma audit_ok_add:
  "audit_ok db \<Longrightarrow> au_id r = db_audit_seq db + 1
   \<Longrightarrow> audit_ok (db\<lparr>db_audit_seq := db_audit_seq db + 1, db_audit := db_audit db @ [r]\<rparr>)"
  by (auto simp: audit_ok_def sorted_wrt_append list_all_iff)

lemmas db_defs = db_ok_def db_wf_def audit_ok_def revoked_def spent_code_def update_row_Some Let_def

lemma devices_keep:
  "CreateDevice d db = Inr db' \<Longrightarrow> dv_id d \<noteq> '''' \<Longrightarrow> dv_revoked_at d = None \<Longrightarrow> db_keeps I db db'"
  "RenameDevice did name db = Inr db' \<Longrightarrow> db_keeps I db db'"
  "TouchDevice did at os v db = Inr db' \<Longrightarrow> db_keeps I db db'"
  "RevokeDevice did at db = Inr db' \<Longrightarrow> db_keeps I db db'"
  subgoal by (auto simp: store_writes db_defs fmtTimePtr_def intro!: db_keepsI split: option.splits if_splits;
      (rule revoked_blank_new, assumption, simp))
  subgoal by (auto simp: store_writes db_defs intro!: db_keepsI split: option.splits if_splits;
      (rule revoked_blank_update, assumption, assumption, simp_all))
  subgoal by (auto simp: store_writes db_defs intro!: db_keepsI split: option.splits if_splits;
      (rule revoked_blank_update, assumption, assumption, simp_all))
  subgoal by (auto simp: store_writes db_defs fmtTimePtr_def intro!: db_keepsI split: option.splits if_splits;
      (rule revoked_blank_new, assumption, simp))
  done

lemma pair_codes_keep:
  "CreatePairCode p db = Inr db' \<Longrightarrow> pc_code p \<in> I \<Longrightarrow> db_keeps I db db'"
  "IncPairAttempts c db = Inr db' \<Longrightarrow> db_keeps I db db'"
  "RedeemPairCode c now db = Inr db' \<Longrightarrow> db_keeps I db db'"
  "PurgePairCodes t db = Inr db' \<Longrightarrow> db_keeps I db db'"
  by (auto simp: store_writes db_defs mget_filter intro!: db_keepsI split: option.splits if_splits)

lemma audit_keeps: "AppendAudit wall e db = Inr db' \<Longrightarrow> db_keeps I db db'"
  by (auto simp: AppendAudit_def Let_def db_ok_def db_wf_def revoked_def spent_code_def
      intro!: db_keepsI audit_ok_add split: option.splits)

lemma others_keep:
  "UpsertApproval a db = Inr db' \<Longrightarrow> db_keeps I db db'"
  "SetApprovalStatus key st who at db = Inr db' \<Longrightarrow> db_keeps I db db'"
  "AppendAudit wall e db = Inr db' \<Longrightarrow> db_keeps I db db'"
  "SetSetting k v db = Inr db' \<Longrightarrow> db_keeps I db db'"
  by (auto simp: UpsertApproval_def SetApprovalStatus_def SetSetting_def db_defs audit_keeps
      intro!: db_keepsI split: option.splits if_splits)

lemma fault_keeps: "db_keeps I db (db\<lparr>db_fault := b\<rparr>)"
  by (auto simp: db_defs intro!: db_keepsI split: option.splits)

lemmas store_keeps = devices_keep pair_codes_keep others_keep fault_keeps

lemma RevokeDevice_revoked: "RevokeDevice did at db = Inr db' \<Longrightarrow> revoked did db'"
  by (auto simp: RevokeDevice_def revoked_def update_row_Some split: option.splits)

lemma DeviceByTokenHash_Inr:
  assumes "DeviceByTokenHash h db = Inr d" and "db_wf db"
  shows "\<exists>r. mget (db_devices db) (dv_id d) = Some r \<and> dr_token_hash r = h \<and> dr_revoked_at r = None"
  using assms
  by (auto simp: DeviceByTokenHash_def db_wf_def mwf_mget_iff scanDevice_def find_Some_iff
      split: option.splits if_splits prod.splits) (metis nth_mem)

lemma revoked_not_found: "revoked did db \<Longrightarrow> db_wf db \<Longrightarrow> DeviceByTokenHash h db = Inr d \<Longrightarrow> dv_id d \<noteq> did"
  by (auto dest!: DeviceByTokenHash_Inr simp: revoked_def)

lemma RedeemPairCode_spent: "RedeemPairCode c now db = Inr db' \<Longrightarrow> spent_code c db'"
  by (auto simp: RedeemPairCode_def spent_code_def update_row_Some split: option.splits)

lemma spent_not_redeemable: "spent_code c db \<Longrightarrow> RedeemPairCode c now db \<noteq> Inr db'"
  by (auto simp: RedeemPairCode_def spent_code_def update_row_Some split: option.splits)

lemma CreateDevice_lookup:
  assumes "CreateDevice d db = Inr db'" and "in_years (dv_created_at d div second)"
    and "in_years (dv_last_seen d div second)" and "dv_revoked_at d = None"
  shows "GetDevice (dv_id d) db' = Inr d"
  using assms
  by (auto simp: CreateDevice_def GetDevice_def scanDevice_def parse_fmtTime fmtTimePtr_def parseTimePtr_def
      split: option.splits)

end
