(* ===== verification/RelayAuth.thy ===== *)
theory RelayAuth
  imports Prelude
begin

text \<open>
  Who may talk to the relay (\<^verbatim>\<open>internal/relay/auth.go\<close>, \<^verbatim>\<open>pair.go\<close>): the login sessions of the
  console, the counter that locks a caller out after too many failures, the address a request
  counts for, and the pairing codes, tokens and fingerprints. Random bytes and SHA-256 are
  arguments.
\<close>

section \<open>Login sessions\<close>

record login_session =
  ls_id :: string
  ls_created_at :: instant
  ls_expires_at :: instant

record login_sessions =
  lo_ttl :: duration
  lo_sess :: "(string, login_session) gomap"

definition newLoginSessions :: "duration \<Rightarrow> login_sessions" where
  "newLoginSessions ttl = \<lparr>lo_ttl = ttl, lo_sess = []\<rparr>"

text \<open>\<^verbatim>\<open>base64.RawURLEncoding\<close> and \<^verbatim>\<open>base32.StdEncoding\<close> without padding: groups of bits, the last
  one filled with zeros, index an alphabet.\<close>

definition bits_of_byte :: "byte \<Rightarrow> bool list" where
  "bits_of_byte b = map (\<lambda>i. bit b i) (rev [0..<8])"

definition bits_value :: "bool list \<Rightarrow> nat" where
  "bits_value bs = foldl (\<lambda>a b. 2 * a + (if b then 1 else 0)) 0 bs"

function encode_bits :: "nat \<Rightarrow> string \<Rightarrow> bool list \<Rightarrow> string" where
  "encode_bits k alphabet bs =
     (if bs = [] \<or> k = 0 then []
      else alphabet ! bits_value (take k (bs @ replicate (k - length bs) False))
           # encode_bits k alphabet (drop k bs))"
  by pat_completeness auto
termination
  by (relation "measure (\<lambda>(k, al, bs). length bs)") auto

declare encode_bits.simps [simp del]

definition base64_alphabet :: string where
  "base64_alphabet = ''ABCDEFGHIJKLMNOPQRSTUVWXYZabcdefghijklmnopqrstuvwxyz0123456789-_''"

definition base32_alphabet :: string where
  "base32_alphabet = ''ABCDEFGHIJKLMNOPQRSTUVWXYZ234567''"

definition base64_url :: "byte list \<Rightarrow> string" where
  "base64_url b = encode_bits 6 base64_alphabet (concat (map bits_of_byte b))"

definition base32_std :: "byte list \<Rightarrow> string" where
  "base32_std b = encode_bits 5 base32_alphabet (concat (map bits_of_byte b))"

text \<open>\<open>raw\<close> is the 32 random bytes of the token, \<open>raw_id\<close> the 6 of the session's name.\<close>

definition randomID :: "string \<Rightarrow> byte list \<Rightarrow> string" where
  "randomID prefix b = prefix @ hex_encode b"

definition login_create ::
  "instant \<Rightarrow> byte list \<Rightarrow> byte list \<Rightarrow> login_sessions \<Rightarrow> string \<times> login_session \<times> login_sessions" where
  "login_create now raw raw_id l =
     (let tok = base64_url raw;
          ls = \<lparr>ls_id = randomID ''u-'' raw_id, ls_created_at = now, ls_expires_at = now + lo_ttl l\<rparr>
      in (tok, ls, l\<lparr>lo_sess := filter (\<lambda>(k, v). \<not> now > ls_expires_at v) (mput tok ls (lo_sess l))\<rparr>))"

definition login_get :: "instant \<Rightarrow> string \<Rightarrow> login_sessions \<Rightarrow> login_session option \<times> login_sessions" where
  "login_get now tok l =
     (if tok = '''' then (None, l)
      else case mget (lo_sess l) tok of
        None \<Rightarrow> (None, l)
      | Some ls \<Rightarrow>
          if now > ls_expires_at ls then (None, l\<lparr>lo_sess := mdel tok (lo_sess l)\<rparr>) else (Some ls, l))"

definition login_revoke :: "string \<Rightarrow> login_sessions \<Rightarrow> login_sessions" where
  "login_revoke tok l = l\<lparr>lo_sess := mdel tok (lo_sess l)\<rparr>"

text \<open>The password is compared by its digest.\<close>

definition passwordOK :: "(string \<Rightarrow> byte list) \<Rightarrow> string \<Rightarrow> string \<Rightarrow> bool" where
  "passwordOK sha256 admin pw \<longleftrightarrow> sha256 pw = sha256 admin"

section \<open>The caller's address\<close>

text \<open>
  The parts of a request that the handlers read. The remote address comes with what
  \<^verbatim>\<open>net.SplitHostPort\<close> makes of it.
\<close>

record http_request =
  rq_xff :: string
  rq_real_ip :: string
  rq_remote_addr :: string
  rq_remote_host :: "string option"
  rq_cookie :: "string option"
  rq_authorization :: string
  rq_query_token :: string
  rq_tls :: bool
  rq_forwarded_proto :: string

definition clientIP :: "http_request \<Rightarrow> string" where
  "clientIP r =
     (if rq_xff r \<noteq> '''' then trim_space (takeWhile (\<lambda>c. c \<noteq> CHR '','') (rq_xff r))
      else if rq_real_ip r \<noteq> '''' then trim_space (rq_real_ip r)
      else case rq_remote_host r of None \<Rightarrow> rq_remote_addr r | Some h \<Rightarrow> h)"

definition lower_char :: "char \<Rightarrow> char" where
  "lower_char c = (if byte_in 65 90 c then char_of ((of_char c :: nat) + 32) else c)"

definition upper_char :: "char \<Rightarrow> char" where
  "upper_char c = (if byte_in 97 122 c then char_of ((of_char c :: nat) - 32) else c)"

text \<open>
  A bearer token in the header, else the query parameter. The text is lowered only to compare
  its first seven bytes with an ASCII word, and lowering a letter outside ASCII that gives one
  of those bytes (the Kelvin sign gives k) concerns none of them.
\<close>

definition bearerToken :: "http_request \<Rightarrow> string" where
  "bearerToken r =
     (if starts_with ''bearer '' (map lower_char (rq_authorization r)) then trim_space (drop 7 (rq_authorization r))
      else rq_query_token r)"

section \<open>Lock-out\<close>

record lock_entry =
  le_fails :: int
  le_last_fail :: instant
  le_locked_until :: instant

record lockout =
  lk_after :: int
  lk_for :: duration
  lk_ents :: "(string, lock_entry) gomap"

definition newLockout :: "int \<Rightarrow> duration \<Rightarrow> lockout" where
  "newLockout after d = \<lparr>lk_after = after, lk_for = d, lk_ents = []\<rparr>"

definition locked :: "instant \<Rightarrow> string \<Rightarrow> lockout \<Rightarrow> bool \<times> lockout" where
  "locked now key l = (case mget (lk_ents l) key of
     None \<Rightarrow> (False, l)
   | Some e \<Rightarrow>
       if now < le_locked_until e then (True, l)
       else if time_sub now (le_last_fail e) > lk_for l then (False, l\<lparr>lk_ents := mdel key (lk_ents l)\<rparr>)
       else (False, l))"

definition lock_fail :: "instant \<Rightarrow> string \<Rightarrow> lockout \<Rightarrow> bool \<times> lockout" where
  "lock_fail now key l =
     (let fresh = \<lparr>le_fails = 0, le_last_fail = 0, le_locked_until = 0\<rparr>;
          e = (case mget (lk_ents l) key of
                 None \<Rightarrow> fresh
               | Some e \<Rightarrow> if time_sub now (le_last_fail e) > lk_for l then fresh else e);
          e = e\<lparr>le_fails := le_fails e + 1, le_last_fail := now\<rparr>
      in if le_fails e \<ge> lk_after l
         then (True, l\<lparr>lk_ents := mput key (e\<lparr>le_locked_until := now + lk_for l, le_fails := 0\<rparr>) (lk_ents l)\<rparr>)
         else (False, l\<lparr>lk_ents := mput key e (lk_ents l)\<rparr>))"

definition lock_reset :: "string \<Rightarrow> lockout \<Rightarrow> lockout" where
  "lock_reset key l = l\<lparr>lk_ents := mdel key (lk_ents l)\<rparr>"

section \<open>Pairing codes, tokens, fingerprints\<close>

definition pairAlphabet :: string where
  "pairAlphabet = ''ABCDEFGHJKLMNPQRSTUVWXYZ23456789''"

text \<open>\<open>b\<close> is the eight random bytes.\<close>

definition newPairCode :: "byte list \<Rightarrow> string" where
  "newPairCode b = map (\<lambda>v. pairAlphabet ! (unat v mod length pairAlphabet)) b"

text \<open>
  \<^verbatim>\<open>strings.ToUpper\<close> goes rune by rune; \<open>up\<close> is what Unicode makes of a rune outside ASCII.
\<close>

definition to_upper :: "(string \<Rightarrow> string) \<Rightarrow> string \<Rightarrow> string" where
  "to_upper up s =
     concat (map (\<lambda>r. if list_all is_ascii r then map upper_char r else up r) (utf8_runes s))"

definition normalizePairCode :: "(string \<Rightarrow> string) \<Rightarrow> string \<Rightarrow> string" where
  "normalizePairCode up c =
     filter (\<lambda>x. x \<noteq> CHR ''-'' \<and> x \<noteq> CHR '' '') (to_upper up (trim_space c))"

definition hashToken :: "(string \<Rightarrow> byte list) \<Rightarrow> string \<Rightarrow> string" where
  "hashToken sha256 token = hex_encode (sha256 token)"

definition newDeviceToken :: "(string \<Rightarrow> byte list) \<Rightarrow> byte list \<Rightarrow> string \<times> string" where
  "newDeviceToken sha256 raw = (let token = base64_url raw in (token, hashToken sha256 token))"

definition fingerprint :: "(string \<Rightarrow> byte list) \<Rightarrow> string \<Rightarrow> string" where
  "fingerprint sha256 material =
     (let enc = base32_std (sha256 material) in take 4 enc @ ''-'' @ take 4 (drop 4 enc))"

end
