(* ===== verification/RelayHub.thy ===== *)
theory RelayHub
  imports RelayStore RelayAuth Frames
begin

text \<open>
  The relay's state and the helpers that its handlers share (\<^verbatim>\<open>internal/relay/hub.go\<close>,
  \<^verbatim>\<open>server.go\<close>, \<^verbatim>\<open>webhook.go\<close>, \<^verbatim>\<open>errors.go\<close>): the devices with their sessions and their
  connection, the connected clients, who owns a session id and which clients are attached to it,
  the cached approvals, and the database. A connection is an object of its own, named by a
  number, because goroutines hold it after the relay's tables have forgotten it. Each helper runs
  to its end before the next one starts, as the relay's mutex has it for what it guards.
\<close>

section \<open>Connections\<close>

text \<open>
  A queued WebSocket message: a control message or a data frame. The echo of a heartbeat is the
  message as it was received.
\<close>

datatype relay_out = RText msg | RBinary "byte list"

record wire =
  wi_out :: "relay_out list"
  wi_sent :: "relay_out list"
  wi_closed :: bool

definition new_wire :: wire where
  "new_wire = \<lparr>wi_out = [], wi_sent = [], wi_closed = False\<rparr>"

definition wire_close :: "wire \<Rightarrow> wire" where
  "wire_close w = w\<lparr>wi_closed := True\<rparr>"

text \<open>The non-blocking send on a queue of \<open>cap\<close> messages; a full queue closes the connection.\<close>

definition wire_send :: "nat \<Rightarrow> relay_out \<Rightarrow> wire \<Rightarrow> wire" where
  "wire_send cap x w =
     (if length (wi_out w) < cap then w\<lparr>wi_out := wi_out w @ [x]\<rparr> else wire_close w)"

text \<open>A turn of \<^verbatim>\<open>writeLoop\<close>; \<open>ok\<close> says whether the write succeeds.\<close>

definition wire_write :: "bool \<Rightarrow> wire \<Rightarrow> wire" where
  "wire_write ok w =
     (if wi_closed w then w
      else case wi_out w of
        [] \<Rightarrow> w
      | x # xs \<Rightarrow> if ok then w\<lparr>wi_out := xs, wi_sent := wi_sent w @ [x]\<rparr> else wire_close (w\<lparr>wi_out := xs\<rparr>))"

definition agentQueueLen :: nat where "agentQueueLen = 1024"
definition clientQueueLen :: nat where "clientQueueLen = 2048"

record agent_conn =
  ac_device_id :: string
  ac_wire :: wire
  ac_last_heartbeat :: instant
  ac_rtt :: int

record client_conn =
  cc_id :: string
  cc_login_id :: string
  cc_wire :: wire
  cc_attached :: "(u32, bool) gomap"

section \<open>The server\<close>

record device_state =
  ds_info :: device_info
  ds_sessions :: "(u32, session_info) gomap"
  ds_conn :: "nat option"

record relay_config =
  rc_admin_password :: string
  rc_public_url :: string
  rc_heartbeat_timeout :: duration
  rc_sweep_interval :: duration
  rc_session_ttl :: duration
  rc_pair_code_ttl :: duration
  rc_lockout_after :: int
  rc_lockout_for :: duration

definition config_defaults :: "relay_config \<Rightarrow> relay_config" where
  "config_defaults c = c\<lparr>
     rc_heartbeat_timeout := (if rc_heartbeat_timeout c \<le> 0 then 45 * second else rc_heartbeat_timeout c),
     rc_sweep_interval := (if rc_sweep_interval c \<le> 0 then 5 * second else rc_sweep_interval c),
     rc_session_ttl := (if rc_session_ttl c \<le> 0 then 30 * 24 * hour else rc_session_ttl c),
     rc_pair_code_ttl := (if rc_pair_code_ttl c \<le> 0 then 5 * minute else rc_pair_code_ttl c),
     rc_lockout_after := (if rc_lockout_after c \<le> 0 then 5 else rc_lockout_after c),
     rc_lockout_for := (if rc_lockout_for c \<le> 0 then 15 * minute else rc_lockout_for c)\<rparr>"

record webhook_payload =
  wp_title :: string
  wp_body :: string
  wp_device :: string
  wp_session :: string
  wp_key :: string
  wp_url :: string

text \<open>
  \<open>sv_agents\<close> and \<open>sv_cobjs\<close> hold the connection objects; \<open>sv_clients\<close> is the server's table of
  the connected ones. \<open>sv_posts\<close> lists the notifications that were handed to a goroutine.
\<close>

record relay =
  sv_cfg :: relay_config
  sv_db :: database
  sv_logins :: login_sessions
  sv_limiter :: lockout
  sv_devices :: "(string, device_state) gomap"
  sv_clients :: "(string, nat) gomap"
  sv_sid_owner :: "(u32, string) gomap"
  sv_attachments :: "(u32, (string, bool) gomap) gomap"
  sv_approvals :: "(string, approval) gomap"
  sv_agents :: "(nat, agent_conn) gomap"
  sv_cobjs :: "(nat, client_conn) gomap"
  sv_next :: nat
  sv_posts :: "(string \<times> webhook_payload) list"

text \<open>
  What the outside gives a handler: the relay's clock and the system's, random bytes, SHA-256,
  the upper case of runes outside ASCII, and what \<^verbatim>\<open>url.Parse\<close> makes of a text (its scheme and
  host).
\<close>

record relay_env =
  re_now :: instant
  re_wall :: instant
  re_raw :: "byte list"
  re_raw_id :: "byte list"
  re_codes :: "byte list list"
  re_sha256 :: "string \<Rightarrow> byte list"
  re_upper :: "string \<Rightarrow> string"
  re_parse_url :: "string \<Rightarrow> (string \<times> string) option"

datatype api_error = ApiError nat string | ApiStore store_error

definition errBadRequest :: "string \<Rightarrow> api_error" where "errBadRequest = ApiError 400"
definition errNotFound :: "string \<Rightarrow> api_error" where "errNotFound = ApiError 404"
definition errConflict :: "string \<Rightarrow> api_error" where "errConflict = ApiError 409"
definition errOffline :: "string \<Rightarrow> api_error" where "errOffline = ApiError 503"

definition newDeviceState :: "device \<Rightarrow> device_state" where
  "newDeviceState d =
     \<lparr>ds_info = \<lparr>di_id = dv_id d, di_name = dv_name d, di_os = dv_os d, di_agent_version = dv_agent_version d,
        di_online = False, di_last_seen = dv_last_seen d, di_rtt_ms = 0,
        di_fingerprint = dv_fingerprint d, di_power = ''''\<rparr>,
      ds_sessions = [], ds_conn = None\<rparr>"

definition sessionList :: "device_state \<Rightarrow> session_info list" where
  "sessionList d = mvals (ds_sessions d)"

section \<open>Sending\<close>

definition agent_push :: "nat \<Rightarrow> relay_out \<Rightarrow> relay \<Rightarrow> relay" where
  "agent_push n x s = (case mget (sv_agents s) n of
     None \<Rightarrow> s
   | Some a \<Rightarrow> s\<lparr>sv_agents := mput n (a\<lparr>ac_wire := wire_send agentQueueLen x (ac_wire a)\<rparr>) (sv_agents s)\<rparr>)"

definition agent_sendMsg :: "nat \<Rightarrow> msg \<Rightarrow> relay \<Rightarrow> relay" where
  "agent_sendMsg n m = agent_push n (RText m)"

definition agent_closeNow :: "nat \<Rightarrow> relay \<Rightarrow> relay" where
  "agent_closeNow n s = (case mget (sv_agents s) n of
     None \<Rightarrow> s
   | Some a \<Rightarrow> s\<lparr>sv_agents := mput n (a\<lparr>ac_wire := wire_close (ac_wire a)\<rparr>) (sv_agents s)\<rparr>)"

definition client_push :: "nat \<Rightarrow> relay_out \<Rightarrow> relay \<Rightarrow> relay" where
  "client_push n x s = (case mget (sv_cobjs s) n of
     None \<Rightarrow> s
   | Some c \<Rightarrow> s\<lparr>sv_cobjs := mput n (c\<lparr>cc_wire := wire_send clientQueueLen x (cc_wire c)\<rparr>) (sv_cobjs s)\<rparr>)"

definition client_sendMsg :: "nat \<Rightarrow> msg \<Rightarrow> relay \<Rightarrow> relay" where
  "client_sendMsg n m = client_push n (RText m)"

definition client_sendError :: "nat \<Rightarrow> string \<Rightarrow> string \<Rightarrow> u32 \<Rightarrow> string \<Rightarrow> relay \<Rightarrow> relay" where
  "client_sendError n req_id did sid text =
     client_sendMsg n ((Msg0 TError)\<lparr>m_req_id := req_id, m_device_id := did, m_sid := sid, m_error := text\<rparr>)"

definition client_closeNow :: "nat \<Rightarrow> relay \<Rightarrow> relay" where
  "client_closeNow n s = (case mget (sv_cobjs s) n of
     None \<Rightarrow> s
   | Some c \<Rightarrow> s\<lparr>sv_cobjs := mput n (c\<lparr>cc_wire := wire_close (cc_wire c)\<rparr>) (sv_cobjs s)\<rparr>)"

definition broadcast :: "msg \<Rightarrow> relay \<Rightarrow> relay" where
  "broadcast m s = fold (\<lambda>n. client_push n (RText m)) (mvals (sv_clients s)) s"

definition deviceList :: "relay \<Rightarrow> device_info list" where
  "deviceList s = map ds_info (mvals (sv_devices s))"

definition deviceInfo :: "string \<Rightarrow> relay \<Rightarrow> device_info option" where
  "deviceInfo did s = map_option ds_info (mget (sv_devices s) did)"

definition broadcastDeviceState :: "string \<Rightarrow> relay \<Rightarrow> relay" where
  "broadcastDeviceState did s = (case deviceInfo did s of
     None \<Rightarrow> s
   | Some info \<Rightarrow> broadcast ((Msg0 TDeviceState)\<lparr>m_device_id := did, m_device := Some info\<rparr>) s)"

definition broadcastDeviceList :: "relay \<Rightarrow> relay" where
  "broadcastDeviceList s = broadcast ((Msg0 TDeviceList)\<lparr>m_devices := deviceList s\<rparr>) s"

definition broadcastSessionList :: "string \<Rightarrow> relay \<Rightarrow> relay" where
  "broadcastSessionList did s = (case mget (sv_devices s) did of
     None \<Rightarrow> s
   | Some d \<Rightarrow> broadcast ((Msg0 TSessionList)\<lparr>m_device_id := did, m_sessions := sessionList d\<rparr>) s)"

section \<open>Session ids\<close>

definition registerSID :: "u32 \<Rightarrow> string \<Rightarrow> relay \<Rightarrow> bool \<times> relay" where
  "registerSID sid did s =
     (if (\<exists>owner \<in> set_option (mget (sv_sid_owner s) sid). owner \<noteq> did) then (False, s)
      else (True, s\<lparr>sv_sid_owner := mput sid did (sv_sid_owner s)\<rparr>))"

definition detach_all :: "u32 \<Rightarrow> nat list \<Rightarrow> (nat, client_conn) gomap \<Rightarrow> (nat, client_conn) gomap" where
  "detach_all sid ns = mmap (\<lambda>n c. if n \<in> set ns then c\<lparr>cc_attached := mdel sid (cc_attached c)\<rparr> else c)"

definition forgetSID :: "u32 \<Rightarrow> relay \<Rightarrow> relay" where
  "forgetSID sid s = s\<lparr>sv_sid_owner := mdel sid (sv_sid_owner s),
     sv_attachments := mdel sid (sv_attachments s),
     sv_cobjs := detach_all sid (mvals (sv_clients s)) (sv_cobjs s)\<rparr>"

section \<open>Audit, approvals, devices\<close>

definition pendingApprovals :: "relay \<Rightarrow> approval list" where
  "pendingApprovals s = filter (\<lambda>a. ap_status a = ApprovalPending) (mvals (sv_approvals s))"

text \<open>A statement whose failure the code only logs.\<close>

definition try_db :: "(database \<Rightarrow> store_error + database) \<Rightarrow> relay \<Rightarrow> relay" where
  "try_db f s = (case f (sv_db s) of Inl _ \<Rightarrow> s | Inr db \<Rightarrow> s\<lparr>sv_db := db\<rparr>)"

definition audit :: "relay_env \<Rightarrow> string \<Rightarrow> string \<Rightarrow> u32 \<Rightarrow> string \<Rightarrow> string \<Rightarrow> relay \<Rightarrow> relay" where
  "audit e actor did sid action detail =
     try_db (AppendAudit (re_wall e) \<lparr>ad_id = 0, ad_at = re_now e, ad_actor = actor, ad_device_id = did,
       ad_sid = sid, ad_action = action, ad_detail = detail\<rparr>)"

definition touchLastSeen :: "string \<Rightarrow> instant \<Rightarrow> string \<Rightarrow> string \<Rightarrow> relay \<Rightarrow> relay" where
  "touchLastSeen did at osName version = try_db (TouchDevice did at osName version)"

text \<open>The cached approval, or the row of the database, which then enters the cache.\<close>

definition cached_approval :: "string \<Rightarrow> relay \<Rightarrow> (approval \<times> relay) option" where
  "cached_approval key s = (case mget (sv_approvals s) key of
     Some a \<Rightarrow> Some (a, s)
   | None \<Rightarrow> (case GetApproval key (sv_db s) of
       Inl _ \<Rightarrow> None
     | Inr a \<Rightarrow> Some (a, s\<lparr>sv_approvals := mput key a (sv_approvals s)\<rparr>)))"

definition device_conn :: "string \<Rightarrow> relay \<Rightarrow> nat option" where
  "device_conn did s = Option.bind (mget (sv_devices s) did) ds_conn"

definition apply_decision ::
  "relay_env \<Rightarrow> string \<Rightarrow> string \<Rightarrow> string \<Rightarrow> string \<Rightarrow> string \<Rightarrow> string \<Rightarrow> nat \<Rightarrow> approval \<Rightarrow> relay \<Rightarrow> relay" where
  "apply_decision e key decision actor did req_id client_id n a s =
     (let status = (if decision = ''deny'' then ApprovalDenied else ApprovalAllowed);
          a = a\<lparr>ap_status := status, ap_decided_by := actor, ap_decided_at := Some (re_now e)\<rparr>;
          s = s\<lparr>sv_approvals := mput key a (sv_approvals s)\<rparr>;
          s = try_db (SetApprovalStatus key status actor (re_now e)) s;
          s = agent_sendMsg n ((Msg0 TApprovalDecide)\<lparr>m_req_id := req_id, m_device_id := did,
                m_client_id := client_id, m_sid := ap_sid a, m_key := key, m_decision := decision,
                m_by := actor\<rparr>) s;
          s = audit e actor did (ap_sid a) ''approval.decide''
                (decision @ '' '' @ ap_tool a @ '' '' @ ap_summary a) s
      in broadcast ((Msg0 TApprovalClosed)\<lparr>m_device_id := did, m_sid := ap_sid a, m_key := key,
           m_decision := decision, m_by := actor, m_approval := Some a\<rparr>) s)"

definition decideApproval ::
  "relay_env \<Rightarrow> string \<Rightarrow> string \<Rightarrow> string \<Rightarrow> string \<Rightarrow> string \<Rightarrow> string \<Rightarrow> relay \<Rightarrow> (api_error + unit) \<times> relay" where
  "decideApproval e key decision actor device_hint req_id client_id s =
     (if decision \<noteq> ''allow'' \<and> decision \<noteq> ''deny''
      then (Inl (errBadRequest ''decision must be allow or deny''), s)
      else case cached_approval key s of
        None \<Rightarrow> (Inl (errNotFound ''approval not found''), s)
      | Some (a, s) \<Rightarrow>
          if ap_status a \<noteq> ApprovalPending
          then (Inl (errConflict (''approval already '' @ approval_status_string (ap_status a))), s)
          else if ap_level a \<noteq> LevelHook
          then (Inl (errBadRequest (''approval level '' @ approval_level_string (ap_level a)
                  @ '' is answered in the terminal, not by decision'')), s)
          else
            let did = (if ap_device_id a = '''' then device_hint else ap_device_id a) in
            case device_conn did s of
              None \<Rightarrow> (Inl (errOffline ''device offline''), s)
            | Some n \<Rightarrow> (Inr (), apply_decision e key decision actor did req_id client_id n a s))"

definition revokeDevice :: "relay_env \<Rightarrow> string \<Rightarrow> string \<Rightarrow> relay \<Rightarrow> (api_error + unit) \<times> relay" where
  "revokeDevice e did actor s = (case RevokeDevice did (re_now e) (sv_db s) of
     Inl err \<Rightarrow> (Inl (ApiStore err), s)
   | Inr db \<Rightarrow>
       let s = s\<lparr>sv_db := db\<rparr>;
           conn = device_conn did s;
           s = (case mget (sv_devices s) did of
                  None \<Rightarrow> s
                | Some d \<Rightarrow> (let s = fold forgetSID (mkeys (ds_sessions d)) s
                            in s\<lparr>sv_devices := mdel did (sv_devices s)\<rparr>));
           s = (case conn of None \<Rightarrow> s | Some n \<Rightarrow> agent_closeNow n s);
           s = audit e actor did 0 ''device.revoke'' '''' s
       in (Inr (), broadcastDeviceList s))"

section \<open>Notifications\<close>

definition settingWebhookURL :: string where "settingWebhookURL = ''webhook_url''"

text \<open>The two titles are UTF-8 texts of the console's language.\<close>

definition confirm_title :: string where
  "confirm_title = map (\<lambda>w. char_of (unat (w :: byte)))
     [0xE9, 0x9C, 0x80, 0xE8, 0xA6, 0x81, 0xE4, 0xBD, 0xA0, 0xE7, 0xA1, 0xAE, 0xE8, 0xAE, 0xA4,
      0xEF, 0xBC, 0x9A]"

definition suspect_title :: string where
  "suspect_title = map (\<lambda>w. char_of (unat (w :: byte)))
     [0xE7, 0x96, 0x91, 0xE4, 0xBC, 0xBC, 0xE7, 0xAD, 0x89, 0xE5, 0xBE, 0x85, 0xE8, 0xBE, 0x93,
      0xE5, 0x85, 0xA5, 0xEF, 0xBC, 0x9A]"

definition webhook_payload_of :: "string \<Rightarrow> approval \<Rightarrow> string \<Rightarrow> string \<Rightarrow> webhook_payload" where
  "webhook_payload_of public_url a device_name session_name =
     (let dev = (if device_name = '''' then ap_device_id a else device_name);
          ses = (if session_name = '''' then ''sid:'' @ format_uint (unat (ap_sid a)) else session_name);
          base = trim_right (\<lambda>c. c = CHR ''/'') public_url
      in \<lparr>wp_title = (if ap_level a = LevelSuspect then suspect_title @ ses
                      else confirm_title @ ap_agent a @ '' '' @ ap_tool a),
          wp_body = ap_summary a @ (if ap_cwd a \<noteq> '''' then NL # ap_cwd a else ''''),
          wp_device = dev, wp_session = ses, wp_key = ap_key a,
          wp_url = (if base \<noteq> '''' then base @ ''/?approval='' @ ap_key a else '''')\<rparr>)"

definition notifyApproval :: "approval \<Rightarrow> string \<Rightarrow> string \<Rightarrow> relay \<Rightarrow> relay" where
  "notifyApproval a device_name session_name s =
     (case GetSetting settingWebhookURL (sv_db s) of
        Inl _ \<Rightarrow> s
      | Inr target \<Rightarrow>
          if target = '''' then s
          else s\<lparr>sv_posts := sv_posts s
            @ [(target, webhook_payload_of (rc_public_url (sv_cfg s)) a device_name session_name)]\<rparr>)"

text \<open>
  The goroutine that posts: \<open>replies\<close> are the outcomes of its attempts, a status or no answer at
  all; the result says whether one was accepted and how many were made. An address that makes no
  request ends it at once.
\<close>

definition webhook_attempts :: nat where "webhook_attempts = 3"

fun webhook_tries :: "nat \<Rightarrow> int option list \<Rightarrow> bool \<times> nat" where
  "webhook_tries 0 rs = (False, 0)"
| "webhook_tries (Suc k) [] = (False, 0)"
| "webhook_tries (Suc k) (r # rs) = (case r of
     Some st \<Rightarrow> if 200 \<le> st \<and> st < 300 then (True, 1) else (let (ok, n) = webhook_tries k rs in (ok, n + 1))
   | None \<Rightarrow> (let (ok, n) = webhook_tries k rs in (ok, n + 1)))"

definition webhook_post :: "bool \<Rightarrow> int option list \<Rightarrow> bool \<times> nat" where
  "webhook_post valid_url replies = (if valid_url then webhook_tries webhook_attempts replies else (False, 0))"

end
