(* ===== verification/RelayConns.thy ===== *)
theory RelayConns
  imports RelayHub
begin

text \<open>
  The two WebSocket endpoints of the relay: the agents' (\<^verbatim>\<open>internal/relay/ws_agent.go\<close>) and the
  console clients' (\<^verbatim>\<open>internal/relay/ws_client.go\<close>). A connection authenticates, is registered,
  reads until it is closed, and is then unregistered; each of these is an operation of its own,
  so that others may come in between. A text that is no JSON and a malformed frame are inputs
  like the others.
\<close>

section \<open>Agents: connecting\<close>

definition agent_auth :: "relay_env \<Rightarrow> http_request \<Rightarrow> relay \<Rightarrow> device option" where
  "agent_auth e r s = (case DeviceByTokenHash (hashToken (re_sha256 e) (bearerToken r)) (sv_db s) of
     Inl _ \<Rightarrow> None
   | Inr d \<Rightarrow> Some d)"

text \<open>A newer connection of the device replaces an older one, which is closed.\<close>

definition agent_register :: "relay_env \<Rightarrow> device \<Rightarrow> relay \<Rightarrow> relay" where
  "agent_register e dev s =
     (let n = sv_next s; did = dv_id dev;
          d = (case mget (sv_devices s) did of Some d \<Rightarrow> d | None \<Rightarrow> newDeviceState dev);
          old = ds_conn d;
          d = d\<lparr>ds_conn := Some n, ds_info := (ds_info d)\<lparr>di_online := True, di_last_seen := re_now e\<rparr>\<rparr>;
          s = s\<lparr>sv_next := n + 1,
                sv_agents := mput n \<lparr>ac_device_id = did, ac_wire = new_wire,
                  ac_last_heartbeat = re_now e, ac_rtt = 0\<rparr> (sv_agents s),
                sv_devices := mput did d (sv_devices s)\<rparr>;
          s = (case old of None \<Rightarrow> s | Some k \<Rightarrow> agent_closeNow k s)
      in broadcastDeviceState did s)"

text \<open>
  What follows the end of the read loop. Every client that is attached to a session of the
  device waits for a snapshot again, unless a newer connection has taken over.
\<close>

definition agent_unregister :: "nat \<Rightarrow> relay \<Rightarrow> relay" where
  "agent_unregister n s = (case mget (sv_agents s) n of
     None \<Rightarrow> s
   | Some a \<Rightarrow>
       let did = ac_device_id a;
           s = agent_closeNow n s;
           s = (case mget (sv_devices s) did of
                  None \<Rightarrow> s
                | Some d \<Rightarrow>
                    if ds_conn d \<noteq> Some n then s
                    else s\<lparr>sv_devices := mput did (d\<lparr>ds_conn := None,
                             ds_info := (ds_info d)\<lparr>di_online := False, di_rtt_ms := 0\<rparr>\<rparr>) (sv_devices s),
                           sv_attachments := mmap (\<lambda>sid atts.
                             if mget (sv_sid_owner s) sid = Some did then mmap (\<lambda>_ _. True) atts else atts)
                             (sv_attachments s)\<rparr>)
       in broadcastDeviceState did s)"

text \<open>A pong that was awaited, with the round trip in milliseconds.\<close>

definition agent_pong :: "nat \<Rightarrow> int \<Rightarrow> relay \<Rightarrow> relay" where
  "agent_pong n ms s = (case mget (sv_agents s) n of
     None \<Rightarrow> s
   | Some a \<Rightarrow>
       let s = s\<lparr>sv_agents := mput n (a\<lparr>ac_rtt := ms\<rparr>) (sv_agents s)\<rparr> in
       case mget (sv_devices s) (ac_device_id a) of
         None \<Rightarrow> s
       | Some d \<Rightarrow>
           if ds_conn d = Some n
           then s\<lparr>sv_devices := mput (ac_device_id a) (d\<lparr>ds_info := (ds_info d)\<lparr>di_rtt_ms := ms\<rparr>\<rparr>) (sv_devices s)\<rparr>
           else s)"

section \<open>Agents: control messages\<close>

definition set_device :: "string \<Rightarrow> device_state \<Rightarrow> relay \<Rightarrow> relay" where
  "set_device did d s = s\<lparr>sv_devices := mput did d (sv_devices s)\<rparr>"

definition set_heartbeat :: "nat \<Rightarrow> instant \<Rightarrow> relay \<Rightarrow> relay" where
  "set_heartbeat n now s = (case mget (sv_agents s) n of
     None \<Rightarrow> s
   | Some a \<Rightarrow> s\<lparr>sv_agents := mput n (a\<lparr>ac_last_heartbeat := now\<rparr>) (sv_agents s)\<rparr>)"

definition hello_session ::
  "string \<Rightarrow> session_info \<Rightarrow> (u32, session_info) gomap \<times> relay \<Rightarrow> (u32, session_info) gomap \<times> relay" where
  "hello_session did si p = (case p of (fresh, s) \<Rightarrow>
     (case registerSID (si_sid si) did s of
        (False, s) \<Rightarrow> (fresh, s)
      | (True, s) \<Rightarrow> (mput (si_sid si) (si\<lparr>si_device_id := did\<rparr>) fresh, s)))"

text \<open>The session set of the device becomes what the agent reports.\<close>

definition onAgentHello :: "relay_env \<Rightarrow> nat \<Rightarrow> string \<Rightarrow> msg \<Rightarrow> relay \<Rightarrow> relay" where
  "onAgentHello e n did m s = (case mget (sv_devices s) did of
     None \<Rightarrow> s
   | Some d \<Rightarrow>
       if ds_conn d \<noteq> Some n then s
       else
         let info = ds_info d;
             info = (if m_os m \<noteq> '''' then info\<lparr>di_os := m_os m\<rparr> else info);
             info = (if m_version m \<noteq> '''' then info\<lparr>di_agent_version := m_version m\<rparr> else info);
             info = info\<lparr>di_last_seen := re_now e\<rparr>;
             s = set_heartbeat n (re_now e) s;
             (fresh, s) = fold (hello_session did) (m_sessions m) ([], s);
             s = fold forgetSID (filter (\<lambda>sid. sid \<notin> set (mkeys fresh)) (mkeys (ds_sessions d))) s;
             s = set_device did (d\<lparr>ds_info := info, ds_sessions := fresh\<rparr>) s;
             s = touchLastSeen did (re_now e) (m_os m) (m_version m) s;
             s = agent_sendMsg n ((Msg0 TAck)\<lparr>m_req_id := m_req_id m, m_device_id := did\<rparr>) s;
             s = broadcastDeviceState did s
         in broadcastSessionList did s)"

definition apply_health :: "session_health \<Rightarrow> (u32, session_info) gomap \<Rightarrow> (u32, session_info) gomap" where
  "apply_health h m = (case mget m (sh_sid h) of
     None \<Rightarrow> m
   | Some si \<Rightarrow> mput (sh_sid h) (si\<lparr>
       si_pty_alive := sh_pty_alive h,
       si_last_output_at := (if is_zero_time (sh_last_output_at h) then si_last_output_at si else sh_last_output_at h),
       si_seq := (if sh_seq h > si_seq si then sh_seq h else si_seq si)\<rparr>) m)"

text \<open>\<open>raw\<close> is the message as it was received, which goes back to the agent.\<close>

definition onHeartbeat :: "relay_env \<Rightarrow> nat \<Rightarrow> string \<Rightarrow> msg \<Rightarrow> msg \<Rightarrow> relay \<Rightarrow> relay" where
  "onHeartbeat e n did m raw s = (case mget (sv_devices s) did of
     None \<Rightarrow> s
   | Some d \<Rightarrow>
       if ds_conn d \<noteq> Some n then s
       else
         let s = set_heartbeat n (re_now e) s;
             info = (ds_info d)\<lparr>di_last_seen := re_now e\<rparr>;
             d' = (case m_heartbeat m of
                     None \<Rightarrow> d\<lparr>ds_info := info\<rparr>
                   | Some hb \<Rightarrow> d\<lparr>ds_info := (if hb_power hb \<noteq> '''' then info\<lparr>di_power := hb_power hb\<rparr> else info),
                       ds_sessions := fold apply_health (hb_sessions hb) (ds_sessions d)\<rparr>);
             s = set_device did d' s;
             s = agent_push n (RText raw) s;
             s = touchLastSeen did (re_now e) '''' '''' s
         in broadcastDeviceState did s)"

definition unknown_session :: "u32 \<Rightarrow> session_info" where
  "unknown_session sid =
     \<lparr>si_sid = sid, si_device_id = '''', si_name = '''', si_tool = '''', si_shell = '''', si_cwd = '''',
      si_preset = '''', si_permission_mode = '''', si_approval_mode = ModeOther '''', si_state = StateUnknown,
      si_kind = NeedOther '''', si_source = SourceOther '''', si_confidence = ConfidenceOther '''',
      si_started_at = 0, si_last_output_at = 0, si_cols = 0, si_rows = 0, si_seq = 0, si_cost_usd = None,
      si_context_pct = None, si_exit_code = None, si_resumable = None, si_pty_alive = False\<rparr>"

definition onSessionUpsert :: "nat \<Rightarrow> string \<Rightarrow> msg \<Rightarrow> relay \<Rightarrow> relay" where
  "onSessionUpsert n did m s =
     (if m_session m = None \<and> m_sid m = 0 then s
      else
        let si = (case m_session m of Some si \<Rightarrow> si | None \<Rightarrow> unknown_session (m_sid m));
            si = si\<lparr>si_device_id := did\<rparr>
        in case mget (sv_devices s) did of
             None \<Rightarrow> s
           | Some d \<Rightarrow>
               (case registerSID (si_sid si) did s of
                  (False, s) \<Rightarrow> agent_sendMsg n ((Msg0 TError)\<lparr>m_req_id := m_req_id m, m_client_id := m_client_id m,
                      m_sid := si_sid si, m_error := ''sid already in use by another device''\<rparr>) s
                | (True, s) \<Rightarrow>
                    broadcast (m\<lparr>m_sid := si_sid si, m_session := Some si\<rparr>)
                      (set_device did (d\<lparr>ds_sessions := mput (si_sid si) si (ds_sessions d)\<rparr>) s)))"

definition set_session_state :: "string \<Rightarrow> msg \<Rightarrow> session_info \<Rightarrow> session_info" where
  "set_session_state did m si =
     (case m_session m of
        Some cp \<Rightarrow> cp\<lparr>si_device_id := did\<rparr>
      | None \<Rightarrow> si\<lparr>
          si_state := (if m_state m = StateOther '''' then si_state si else m_state m),
          si_kind := m_kind m,
          si_source := (if m_source m = SourceOther '''' then si_source si else m_source m),
          si_confidence := (if m_confidence m = ConfidenceOther '''' then si_confidence si else m_confidence m)\<rparr>)"

text \<open>An update of the record of one session in the device's table, if both are there.\<close>

definition update_session :: "string \<Rightarrow> u32 \<Rightarrow> (session_info \<Rightarrow> session_info) \<Rightarrow> relay \<Rightarrow> relay" where
  "update_session did sid f s = (case mget (sv_devices s) did of
     None \<Rightarrow> s
   | Some d \<Rightarrow> (case mget (ds_sessions d) sid of
       None \<Rightarrow> s
     | Some si \<Rightarrow> set_device did (d\<lparr>ds_sessions := mput sid (f si) (ds_sessions d)\<rparr>) s))"

definition onSessionState :: "string \<Rightarrow> msg \<Rightarrow> relay \<Rightarrow> relay" where
  "onSessionState did m s = broadcast m (update_session did (m_sid m) (set_session_state did m) s)"

definition onSessionExited :: "string \<Rightarrow> msg \<Rightarrow> relay \<Rightarrow> relay" where
  "onSessionExited did m s = broadcast m (update_session did (m_sid m) (\<lambda>si. si\<lparr>si_state := StateExited,
     si_pty_alive := False, si_exit_code := m_code m, si_resumable := m_resumable m\<rparr>) s)"

definition onSessionClosed :: "string \<Rightarrow> msg \<Rightarrow> relay \<Rightarrow> relay" where
  "onSessionClosed did m s =
     (let s = (case mget (sv_devices s) did of
                 None \<Rightarrow> s
               | Some d \<Rightarrow> set_device did (d\<lparr>ds_sessions := mdel (m_sid m) (ds_sessions d)\<rparr>) s);
          s = (if mget (sv_sid_owner s) (m_sid m) = Some did then forgetSID (m_sid m) s else s)
      in broadcast m s)"

definition onApprovalNew :: "relay_env \<Rightarrow> string \<Rightarrow> msg \<Rightarrow> relay \<Rightarrow> relay" where
  "onApprovalNew e did m s = (case m_approval m of
     None \<Rightarrow> s
   | Some ap \<Rightarrow>
       if ap_key ap = '''' then s
       else
         let ap = ap\<lparr>ap_device_id := did,
               ap_status := (if ap_status ap = StatusOther '''' then ApprovalPending else ap_status ap),
               ap_created_at := (if is_zero_time (ap_created_at ap) then re_now e else ap_created_at ap),
               ap_sid := (if ap_sid ap = 0 then m_sid m else ap_sid ap)\<rparr>;
             s = s\<lparr>sv_approvals := mput (ap_key ap) ap (sv_approvals s)\<rparr>;
             d = mget (sv_devices s) did;
             device_name = (case d of None \<Rightarrow> '''' | Some d \<Rightarrow> di_name (ds_info d));
             session_name = (case Option.bind d (\<lambda>d. mget (ds_sessions d) (ap_sid ap)) of
                               None \<Rightarrow> '''' | Some si \<Rightarrow> si_name si);
             s = try_db (UpsertApproval ap) s;
             s = broadcast (m\<lparr>m_approval := Some ap, m_sid := ap_sid ap\<rparr>) s
         in if ap_status ap = ApprovalPending then notifyApproval ap device_name session_name s else s)"

text \<open>\<^verbatim>\<open>SetApprovalStatus\<close> is only executed when the cached approval was pending.\<close>

definition onApprovalClosed :: "relay_env \<Rightarrow> msg \<Rightarrow> relay \<Rightarrow> relay" where
  "onApprovalClosed e m s =
     (if m_key m = '''' then s
      else
        let who = (if m_by m = '''' then ''local'' else m_by m) in
        case mget (sv_approvals s) (m_key m) of
          None \<Rightarrow> broadcast (m\<lparr>m_approval := None\<rparr>) s
        | Some ap \<Rightarrow>
            let changed = (ap_status ap = ApprovalPending);
                ap = (if changed
                  then ap\<lparr>ap_status := (if m_decision m = ''fallback'' then ApprovalFallback else ApprovalClosedLocal),
                          ap_decided_by := who, ap_decided_at := Some (re_now e)\<rparr>
                  else ap);
                s = s\<lparr>sv_approvals := mput (m_key m) ap (sv_approvals s)\<rparr>;
                s = (if changed then try_db (SetApprovalStatus (m_key m) (ap_status ap) who (re_now e)) s else s)
            in broadcast (m\<lparr>m_sid := ap_sid ap, m_approval := Some ap\<rparr>) s)"

definition handleAgentMsg :: "relay_env \<Rightarrow> nat \<Rightarrow> string \<Rightarrow> msg \<Rightarrow> relay \<Rightarrow> relay" where
  "handleAgentMsg e n did raw s =
     (let m = raw\<lparr>m_device_id := did\<rparr> in
      case m_t m of
        TAgentHello \<Rightarrow> onAgentHello e n did m s
      | THeartbeat \<Rightarrow> onHeartbeat e n did m raw s
      | TSessionOpened \<Rightarrow> onSessionUpsert n did m s
      | TSessionUpdated \<Rightarrow> onSessionUpsert n did m s
      | TSessionState \<Rightarrow> onSessionState did m s
      | TSessionExited \<Rightarrow> onSessionExited did m s
      | TSessionClosed \<Rightarrow> onSessionClosed did m s
      | TApprovalNew \<Rightarrow> onApprovalNew e did m s
      | TApprovalClosed \<Rightarrow> onApprovalClosed e m s
      | t \<Rightarrow>
          if (t = TAck \<or> t = TError) \<and> m_client_id m \<noteq> ''''
          then (case mget (sv_clients s) (m_client_id m) of None \<Rightarrow> s | Some c \<Rightarrow> client_sendMsg c m s)
          else broadcast m s)"

section \<open>Agents: data frames\<close>

text \<open>
  Which of the attached clients get a frame, by its type and by whether they wait for a
  snapshot, and what the frame leaves of their waiting.
\<close>

definition frame_reaches :: "frame_type \<Rightarrow> bool \<Rightarrow> bool" where
  "frame_reaches t pending =
     (if t = FrameSnapshot then pending else if t = FrameOutput then \<not> pending else True)"

definition routeAgentFrame :: "string \<Rightarrow> byte list \<Rightarrow> relay \<Rightarrow> bool \<times> relay" where
  "routeAgentFrame did data s = (case PeekHeader data of
     Inl _ \<Rightarrow> (False, s)
   | Inr (t, sid) \<Rightarrow>
       let flags = data ! 2 in
       if mget (sv_sid_owner s) sid \<noteq> Some did then (True, s)
       else case mget (sv_attachments s) sid of
         None \<Rightarrow> (True, s)
       | Some atts \<Rightarrow>
           let targets = concat (map (\<lambda>(cid, pending). case mget (sv_clients s) cid of
                  None \<Rightarrow> []
                | Some c \<Rightarrow> if frame_reaches t pending then [c] else []) atts);
               atts' = mmap (\<lambda>cid pending.
                  if mget (sv_clients s) cid \<noteq> None \<and> t = FrameSnapshot \<and> pending \<and> flags AND FlagMore = 0
                  then False else pending) atts;
               s = s\<lparr>sv_attachments := mput sid atts' (sv_attachments s)\<rparr>
           in (True, fold (\<lambda>c. client_push c (RBinary data)) targets s))"

text \<open>What a connection reads.\<close>

datatype wire_input = InText msg | InBadText string | InBinary "byte list"

text \<open>A turn of the agent's read loop. A closed connection reads nothing more.\<close>

definition agent_read :: "relay_env \<Rightarrow> nat \<Rightarrow> wire_input \<Rightarrow> relay \<Rightarrow> relay" where
  "agent_read e n x s = (case mget (sv_agents s) n of
     None \<Rightarrow> s
   | Some a \<Rightarrow>
       if wi_closed (ac_wire a) then s
       else case x of
         InText m \<Rightarrow> handleAgentMsg e n (ac_device_id a) m s
       | InBadText _ \<Rightarrow> s
       | InBinary data \<Rightarrow>
           (case routeAgentFrame (ac_device_id a) data s of (ok, s) \<Rightarrow> if ok then s else agent_closeNow n s))"

section \<open>Clients: connecting\<close>

definition client_login :: "relay_env \<Rightarrow> http_request \<Rightarrow> relay \<Rightarrow> login_session option \<times> relay" where
  "client_login e r s = (case rq_cookie r of
     None \<Rightarrow> (None, s)
   | Some tok \<Rightarrow> (case login_get (re_now e) tok (sv_logins s) of (ls, l) \<Rightarrow> (ls, s\<lparr>sv_logins := l\<rparr>)))"

text \<open>\<open>raw_id\<close> is the four random bytes of the client's name.\<close>

definition client_register :: "byte list \<Rightarrow> login_session \<Rightarrow> relay \<Rightarrow> relay" where
  "client_register raw_id ls s =
     (let n = sv_next s; cid = randomID ''c-'' raw_id;
          devices = deviceList s;
          lists = map (\<lambda>(did, d). (Msg0 TSessionList)\<lparr>m_device_id := did, m_sessions := sessionList d\<rparr>) (sv_devices s);
          pending = pendingApprovals s;
          s = s\<lparr>sv_next := n + 1,
                sv_cobjs := mput n \<lparr>cc_id = cid, cc_login_id = ls_id ls, cc_wire = new_wire, cc_attached = []\<rparr>
                  (sv_cobjs s),
                sv_clients := mput cid n (sv_clients s)\<rparr>;
          s = client_sendMsg n ((Msg0 TDeviceList)\<lparr>m_client_id := cid, m_devices := devices\<rparr>) s;
          s = fold (client_sendMsg n) lists s
      in client_sendMsg n ((Msg0 TApprovalList)\<lparr>m_approvals := pending\<rparr>) s)"

definition drop_attachment :: "string \<Rightarrow> u32 \<Rightarrow> relay \<Rightarrow> relay" where
  "drop_attachment cid sid s = (case mget (sv_attachments s) sid of
     None \<Rightarrow> s
   | Some atts \<Rightarrow>
       let atts = mdel cid atts in
       s\<lparr>sv_attachments := (if atts = [] then mdel sid (sv_attachments s) else mput sid atts (sv_attachments s))\<rparr>)"

definition client_unregister :: "nat \<Rightarrow> relay \<Rightarrow> relay" where
  "client_unregister n s = (case mget (sv_cobjs s) n of
     None \<Rightarrow> s
   | Some c \<Rightarrow>
       let s = client_closeNow n s;
           s = s\<lparr>sv_clients := mdel (cc_id c) (sv_clients s)\<rparr>
       in fold (drop_attachment (cc_id c)) (mkeys (cc_attached c)) s)"

section \<open>Clients: messages and frames\<close>

text \<open>The message with its device filled in, and the connection of that device.\<close>

definition agentFor :: "msg \<Rightarrow> relay \<Rightarrow> msg \<times> nat option" where
  "agentFor m s =
     (let m = (if m_device_id m = '''' \<and> m_sid m \<noteq> 0
               then m\<lparr>m_device_id := (case mget (sv_sid_owner s) (m_sid m) of None \<Rightarrow> '''' | Some d \<Rightarrow> d)\<rparr> else m)
      in (m, device_conn (m_device_id m) s))"

definition set_attached :: "nat \<Rightarrow> ((u32, bool) gomap \<Rightarrow> (u32, bool) gomap) \<Rightarrow> relay \<Rightarrow> relay" where
  "set_attached n f s = (case mget (sv_cobjs s) n of
     None \<Rightarrow> s
   | Some c \<Rightarrow> s\<lparr>sv_cobjs := mput n (c\<lparr>cc_attached := f (cc_attached c)\<rparr>) (sv_cobjs s)\<rparr>)"

definition onAttach :: "nat \<Rightarrow> string \<Rightarrow> msg \<Rightarrow> relay \<Rightarrow> relay" where
  "onAttach n cid m s = (case agentFor m s of
     (m, None) \<Rightarrow> client_sendError n (m_req_id m) (m_device_id m) (m_sid m) ''device offline'' s
   | (m, Some k) \<Rightarrow>
       if (case mget (sv_sid_owner s) (m_sid m) of None \<Rightarrow> '''' | Some d \<Rightarrow> d) \<noteq> m_device_id m
       then client_sendError n (m_req_id m) (m_device_id m) (m_sid m) ''unknown session'' s
       else
         let atts = (case mget (sv_attachments s) (m_sid m) of None \<Rightarrow> [] | Some atts \<Rightarrow> atts);
             s = s\<lparr>sv_attachments := mput (m_sid m) (mput cid True atts) (sv_attachments s)\<rparr>;
             s = set_attached n (mput (m_sid m) True) s
         in agent_sendMsg k m s)"

definition onDetach :: "nat \<Rightarrow> string \<Rightarrow> msg \<Rightarrow> relay \<Rightarrow> relay" where
  "onDetach n cid m s =
     (let m = (if m_device_id m = ''''
               then m\<lparr>m_device_id := (case mget (sv_sid_owner s) (m_sid m) of None \<Rightarrow> '''' | Some d \<Rightarrow> d)\<rparr> else m);
          s = set_attached n (mdel (m_sid m)) s;
          s = drop_attachment cid (m_sid m) s;
          s = (case device_conn (m_device_id m) s of None \<Rightarrow> s | Some k \<Rightarrow> agent_sendMsg k m s)
      in client_sendMsg n ((Msg0 TAck)\<lparr>m_req_id := m_req_id m, m_device_id := m_device_id m, m_sid := m_sid m\<rparr>) s)"

definition signal_string :: "signal \<Rightarrow> string" where
  "signal_string = enum_string signals (\<lambda>t. case t of SigOther s \<Rightarrow> s | _ \<Rightarrow> '''')"

definition open_detail :: "msg \<Rightarrow> string" where
  "open_detail m = (case m_open m of
     None \<Rightarrow> ''''
   | Some r \<Rightarrow> or_tool r @ '' '' @ or_shell r @ '' '' @ or_cwd r)"

definition onForward :: "relay_env \<Rightarrow> nat \<Rightarrow> string \<Rightarrow> msg \<Rightarrow> relay \<Rightarrow> relay" where
  "onForward e n actor m s = (case agentFor m s of
     (m, None) \<Rightarrow> client_sendError n (m_req_id m) (m_device_id m) (m_sid m) ''device offline'' s
   | (m, Some k) \<Rightarrow>
       let s = agent_sendMsg k m s in
       case m_t m of
         TSessionOpen \<Rightarrow> audit e actor (m_device_id m) 0 ''session.open'' (open_detail m) s
       | TSessionClose \<Rightarrow> audit e actor (m_device_id m) (m_sid m) ''session.close'' '''' s
       | TSessionSignal \<Rightarrow> audit e actor (m_device_id m) (m_sid m) ''session.signal'' (signal_string (m_sig m)) s
       | _ \<Rightarrow> s)"

text \<open>
  The text of an error that the approval handler returns; \<^verbatim>\<open>store: not found\<close> is the store's own
  error, which that handler never passes on; the wording of a database failure is not modelled.
\<close>

definition api_error_text :: "api_error \<Rightarrow> string" where
  "api_error_text err = (case err of
     ApiError st text \<Rightarrow> text
   | ApiStore ErrNotFound \<Rightarrow> ''store: not found''
   | ApiStore StoreFailed \<Rightarrow> ''store: failed'')"

definition onDecide :: "relay_env \<Rightarrow> nat \<Rightarrow> string \<Rightarrow> string \<Rightarrow> msg \<Rightarrow> relay \<Rightarrow> relay" where
  "onDecide e n cid actor m s =
     (case decideApproval e (m_key m) (m_decision m) actor (m_device_id m) (m_req_id m) cid s of
        (Inl err, s) \<Rightarrow> client_sendError n (m_req_id m) (m_device_id m) (m_sid m) (api_error_text err) s
      | (Inr _, s) \<Rightarrow> client_sendMsg n ((Msg0 TAck)\<lparr>m_req_id := m_req_id m, m_key := m_key m,
          m_decision := m_decision m\<rparr>) s)"

definition handleClientMsg :: "relay_env \<Rightarrow> nat \<Rightarrow> string \<Rightarrow> msg \<Rightarrow> relay \<Rightarrow> relay" where
  "handleClientMsg e n cid raw s =
     (let m = raw\<lparr>m_client_id := cid\<rparr>; actor = ''web:'' @ cid in
      case m_t m of
        TClientHello \<Rightarrow> client_sendMsg n ((Msg0 TAck)\<lparr>m_req_id := m_req_id m, m_client_id := cid\<rparr>) s
      | TSessionAttach \<Rightarrow> onAttach n cid m s
      | TSessionDetach \<Rightarrow> onDetach n cid m s
      | TSessionOpen \<Rightarrow> onForward e n actor m s
      | TSessionResize \<Rightarrow> onForward e n actor m s
      | TSessionSignal \<Rightarrow> onForward e n actor m s
      | TSessionClose \<Rightarrow> onForward e n actor m s
      | TSessionSetMode \<Rightarrow> onForward e n actor m s
      | TApprovalDecide \<Rightarrow> onDecide e n cid actor m s
      | t \<Rightarrow> client_sendError n (m_req_id m) (m_device_id m) (m_sid m)
             (''unknown message type '' @ msg_type_string t) s)"

definition routeClientFrame :: "nat \<Rightarrow> byte list \<Rightarrow> relay \<Rightarrow> bool \<times> relay" where
  "routeClientFrame n data s = (case PeekHeader data of
     Inl _ \<Rightarrow> (False, s)
   | Inr (t, sid) \<Rightarrow>
       if t \<noteq> FrameInput \<and> t \<noteq> FrameResize \<and> t \<noteq> FrameAck then (True, s)
       else
         let attached = (case mget (sv_cobjs s) n of None \<Rightarrow> False | Some c \<Rightarrow> mget (cc_attached c) sid = Some True);
             owner = (case mget (sv_sid_owner s) sid of None \<Rightarrow> '''' | Some d \<Rightarrow> d)
         in case (if attached then device_conn owner s else None) of
              None \<Rightarrow> (True, s)
            | Some k \<Rightarrow> (True, agent_push k (RBinary data) s))"

text \<open>A turn of the client's read loop.\<close>

definition client_read :: "relay_env \<Rightarrow> nat \<Rightarrow> wire_input \<Rightarrow> relay \<Rightarrow> relay" where
  "client_read e n x s = (case mget (sv_cobjs s) n of
     None \<Rightarrow> s
   | Some c \<Rightarrow>
       if wi_closed (cc_wire c) then s
       else case x of
         InText m \<Rightarrow> handleClientMsg e n (cc_id c) m s
       | InBadText err \<Rightarrow> client_sendError n '''' '''' 0 (''bad json: '' @ err) s
       | InBinary data \<Rightarrow>
           (case routeClientFrame n data s of (ok, s) \<Rightarrow> if ok then s else client_closeNow n s))"

section \<open>Write loops, sweeping, shutdown\<close>

definition agent_write :: "nat \<Rightarrow> bool \<Rightarrow> relay \<Rightarrow> relay" where
  "agent_write n ok s = (case mget (sv_agents s) n of
     None \<Rightarrow> s
   | Some a \<Rightarrow> s\<lparr>sv_agents := mput n (a\<lparr>ac_wire := wire_write ok (ac_wire a)\<rparr>) (sv_agents s)\<rparr>)"

definition client_write :: "nat \<Rightarrow> bool \<Rightarrow> relay \<Rightarrow> relay" where
  "client_write n ok s = (case mget (sv_cobjs s) n of
     None \<Rightarrow> s
   | Some c \<Rightarrow> s\<lparr>sv_cobjs := mput n (c\<lparr>cc_wire := wire_write ok (cc_wire c)\<rparr>) (sv_cobjs s)\<rparr>)"

definition stale_conns :: "instant \<Rightarrow> relay \<Rightarrow> nat list" where
  "stale_conns now s = concat (map (\<lambda>d. case ds_conn d of
     None \<Rightarrow> []
   | Some n \<Rightarrow> (case mget (sv_agents s) n of
       None \<Rightarrow> []
     | Some a \<Rightarrow> if time_sub now (ac_last_heartbeat a) > rc_heartbeat_timeout (sv_cfg s) then [n] else []))
     (mvals (sv_devices s)))"

definition sweepOnce :: "instant \<Rightarrow> relay \<Rightarrow> relay" where
  "sweepOnce now s = fold agent_closeNow (stale_conns now s) s"

definition Close_server :: "relay \<Rightarrow> relay" where
  "Close_server s =
     fold client_closeNow (mvals (sv_clients s))
       (fold agent_closeNow (List.map_filter ds_conn (mvals (sv_devices s))) s)"

end
