(* ===== verification/RelayApi.thy ===== *)
theory RelayApi
  imports RelayConns
begin

text \<open>
  Starting the relay from its store (\<^verbatim>\<open>New\<close>, \<^verbatim>\<open>loadState\<close> in \<^verbatim>\<open>internal/relay/server.go\<close>) and its
  HTTP interface (\<^verbatim>\<open>internal/relay/api.go\<close>): login, pairing, devices, approvals, audit and the
  webhook setting. A handler takes the request and its decoded body and returns a response; the
  JSON text of the body and of the response is not modelled.
\<close>

section \<open>Starting\<close>

definition loadState :: "relay \<Rightarrow> store_error + relay" where
  "loadState s = (case ListDevices (sv_db s) of
     Inl err \<Rightarrow> Inl err
   | Inr devs \<Rightarrow>
       let s = s\<lparr>sv_devices := fold (\<lambda>d. mput (dv_id d) (newDeviceState d)) devs (sv_devices s)\<rparr> in
       case ListApprovals True 0 (sv_db s) of
         Inl err \<Rightarrow> Inl err
       | Inr pend \<Rightarrow> Inr (s\<lparr>sv_approvals := fold (\<lambda>a. mput (ap_key a) a) pend (sv_approvals s)\<rparr>))"

datatype new_error = NoPassword | LoadFailed store_error

definition New :: "relay_config \<Rightarrow> database \<Rightarrow> new_error + relay" where
  "New cfg db =
     (let cfg = config_defaults cfg in
      if rc_admin_password cfg = '''' then Inl NoPassword
      else case loadState \<lparr>sv_cfg = cfg, sv_db = db, sv_logins = newLoginSessions (rc_session_ttl cfg),
              sv_limiter = newLockout (rc_lockout_after cfg) (rc_lockout_for cfg), sv_devices = [],
              sv_clients = [], sv_sid_owner = [], sv_attachments = [], sv_approvals = [],
              sv_agents = [], sv_cobjs = [], sv_next = 0, sv_posts = []\<rparr> of
            Inl err \<Rightarrow> Inl (LoadFailed err)
          | Inr s \<Rightarrow> Inr s)"

section \<open>Responses\<close>

datatype api_body =
    BError string
  | BHealth nat nat
  | BLogin bool string instant
  | BOk
  | BCode string instant
  | BPaired string string string string
  | BDevices "device_info list"
  | BDevice device_info
  | BApprovals "approval list"
  | BDecided string string
  | BAudit "audit_entry list"
  | BUrl string

text \<open>
  The cookie that a response sets: its value, its age in seconds and the \<^verbatim>\<open>Secure\<close> flag. A
  handler that dereferences a missing login session panics; the server then drops the request.
\<close>

record api_response =
  rs_status :: nat
  rs_body :: api_body
  rs_cookie :: "(string \<times> int \<times> bool) option"

datatype reply = Reply api_response | Panic

definition writeJSON :: "nat \<Rightarrow> api_body \<Rightarrow> reply" where
  "writeJSON status body = Reply \<lparr>rs_status = status, rs_body = body, rs_cookie = None\<rparr>"

definition writeError :: "nat \<Rightarrow> string \<Rightarrow> reply" where
  "writeError status text = writeJSON status (BError text)"

definition writeErr :: "api_error \<Rightarrow> reply" where
  "writeErr err = (case err of
     ApiError st text \<Rightarrow> writeError st text
   | ApiStore ErrNotFound \<Rightarrow> writeError 404 ''not found''
   | ApiStore StoreFailed \<Rightarrow> writeError 500 (api_error_text err))"

text \<open>The body is its decoded value, or the text of the error in it.\<close>

definition with_body :: "string + 'a \<Rightarrow> ('a \<Rightarrow> reply \<times> relay) \<Rightarrow> relay \<Rightarrow> reply \<times> relay" where
  "with_body body f s = (case body of Inl text \<Rightarrow> (writeErr (errBadRequest text), s) | Inr v \<Rightarrow> f v)"

text \<open>
  \<^verbatim>\<open>strings.EqualFold\<close> with an ASCII text: beside the case of its letters, the long s and the
  Kelvin sign fold to s and k.
\<close>

definition fold_ascii :: "string \<Rightarrow> string" where
  "fold_ascii s = concat (map (\<lambda>r.
     if r = [CHR 0xC5, CHR 0xBF] then ''s'' else if r = [CHR 0xE2, CHR 0x84, CHR 0xAA] then ''k''
     else map lower_char r) (utf8_runes s))"

definition isHTTPS :: "http_request \<Rightarrow> bool" where
  "isHTTPS r \<longleftrightarrow> rq_tls r \<or> fold_ascii (rq_forwarded_proto r) = ''https''"

definition setSessionCookie :: "http_request \<Rightarrow> string \<Rightarrow> int \<Rightarrow> reply \<Rightarrow> reply" where
  "setSessionCookie r tok max_age rep = (case rep of
     Panic \<Rightarrow> Panic
   | Reply x \<Rightarrow> Reply (x\<lparr>rs_cookie := Some (tok, max_age, isHTTPS r)\<rparr>))"

definition requireLogin ::
  "relay_env \<Rightarrow> http_request \<Rightarrow> (relay \<Rightarrow> reply \<times> relay) \<Rightarrow> relay \<Rightarrow> reply \<times> relay" where
  "requireLogin e r next s = (case client_login e r s of
     (None, s) \<Rightarrow> (writeError 401 ''not authenticated'', s)
   | (Some _, s) \<Rightarrow> next s)"

text \<open>\<^verbatim>\<open>"web:" + s.sessionFromRequest(r).ID\<close>, which has no value without a session.\<close>

definition web_actor :: "relay_env \<Rightarrow> http_request \<Rightarrow> relay \<Rightarrow> string option" where
  "web_actor e r s = map_option (\<lambda>ls. ''web:'' @ ls_id ls) (fst (client_login e r s))"

definition handleHealth :: "relay \<Rightarrow> reply \<times> relay" where
  "handleHealth s = (writeJSON 200
     (BHealth (length (filter (\<lambda>d. ds_conn d \<noteq> None) (mvals (sv_devices s)))) (length (sv_clients s))), s)"

section \<open>Login\<close>

definition limiter_locked :: "instant \<Rightarrow> string \<Rightarrow> relay \<Rightarrow> bool \<times> relay" where
  "limiter_locked now key s = (case locked now key (sv_limiter s) of (b, l) \<Rightarrow> (b, s\<lparr>sv_limiter := l\<rparr>))"

definition limiter_fail :: "instant \<Rightarrow> string \<Rightarrow> relay \<Rightarrow> relay" where
  "limiter_fail now key s = s\<lparr>sv_limiter := snd (lock_fail now key (sv_limiter s))\<rparr>"

definition limiter_reset :: "string \<Rightarrow> relay \<Rightarrow> relay" where
  "limiter_reset key s = s\<lparr>sv_limiter := lock_reset key (sv_limiter s)\<rparr>"

definition handleLogin :: "relay_env \<Rightarrow> http_request \<Rightarrow> string + string \<Rightarrow> relay \<Rightarrow> reply \<times> relay" where
  "handleLogin e r body s = with_body body (\<lambda>pw.
     let ip = clientIP r; key = ''login:'' @ ip in
     case limiter_locked (re_now e) key s of
       (True, s) \<Rightarrow> (writeError 429 ''too many failed logins, try again later'', s)
     | (False, s) \<Rightarrow>
         if \<not> passwordOK (re_sha256 e) (rc_admin_password (sv_cfg s)) pw
         then
           let s = limiter_fail (re_now e) key s;
               s = audit e (''anon:'' @ ip) '''' 0 ''login.failed'' '''' s
           in (writeError 401 ''wrong password'', s)
         else
           let s = limiter_reset key s;
               (tok, ls, l) = login_create (re_now e) (re_raw e) (re_raw_id e) (sv_logins s);
               s = s\<lparr>sv_logins := l\<rparr>;
               s = audit e (''web:'' @ ls_id ls) '''' 0 ''login'' ip s
           in (setSessionCookie r tok (rc_session_ttl (sv_cfg s) div second)
                 (writeJSON 200 (BLogin True (ls_id ls) (ls_expires_at ls))), s)) s"

definition handleLogout :: "relay_env \<Rightarrow> http_request \<Rightarrow> relay \<Rightarrow> reply \<times> relay" where
  "handleLogout e r s =
     (let s = (case rq_cookie r of
            None \<Rightarrow> s
          | Some tok \<Rightarrow>
              let (ls, s) = client_login e r s;
                  s = (case ls of None \<Rightarrow> s | Some ls \<Rightarrow> audit e (''web:'' @ ls_id ls) '''' 0 ''logout'' '''' s)
              in s\<lparr>sv_logins := login_revoke tok (sv_logins s)\<rparr>)
      in (setSessionCookie r '''' (- 1) (writeJSON 200 BOk), s))"

definition handleMe :: "relay_env \<Rightarrow> http_request \<Rightarrow> relay \<Rightarrow> reply \<times> relay" where
  "handleMe e r s = (case client_login e r s of
     (None, s) \<Rightarrow> (writeJSON 200 (BLogin False '''' 0), s)
   | (Some ls, s) \<Rightarrow> (writeJSON 200 (BLogin True (ls_id ls) (ls_expires_at ls)), s))"

section \<open>Pairing\<close>

text \<open>At most five codes are tried; the last error is the answer.\<close>

fun try_codes :: "(string \<Rightarrow> pair_code) \<Rightarrow> string list \<Rightarrow> relay \<Rightarrow> (store_error + string) \<times> relay" where
  "try_codes mk [] s = (Inr '''', s)"
| "try_codes mk (c # cs) s = (case CreatePairCode (mk c) (sv_db s) of
     Inr db \<Rightarrow> (Inr c, s\<lparr>sv_db := db\<rparr>)
   | Inl err \<Rightarrow> if cs = [] then (Inl err, s) else try_codes mk cs s)"

definition handlePairNew :: "relay_env \<Rightarrow> http_request \<Rightarrow> relay \<Rightarrow> reply \<times> relay" where
  "handlePairNew e r s =
     (let actor = web_actor e r s;
          now = re_now e;
          expires = now + rc_pair_code_ttl (sv_cfg s);
          s = try_db (PurgePairCodes (now - 24 * hour)) s
      in case try_codes (\<lambda>c. \<lparr>pc_code = c, pc_created_at = now, pc_expires_at = expires,
                pc_used_at = None, pc_attempts = 0\<rparr>) (map newPairCode (re_codes e)) s of
           (Inl err, s) \<Rightarrow> (writeErr (ApiStore err), s)
         | (Inr code, s) \<Rightarrow> (case actor of
               None \<Rightarrow> (Panic, s)
             | Some who \<Rightarrow> (writeJSON 200 (BCode code expires), audit e who '''' 0 ''pair.new'' '''' s)))"

record redeem_request =
  rd_code :: string
  rd_name :: string
  rd_os :: string
  rd_agent_version :: string
  rd_pubkey :: string

definition redeem_failed :: "relay_env \<Rightarrow> string \<Rightarrow> string \<Rightarrow> string \<Rightarrow> relay \<Rightarrow> reply \<times> relay" where
  "redeem_failed e ip code reason s =
     (let s = try_db (IncPairAttempts code) s;
          s = limiter_fail (re_now e) (''pair:ip:'' @ ip) s;
          s = limiter_fail (re_now e) (''pair:code:'' @ code) s;
          s = audit e (''anon:'' @ ip) '''' 0 ''pair.failed'' reason s
      in (writeError 400 ''invalid or expired pairing code'', s))"

definition redeem_device :: "relay_env \<Rightarrow> string \<Rightarrow> redeem_request \<Rightarrow> relay \<Rightarrow> reply \<times> relay" where
  "redeem_device e ip req s =
     (let (token, hash) = newDeviceToken (re_sha256 e) (re_raw e);
          did = randomID ''dev_'' (re_raw_id e);
          name = trim_space (rd_name req);
          name = (if name = '''' then ''device-'' @ drop (length did - 4) did else name);
          material = (if rd_pubkey req = '''' then hash else rd_pubkey req);
          fp = fingerprint (re_sha256 e) material;
          dev = \<lparr>dv_id = did, dv_name = name, dv_os = rd_os req, dv_agent_version = rd_agent_version req,
                 dv_token_hash = hash, dv_pubkey = rd_pubkey req, dv_fingerprint = fp,
                 dv_created_at = re_now e, dv_last_seen = re_now e, dv_revoked_at = None\<rparr>
      in case CreateDevice dev (sv_db s) of
           Inl err \<Rightarrow> (writeErr (ApiStore err), s)
         | Inr db \<Rightarrow>
             let s = s\<lparr>sv_db := db, sv_devices := mput did (newDeviceState dev) (sv_devices s)\<rparr>;
                 s = audit e (''anon:'' @ ip) did 0 ''pair.redeem'' (name @ '' '' @ fp) s;
                 s = broadcastDeviceList s
             in (writeJSON 200 (BPaired did token fp name), s))"

text \<open>What follows the checks of the two locks.\<close>

definition redeem_code :: "relay_env \<Rightarrow> string \<Rightarrow> string \<Rightarrow> redeem_request \<Rightarrow> relay \<Rightarrow> reply \<times> relay" where
  "redeem_code e ip code req s =
     (if length code \<noteq> 8 then redeem_failed e ip code ''bad code format'' s
      else case RedeemPairCode code (re_now e) (sv_db s) of
             Inl ErrNotFound \<Rightarrow> redeem_failed e ip code ''code not redeemable'' s
           | Inl StoreFailed \<Rightarrow> (writeErr (ApiStore StoreFailed), s)
           | Inr db \<Rightarrow> redeem_device e ip req (limiter_reset (''pair:ip:'' @ ip) (s\<lparr>sv_db := db\<rparr>)))"

definition handlePairRedeem ::
  "relay_env \<Rightarrow> http_request \<Rightarrow> string + redeem_request \<Rightarrow> relay \<Rightarrow> reply \<times> relay" where
  "handlePairRedeem e r body s = with_body body (\<lambda>req.
     let ip = clientIP r; code = normalizePairCode (re_upper e) (rd_code req) in
     case limiter_locked (re_now e) (''pair:ip:'' @ ip) s of (ip_locked, s) \<Rightarrow>
     case (if ip_locked then (False, s) else limiter_locked (re_now e) (''pair:code:'' @ code) s) of (code_locked, s) \<Rightarrow>
       if ip_locked \<or> code_locked
       then (writeError 429 ''too many failed attempts, locked for 15 minutes'', s)
       else redeem_code e ip code req s) s"

section \<open>Devices\<close>

definition handleDevices :: "relay \<Rightarrow> reply \<times> relay" where
  "handleDevices s = (writeJSON 200 (BDevices (deviceList s)), s)"

definition empty_info :: device_info where
  "empty_info = \<lparr>di_id = '''', di_name = '''', di_os = '''', di_agent_version = '''', di_online = False,
     di_last_seen = 0, di_rtt_ms = 0, di_fingerprint = '''', di_power = ''''\<rparr>"

definition rename_cached :: "string \<Rightarrow> string \<Rightarrow> relay \<Rightarrow> relay" where
  "rename_cached did name s = (case mget (sv_devices s) did of
     None \<Rightarrow> s
   | Some d \<Rightarrow> set_device did (d\<lparr>ds_info := (ds_info d)\<lparr>di_name := name\<rparr>\<rparr>) s)"

definition handleDeviceRename ::
  "relay_env \<Rightarrow> http_request \<Rightarrow> string \<Rightarrow> string + string \<Rightarrow> relay \<Rightarrow> reply \<times> relay" where
  "handleDeviceRename e r did body s = with_body body (\<lambda>name.
     let name = trim_space name in
     if name = '''' then (writeError 400 ''name required'', s)
     else case RenameDevice did name (sv_db s) of
       Inl err \<Rightarrow> (writeErr (ApiStore err), s)
     | Inr db \<Rightarrow>
         let s = rename_cached did name (s\<lparr>sv_db := db\<rparr>);
             info = (case deviceInfo did s of None \<Rightarrow> empty_info | Some i \<Rightarrow> i)
         in (case web_actor e r s of
               None \<Rightarrow> (Panic, s)
             | Some who \<Rightarrow>
                 let s = audit e who did 0 ''device.rename'' name s
                 in (writeJSON 200 (BDevice info), broadcastDeviceList s))) s"

definition handleDeviceRevoke :: "relay_env \<Rightarrow> http_request \<Rightarrow> string \<Rightarrow> relay \<Rightarrow> reply \<times> relay" where
  "handleDeviceRevoke e r did s = (case web_actor e r s of
     None \<Rightarrow> (Panic, s)
   | Some who \<Rightarrow> (case revokeDevice e did who s of
       (Inl err, s) \<Rightarrow> (writeErr err, s)
     | (Inr _, s) \<Rightarrow> (writeJSON 200 BOk, s)))"

section \<open>Approvals, audit, settings\<close>

text \<open>\<^verbatim>\<open>strconv.Atoi\<close> with its error ignored: a number out of range is the nearest bound.\<close>

definition atoi_or_zero :: "string \<Rightarrow> int" where
  "atoi_or_zero s =
     (let neg = starts_with ''-'' s;
          digits = (if neg \<or> starts_with ''+'' s then drop 1 s else s);
          v = (if neg then - int (decimal_value digits) else int (decimal_value digits))
      in if digits = '''' \<or> \<not> list_all is_digit digits then 0 else max (- (2 ^ 63)) (min (2 ^ 63 - 1) v))"

definition handleApprovals :: "string \<Rightarrow> string \<Rightarrow> relay \<Rightarrow> reply \<times> relay" where
  "handleApprovals status limit s =
     (let status = (if status = '''' then ''pending'' else status) in
      if status = ''pending'' then (writeJSON 200 (BApprovals (pendingApprovals s)), s)
      else if status = ''all'' then
        (case ListApprovals False (atoi_or_zero limit) (sv_db s) of
           Inl err \<Rightarrow> (writeErr (ApiStore err), s)
         | Inr list \<Rightarrow> (writeJSON 200 (BApprovals list), s))
      else (writeError 400 ''status must be pending or all'', s))"

definition handleApprovalDecide ::
  "relay_env \<Rightarrow> http_request \<Rightarrow> string \<Rightarrow> string + string \<times> string \<Rightarrow> relay \<Rightarrow> reply \<times> relay" where
  "handleApprovalDecide e r key body s = with_body body (\<lambda>(decision, device_id).
     case web_actor e r s of
       None \<Rightarrow> (Panic, s)
     | Some who \<Rightarrow> (case decideApproval e key decision who device_id '''' '''' s of
         (Inl err, s) \<Rightarrow> (writeErr err, s)
       | (Inr _, s) \<Rightarrow> (writeJSON 200 (BDecided key decision), s))) s"

definition handleAudit :: "string \<Rightarrow> relay \<Rightarrow> reply \<times> relay" where
  "handleAudit limit s =
     (let n = atoi_or_zero limit;
          n = (if n \<le> 0 then 100 else n);
          n = (if n > 1000 then 1000 else n)
      in case ListAudit n (sv_db s) of
           Inl err \<Rightarrow> (writeErr (ApiStore err), s)
         | Inr list \<Rightarrow> (writeJSON 200 (BAudit list), s))"

definition handleWebhookGet :: "relay \<Rightarrow> reply \<times> relay" where
  "handleWebhookGet s = (case GetSetting settingWebhookURL (sv_db s) of
     Inl err \<Rightarrow> (writeErr (ApiStore err), s)
   | Inr u \<Rightarrow> (writeJSON 200 (BUrl u), s))"

definition handleWebhookPut ::
  "relay_env \<Rightarrow> http_request \<Rightarrow> string + string \<Rightarrow> relay \<Rightarrow> reply \<times> relay" where
  "handleWebhookPut e r body s = with_body body (\<lambda>url.
     let u = trim_space url;
         valid = (u = '''' \<or> (case re_parse_url e u of
                    None \<Rightarrow> False
                  | Some (scheme, host) \<Rightarrow> (scheme = ''http'' \<or> scheme = ''https'') \<and> host \<noteq> ''''))
     in if \<not> valid then (writeError 400 ''url must be http(s)'', s)
        else case SetSetting settingWebhookURL u (sv_db s) of
               Inl err \<Rightarrow> (writeErr (ApiStore err), s)
             | Inr db \<Rightarrow>
                 let s = s\<lparr>sv_db := db\<rparr> in
                 (case web_actor e r s of
                    None \<Rightarrow> (Panic, s)
                  | Some who \<Rightarrow> (writeJSON 200 (BUrl u), audit e who '''' 0 ''settings.webhook'' u s))) s"

section \<open>Routes\<close>

text \<open>
  The requests that the router knows, with the path values and the bodies of their handlers, and
  which of them need a login.
\<close>

datatype api_request =
    ReqHealth
  | ReqLogin "string + string"
  | ReqLogout
  | ReqMe
  | ReqPairRedeem "string + redeem_request"
  | ReqPairNew
  | ReqDevices
  | ReqRename string "string + string"
  | ReqRevoke string
  | ReqApprovals string string
  | ReqDecide string "string + string \<times> string"
  | ReqAudit string
  | ReqWebhookGet
  | ReqWebhookPut "string + string"
  | ReqUnknownApi
  | ReqUnknownWs

definition serve :: "relay_env \<Rightarrow> http_request \<Rightarrow> api_request \<Rightarrow> relay \<Rightarrow> reply \<times> relay" where
  "serve e r q s = (case q of
     ReqHealth \<Rightarrow> handleHealth s
   | ReqLogin body \<Rightarrow> handleLogin e r body s
   | ReqLogout \<Rightarrow> handleLogout e r s
   | ReqMe \<Rightarrow> handleMe e r s
   | ReqPairRedeem body \<Rightarrow> handlePairRedeem e r body s
   | ReqPairNew \<Rightarrow> requireLogin e r (handlePairNew e r) s
   | ReqDevices \<Rightarrow> requireLogin e r handleDevices s
   | ReqRename did body \<Rightarrow> requireLogin e r (handleDeviceRename e r did body) s
   | ReqRevoke did \<Rightarrow> requireLogin e r (handleDeviceRevoke e r did) s
   | ReqApprovals status limit \<Rightarrow> requireLogin e r (handleApprovals status limit) s
   | ReqDecide key body \<Rightarrow> requireLogin e r (handleApprovalDecide e r key body) s
   | ReqAudit limit \<Rightarrow> requireLogin e r (handleAudit limit) s
   | ReqWebhookGet \<Rightarrow> requireLogin e r handleWebhookGet s
   | ReqWebhookPut body \<Rightarrow> requireLogin e r (handleWebhookPut e r body) s
   | ReqUnknownApi \<Rightarrow> (writeError 404 ''unknown api route'', s)
   | ReqUnknownWs \<Rightarrow> (writeError 404 ''unknown ws route'', s))"

end
