(* ===== verification/RelayRouting.thy ===== *)
theory RelayRouting
  imports RelayApi
begin

text \<open>
  The part of the relay's state that routing depends on, and its invariant: who owns a session id,
  which clients are attached to it, which connection serves a device. An operation on queues, on
  the database, on logins or on the lock-out counters leaves that part alone; the collection
  \<open>relay_frame\<close> says so for each of them. Every other operation is shown to keep the invariant.
\<close>

text \<open>A client's goroutine runs while the client is in the server's table.\<close>

definition connected :: "nat \<Rightarrow> relay \<Rightarrow> bool" where
  "connected n s \<longleftrightarrow>
     (case mget (sv_cobjs s) n of None \<Rightarrow> False | Some c \<Rightarrow> mget (sv_clients s) (cc_id c) = Some n)"

section \<open>The routing state\<close>

definition client_view :: "relay \<Rightarrow> nat \<Rightarrow> (string \<times> (u32, bool) gomap) option" where
  "client_view s n = map_option (\<lambda>c. (cc_id c, cc_attached c)) (mget (sv_cobjs s) n)"

definition agent_device :: "relay \<Rightarrow> nat \<Rightarrow> string option" where
  "agent_device s n = map_option ac_device_id (mget (sv_agents s) n)"

definition hub :: "relay \<Rightarrow> _" where
  "hub s = (sv_devices s, sv_clients s, sv_sid_owner s, sv_attachments s, sv_next s, client_view s, agent_device s)"

lemma hubI:
  assumes "sv_devices s' = sv_devices s" and "sv_clients s' = sv_clients s"
    and "sv_sid_owner s' = sv_sid_owner s" and "sv_attachments s' = sv_attachments s"
    and "sv_next s' = sv_next s" and "\<And>n. client_view s' n = client_view s n"
    and "\<And>n. agent_device s' n = agent_device s n"
  shows "hub s' = hub s"
  using assms by (auto simp: hub_def)

lemma hub_push [relay_frame]:
  "hub (agent_push n x s) = hub s" "hub (client_push n x s) = hub s"
  "hub (agent_closeNow n s) = hub s" "hub (client_closeNow n s) = hub s"
  "hub (agent_write n ok s) = hub s" "hub (client_write n ok s) = hub s"
  "hub (set_heartbeat n t s) = hub s"
  by (auto intro!: hubI simp: agent_push_def client_push_def agent_closeNow_def client_closeNow_def
      agent_write_def client_write_def set_heartbeat_def client_view_def agent_device_def
      split: option.splits)

lemma hub_send [relay_frame]:
  "hub (agent_sendMsg n m s) = hub s" "hub (client_sendMsg n m s) = hub s"
  "hub (client_sendError n r d i t s) = hub s"
  by (simp_all add: agent_sendMsg_def client_sendMsg_def client_sendError_def relay_frame)

lemma fold_hub: "(\<And>x s. hub (f x s) = hub s) \<Longrightarrow> hub (fold f xs s) = hub s"
  by (induction xs arbitrary: s) simp_all

lemma hub_broadcast [relay_frame]:
  "hub (broadcast m s) = hub s" "hub (broadcastDeviceState did s) = hub s"
  "hub (broadcastDeviceList s) = hub s" "hub (broadcastSessionList did s) = hub s"
  by (simp_all add: broadcast_def broadcastDeviceState_def broadcastDeviceList_def
      broadcastSessionList_def fold_hub relay_frame split: option.split)

lemma hub_update [relay_frame]:
  "hub (s\<lparr>sv_db := db\<rparr>) = hub s" "hub (s\<lparr>sv_logins := l\<rparr>) = hub s" "hub (s\<lparr>sv_limiter := lk\<rparr>) = hub s"
  "hub (s\<lparr>sv_approvals := ap\<rparr>) = hub s" "hub (s\<lparr>sv_posts := ps\<rparr>) = hub s"
  by (auto intro!: hubI simp: client_view_def agent_device_def)

lemma hub_db [relay_frame]:
  "hub (try_db f s) = hub s" "hub (audit e actor did sid action detail s) = hub s"
  "hub (touchLastSeen did at os v s) = hub s" "hub (notifyApproval a dn sn s) = hub s"
  by (simp_all add: try_db_def audit_def touchLastSeen_def notifyApproval_def relay_frame
      split: sum.split option.split)

lemma hub_sweep [relay_frame]: "hub (sweepOnce now s) = hub s" "hub (Close_server s) = hub s"
  by (simp_all add: sweepOnce_def Close_server_def fold_hub relay_frame)

lemma hub_login [relay_frame]: "hub (snd (client_login e r s)) = hub s"
  by (simp add: client_login_def relay_frame split: option.split prod.split)

lemma hub_limiter [relay_frame]:
  "hub (snd (limiter_locked now key s)) = hub s" "hub (limiter_fail now key s) = hub s"
  "hub (limiter_reset key s) = hub s"
  by (simp_all add: limiter_locked_def limiter_fail_def limiter_reset_def relay_frame split: prod.split)

section \<open>The routing invariant\<close>

text \<open>
  A session id has an owner exactly when it is in that device's table; clients are attached only
  to owned ids, and what the server records of it and what the client records agree; connections
  belong to the device whose state names them. The tables \<open>T\<close> are an argument because a hello
  replaces a table in several steps.
\<close>

definition tables :: "relay \<Rightarrow> string \<Rightarrow> u32 set option" where
  "tables s did = map_option (\<lambda>d. set (mkeys (ds_sessions d))) (mget (sv_devices s) did)"

definition owners_ok :: "(string \<Rightarrow> u32 set option) \<Rightarrow> relay \<Rightarrow> bool" where
  "owners_ok T s \<longleftrightarrow> (\<forall>sid did. mget (sv_sid_owner s) sid = Some did \<longleftrightarrow> (\<exists>K. T did = Some K \<and> sid \<in> K))"

definition attachments_ok :: "relay \<Rightarrow> bool" where
  "attachments_ok s \<longleftrightarrow> (\<forall>sid atts. mget (sv_attachments s) sid = Some atts \<longrightarrow>
     mwf atts \<and> mget (sv_sid_owner s) sid \<noteq> None
     \<and> (\<forall>cid. mget atts cid \<noteq> None \<longrightarrow> mget (sv_clients s) cid \<noteq> None))"

definition is_attached :: "relay \<Rightarrow> string \<Rightarrow> u32 \<Rightarrow> bool" where
  "is_attached s cid sid \<longleftrightarrow> (\<exists>atts. mget (sv_attachments s) sid = Some atts \<and> mget atts cid \<noteq> None)"

definition clients_ok :: "relay \<Rightarrow> bool" where
  "clients_ok s \<longleftrightarrow> mwf (sv_clients s) \<and> (\<forall>cid n. mget (sv_clients s) cid = Some n \<longrightarrow>
     (\<exists>A. client_view s n = Some (cid, A)
        \<and> (\<forall>sid. mget A sid = (if is_attached s cid sid then Some True else None))))"

definition conns_ok :: "relay \<Rightarrow> bool" where
  "conns_ok s \<longleftrightarrow> (\<forall>n. sv_next s \<le> n \<longrightarrow> client_view s n = None \<and> agent_device s n = None)
     \<and> (\<forall>did d n. mget (sv_devices s) did = Some d \<and> ds_conn d = Some n \<longrightarrow> agent_device s n = Some did)
     \<and> mget (sv_devices s) '''' = None"

definition hub_inv_with :: "(string \<Rightarrow> u32 set option) \<Rightarrow> relay \<Rightarrow> bool" where
  "hub_inv_with T s \<longleftrightarrow> owners_ok T s \<and> attachments_ok s \<and> clients_ok s \<and> conns_ok s"

definition hub_inv :: "relay \<Rightarrow> bool" where
  "hub_inv s \<longleftrightarrow> hub_inv_with (tables s) s"

lemmas hub_inv_defs = hub_inv_with_def owners_ok_def attachments_ok_def clients_ok_def conns_ok_def

lemma hub_eqs:
  assumes "hub s' = hub s"
  shows "sv_devices s' = sv_devices s" and "sv_clients s' = sv_clients s"
    and "sv_sid_owner s' = sv_sid_owner s" and "sv_attachments s' = sv_attachments s"
    and "sv_next s' = sv_next s" and "client_view s' = client_view s" and "agent_device s' = agent_device s"
  using assms by (simp_all add: hub_def)

lemma hub_inv_with_cong:
  assumes "hub s' = hub s"
  shows "hub_inv_with T s' = hub_inv_with T s"
  by (simp add: hub_inv_defs is_attached_def hub_eqs [OF assms])

lemma tables_cong:
  assumes "hub s' = hub s"
  shows "tables s' = tables s"
  by (rule ext) (simp add: tables_def hub_eqs [OF assms])

lemma hub_inv_cong:
  assumes "hub s' = hub s"
  shows "hub_inv s' = hub_inv s"
  by (simp add: hub_inv_def hub_inv_with_cong [OF assms] tables_cong [OF assms])

text \<open>A table, a session id, an attachment at a time.\<close>

lemma tables_set_device [simp]:
  "tables (set_device did d s) = (tables s)(did \<mapsto> set (mkeys (ds_sessions d)))"
  by (rule ext) (simp add: tables_def set_device_def)

lemma views_update [simp]:
  "client_view (s\<lparr>sv_devices := x\<rparr>) = client_view s" "agent_device (s\<lparr>sv_devices := x\<rparr>) = agent_device s"
  "client_view (s\<lparr>sv_sid_owner := ow\<rparr>) = client_view s" "agent_device (s\<lparr>sv_sid_owner := ow\<rparr>) = agent_device s"
  "client_view (s\<lparr>sv_attachments := a\<rparr>) = client_view s" "agent_device (s\<lparr>sv_attachments := a\<rparr>) = agent_device s"
  "client_view (s\<lparr>sv_clients := c\<rparr>) = client_view s" "agent_device (s\<lparr>sv_clients := c\<rparr>) = agent_device s"
  "client_view (s\<lparr>sv_agents := g\<rparr>) = client_view s" "agent_device (s\<lparr>sv_cobjs := g'\<rparr>) = agent_device s"
  "client_view (s\<lparr>sv_next := k\<rparr>) = client_view s" "agent_device (s\<lparr>sv_next := k\<rparr>) = agent_device s"
  by (rule ext, simp add: client_view_def agent_device_def)+

lemma set_device_inv:
  assumes "hub_inv_with T s" and "did \<noteq> ''''"
    and "\<And>n. ds_conn d = Some n \<Longrightarrow> agent_device s n = Some did"
  shows "hub_inv_with T (set_device did d s)"
  using assms by (auto simp: hub_inv_defs set_device_def is_attached_def)

lemma registerSID_inv:
  assumes "hub_inv_with T s" and "registerSID sid did s = (True, s')" and "T did = Some K"
  shows "hub_inv_with (T(did \<mapsto> insert sid K)) s'"
proof -
  have s': "s' = s\<lparr>sv_sid_owner := mput sid did (sv_sid_owner s)\<rparr>"
    and own: "\<forall>owner. mget (sv_sid_owner s) sid = Some owner \<longrightarrow> owner = did"
    using assms(2) by (auto simp: registerSID_def split: if_splits)
  have "owners_ok (T(did \<mapsto> insert sid K)) s'"
    using assms(1,3) own by (auto simp: s' hub_inv_with_def owners_ok_def)
  moreover have "attachments_ok s'" "clients_ok s'" "conns_ok s'"
    using assms(1)
    by (auto simp: s' hub_inv_with_def attachments_ok_def clients_ok_def conns_ok_def is_attached_def)
  ultimately show ?thesis by (simp add: hub_inv_with_def)
qed

lemma registerSID_False: "registerSID sid did s = (False, s') \<Longrightarrow> s' = s"
  by (auto simp: registerSID_def split: if_splits)

lemma registerSID_devices: "registerSID sid did s = (b, s') \<Longrightarrow> sv_devices s' = sv_devices s"
  by (auto simp: registerSID_def split: if_splits)

lemma client_view_detach:
  "client_view (s\<lparr>sv_cobjs := detach_all sid ns (sv_cobjs s)\<rparr>) n =
     map_option (\<lambda>(cid, A). (cid, if n \<in> set ns then mdel sid A else A)) (client_view s n)"
  by (cases "mget (sv_cobjs s) n") (auto simp: client_view_def detach_all_def)

lemma forgetSID_simps [simp]:
  "sv_devices (forgetSID sid s) = sv_devices s" "sv_clients (forgetSID sid s) = sv_clients s"
  "sv_sid_owner (forgetSID sid s) = mdel sid (sv_sid_owner s)"
  "sv_attachments (forgetSID sid s) = mdel sid (sv_attachments s)" "sv_next (forgetSID sid s) = sv_next s"
  "agent_device (forgetSID sid s) = agent_device s"
  "client_view (forgetSID sid s) n = map_option (\<lambda>(cid, A).
     (cid, if n \<in> set (mvals (sv_clients s)) then mdel sid A else A)) (client_view s n)"
  using client_view_detach [where s = s and sid = sid and ns = "mvals (sv_clients s)" and n = n]
  by (simp_all add: forgetSID_def client_view_def agent_device_def fun_eq_iff)

lemma mvals_mget: "mget m k = Some v \<Longrightarrow> v \<in> set (mvals m)"
  using mget_in_set [of m k v] by (force simp: mvals_def)

lemma forgetSID_inv:
  assumes "hub_inv_with T s"
  shows "hub_inv_with (\<lambda>did. map_option (\<lambda>K. K - {sid}) (T did)) (forgetSID sid s)"
proof -
  have "owners_ok (\<lambda>did. map_option (\<lambda>K. K - {sid}) (T did)) (forgetSID sid s)"
    using assms by (auto simp: hub_inv_with_def owners_ok_def)
  moreover have "attachments_ok (forgetSID sid s)" "conns_ok (forgetSID sid s)"
    using assms by (auto simp: hub_inv_defs)
  moreover have "clients_ok (forgetSID sid s)"
    using assms by (fastforce simp: hub_inv_with_def clients_ok_def is_attached_def dest: mvals_mget)
  ultimately show ?thesis by (simp add: hub_inv_with_def)
qed

lemma forgetSIDs_inv:
  "hub_inv_with T s
   \<Longrightarrow> hub_inv_with (\<lambda>did. map_option (\<lambda>K. K - set sids) (T did)) (fold forgetSID sids s)"
proof (induction sids arbitrary: T s)
  case (Cons sid sids)
  from Cons.IH [OF forgetSID_inv [OF Cons.prems, of sid]]
  show ?case by (simp add: option.map_comp comp_def Diff_insert2 [symmetric])
qed (simp add: option.map_ident)

lemma forgetSIDs_devices [simp]: "sv_devices (fold forgetSID sids s) = sv_devices s"
  by (induction sids arbitrary: s) simp_all

lemma forgetSIDs_agent_device [simp]: "agent_device (fold forgetSID sids s) = agent_device s"
  by (induction sids arbitrary: s) simp_all

section \<open>Every operation keeps the invariant\<close>

lemmas inv_frame [simp] =
  hub_push [THEN hub_inv_cong] hub_send [THEN hub_inv_cong] hub_broadcast [THEN hub_inv_cong]
  hub_update [THEN hub_inv_cong] hub_db [THEN hub_inv_cong] hub_sweep [THEN hub_inv_cong]
  hub_login [THEN hub_inv_cong] hub_limiter [THEN hub_inv_cong]

lemma hub_inv_hub: "hub_inv s \<Longrightarrow> hub s' = hub s \<Longrightarrow> hub_inv s'"
  using hub_inv_cong by blast

lemma set_device_same:
  assumes "hub_inv s" and "mget (sv_devices s) did = Some d"
    and "set (mkeys (ds_sessions d')) = set (mkeys (ds_sessions d))" and "ds_conn d' = ds_conn d"
  shows "hub_inv (set_device did d' s)"
proof -
  have did: "did \<noteq> ''''" and conn: "\<And>n. ds_conn d = Some n \<Longrightarrow> agent_device s n = Some did"
    using assms(1,2) by (auto simp: hub_inv_def hub_inv_with_def conns_ok_def)
  have "tables (set_device did d' s) = tables s"
    using assms(2,3) by (auto simp: tables_def fun_eq_iff set_device_def)
  moreover have "hub_inv_with (tables s) (set_device did d' s)"
    using assms(1,4) did conn by (auto simp: hub_inv_def intro!: set_device_inv)
  ultimately show ?thesis by (simp add: hub_inv_def)
qed

lemma mkeys_mput: "set (mkeys (mput k v m)) = insert k (set (mkeys m))"
  by (auto simp: mkeys_iff split: if_splits)

lemma mkeys_mdel: "set (mkeys (mdel k m)) = set (mkeys m) - {k}"
  by (auto simp: mkeys_iff split: if_splits)

lemma mkeys_put_present: "mget m k = Some v \<Longrightarrow> set (mkeys (mput k w m)) = set (mkeys m)"
  by (auto simp: mkeys_iff split: if_splits)

lemma update_session_inv: "hub_inv s \<Longrightarrow> hub_inv (update_session did sid f s)"
  by (auto simp: update_session_def mkeys_put_present split: option.split intro: set_device_same)

lemma apply_health_keys: "set (mkeys (fold apply_health hs m)) = set (mkeys m)"
proof (induction hs arbitrary: m)
  case (Cons h hs)
  have "set (mkeys (apply_health h m)) = set (mkeys m)"
    by (auto simp: apply_health_def mkeys_put_present split: option.split)
  then show ?case using Cons by simp
qed simp

lemma hello_keeps:
  "fold (hello_session did) sis (fresh, s) = (fresh', s') \<Longrightarrow> set (mkeys fresh) \<subseteq> set (mkeys fresh')"
proof (induction sis arbitrary: fresh s)
  case (Cons si sis)
  obtain f1 s1 where h: "hello_session did si (fresh, s) = (f1, s1)" by fastforce
  then have "set (mkeys fresh) \<subseteq> set (mkeys f1)"
    by (auto simp: hello_session_def mkeys_mput split: prod.splits bool.splits)
  moreover have "set (mkeys f1) \<subseteq> set (mkeys fresh')"
    using Cons h by simp
  ultimately show ?case by blast
qed simp

lemma hello_sessions:
  assumes "fold (hello_session did) sis (fresh, s) = (fresh', s')" and "hub_inv_with T s"
    and "T did = Some K" and "set (mkeys fresh) \<subseteq> K"
  shows "hub_inv_with (T(did \<mapsto> K \<union> set (mkeys fresh'))) s'
    \<and> sv_devices s' = sv_devices s \<and> agent_device s' = agent_device s"
  using assms
proof (induction sis arbitrary: fresh s T K)
  case Nil
  then have "T(did \<mapsto> K) = T" "K = K \<union> set (mkeys fresh')" "s' = s" by auto
  then show ?case using Nil.prems(2) by metis
next
  case (Cons si sis)
  obtain ok s1 where r: "registerSID (si_sid si) did s = (ok, s1)" by fastforce
  show ?case
  proof (cases ok)
    case False
    then have "s1 = s" using r registerSID_False by auto
    then show ?thesis using Cons r False by (simp add: hello_session_def)
  next
    case True
    have inv: "hub_inv_with (T(did \<mapsto> insert (si_sid si) K)) s1"
      using registerSID_inv [OF Cons.prems(2)] r True Cons.prems(3) by simp
    have dev: "sv_devices s1 = sv_devices s" "agent_device s1 = agent_device s"
      using r True by (auto simp: registerSID_def split: if_splits)
    define fresh1 where "fresh1 = mput (si_sid si) (si\<lparr>si_device_id := did\<rparr>) fresh"
    have "hello_session did si (fresh, s) = (fresh1, s1)"
      using r True by (simp add: hello_session_def fresh1_def)
    then have "fold (hello_session did) sis (fresh1, s1) = (fresh', s')"
      using Cons.prems(1) by simp
    then have IH: "hub_inv_with ((T(did \<mapsto> insert (si_sid si) K))(did \<mapsto> insert (si_sid si) K \<union> set (mkeys fresh'))) s'
        \<and> sv_devices s' = sv_devices s1 \<and> agent_device s' = agent_device s1"
      by (rule Cons.IH [OF _ inv]) (use Cons.prems(4) in \<open>auto simp: fresh1_def mkeys_mput\<close>)
    have "si_sid si \<in> set (mkeys fresh')"
      using hello_keeps [OF \<open>fold _ _ (fresh1, s1) = _\<close>] by (auto simp: fresh1_def mkeys_mput)
    then have "insert (si_sid si) K \<union> set (mkeys fresh') = K \<union> set (mkeys fresh')" by auto
    with IH dev show ?thesis by (simp only: fun_upd_upd)
  qed
qed

lemma set_heartbeat_simps [simp]:
  "sv_devices (set_heartbeat n t s) = sv_devices s" "agent_device (set_heartbeat n t s) = agent_device s"
  using hub_eqs [OF hub_push(7)] by auto

lemma hub_inv_conn:
  "hub_inv s \<Longrightarrow> mget (sv_devices s) did = Some d \<Longrightarrow> ds_conn d = Some n \<Longrightarrow> agent_device s n = Some did"
  by (simp add: hub_inv_def hub_inv_with_def conns_ok_def)

lemma hub_inv_name: "hub_inv s \<Longrightarrow> mget (sv_devices s) did = Some d \<Longrightarrow> did \<noteq> ''''"
  by (auto simp: hub_inv_def hub_inv_with_def conns_ok_def)

lemma hub_inv_tables: "hub_inv_with (tables s) s \<Longrightarrow> hub_inv s"
  by (simp add: hub_inv_def)

lemma onAgentHello_inv:
  assumes "hub_inv s"
  shows "hub_inv (onAgentHello e n did m s)"
proof (cases "\<exists>d. mget (sv_devices s) did = Some d \<and> ds_conn d = Some n")
  case False
  then show ?thesis using assms by (auto simp: onAgentHello_def split: option.splits)
next
  case True
  then obtain d where d: "mget (sv_devices s) did = Some d" "ds_conn d = Some n" by blast
  define s1 where "s1 = set_heartbeat n (re_now e) s"
  obtain fresh s2 where f: "fold (hello_session did) (m_sessions m) ([], s1) = (fresh, s2)" by fastforce
  define gone where "gone = filter (\<lambda>sid. sid \<notin> set (mkeys fresh)) (mkeys (ds_sessions d))"
  define K where "K = set (mkeys (ds_sessions d))"
  have inv1: "hub_inv_with (tables s) s1"
    using assms hub_inv_with_cong [OF hub_push(7)] by (simp add: hub_inv_def s1_def)
  have "tables s did = Some K"
    using d by (simp add: tables_def K_def)
  from hello_sessions [OF f inv1 this]
  have inv2: "hub_inv_with ((tables s)(did \<mapsto> K \<union> set (mkeys fresh))) s2"
    and dev2: "sv_devices s2 = sv_devices s" and ag2: "agent_device s2 = agent_device s"
    by (auto simp: mkeys_def s1_def)
  define s3 where "s3 = fold forgetSID gone s2"
  have inv3: "hub_inv_with ((tables s)(did \<mapsto> set (mkeys fresh))) s3"
  proof -
    have away: "sid \<notin> set gone" if "tables s did' = Some K'" "did' \<noteq> did" "sid \<in> K'" for did' K' sid
      using that assms d
      by (auto simp: hub_inv_def hub_inv_with_def owners_ok_def gone_def tables_def) (metis option.inject)
    have "(\<lambda>did'. map_option (\<lambda>K. K - set gone) (((tables s)(did \<mapsto> K \<union> set (mkeys fresh))) did'))
        = (tables s)(did \<mapsto> set (mkeys fresh))"
    proof (rule ext)
      fix did'
      show "map_option (\<lambda>K. K - set gone) (((tables s)(did \<mapsto> K \<union> set (mkeys fresh))) did')
          = ((tables s)(did \<mapsto> set (mkeys fresh))) did'"
        using away [of did'] by (cases "tables s did'") (auto simp: gone_def K_def)
    qed
    then show ?thesis using forgetSIDs_inv [OF inv2, of gone] by (simp add: s3_def)
  qed
  have set4: "hub_inv (set_device did (d'\<lparr>ds_sessions := fresh\<rparr>) s3)" if "ds_conn d' = ds_conn d" for d'
  proof (rule hub_inv_tables)
    have "tables (set_device did (d'\<lparr>ds_sessions := fresh\<rparr>) s3) = (tables s)(did \<mapsto> set (mkeys fresh))"
      by (rule ext) (simp add: tables_def set_device_def s3_def dev2)
    moreover have "hub_inv_with ((tables s)(did \<mapsto> set (mkeys fresh))) (set_device did (d'\<lparr>ds_sessions := fresh\<rparr>) s3)"
      using inv3 by (rule set_device_inv)
        (use hub_inv_name [OF assms d(1)] hub_inv_conn [OF assms d] d(2) that in \<open>auto simp: s3_def ag2\<close>)
    ultimately show "hub_inv_with (tables (set_device did (d'\<lparr>ds_sessions := fresh\<rparr>) s3))
        (set_device did (d'\<lparr>ds_sessions := fresh\<rparr>) s3)" by simp
  qed
  show ?thesis
    unfolding onAgentHello_def Let_def d option.case
    by (simp add: d(2) f flip: s1_def) (use set4 in \<open>simp add: s3_def gone_def\<close>)
qed

lemma onHeartbeat_inv: "hub_inv s \<Longrightarrow> hub_inv (onHeartbeat e n did m raw s)"
  unfolding onHeartbeat_def Let_def
  by (auto simp: apply_health_keys split: option.split intro!: set_device_same)

lemma registerSID_same: "hub_inv s \<Longrightarrow> registerSID sid did s = (False, s') \<Longrightarrow> hub_inv s'"
  using registerSID_False by blast

lemma onSessionUpsert_inv:
  assumes "hub_inv s"
  shows "hub_inv (onSessionUpsert n did m s)"
proof -
  have *: "hub_inv (set_device did (d\<lparr>ds_sessions := mput sid si (ds_sessions d)\<rparr>) s')"
    if r: "registerSID sid did s = (True, s')" and d: "mget (sv_devices s) did = Some d" for sid s' d si
  proof (rule hub_inv_tables)
    define K where "K = set (mkeys (ds_sessions d))"
    have s': "sv_devices s' = sv_devices s" "agent_device s' = agent_device s"
      using r by (auto simp: registerSID_def split: if_splits)
    have "hub_inv_with ((tables s)(did \<mapsto> insert sid K)) s'"
      by (rule registerSID_inv [OF _ r]) (use assms d in \<open>auto simp: hub_inv_def tables_def K_def\<close>)
    then have "hub_inv_with ((tables s)(did \<mapsto> insert sid K))
        (set_device did (d\<lparr>ds_sessions := mput sid si (ds_sessions d)\<rparr>) s')"
      by (rule set_device_inv) (use hub_inv_name [OF assms d] hub_inv_conn [OF assms d] in \<open>auto simp: s'\<close>)
    moreover have "tables (set_device did (d\<lparr>ds_sessions := mput sid si (ds_sessions d)\<rparr>) s')
        = (tables s)(did \<mapsto> insert sid K)"
      by (rule ext) (simp add: tables_def set_device_def s' K_def mkeys_mput)
    ultimately show "hub_inv_with (tables (set_device did (d\<lparr>ds_sessions := mput sid si (ds_sessions d)\<rparr>) s'))
        (set_device did (d\<lparr>ds_sessions := mput sid si (ds_sessions d)\<rparr>) s')" by simp
  qed
  show ?thesis
    using assms
    by (auto simp: onSessionUpsert_def Let_def * registerSID_same split: option.split prod.split bool.split)
qed

lemma session_updates_inv:
  "hub_inv s \<Longrightarrow> hub_inv (onSessionState did m s)" "hub_inv s \<Longrightarrow> hub_inv (onSessionExited did m s)"
  by (simp_all add: onSessionState_def onSessionExited_def update_session_inv)

lemma onSessionClosed_inv:
  assumes "hub_inv s"
  shows "hub_inv (onSessionClosed did m s)"
proof (cases "mget (sv_devices s) did")
  case None
  have own: "mget (sv_sid_owner s) (m_sid m) \<noteq> Some did"
    using assms None by (auto simp: hub_inv_def hub_inv_with_def owners_ok_def tables_def)
  show ?thesis using assms None own by (simp add: onSessionClosed_def Let_def)
next
  case (Some d)
  define sid where "sid = m_sid m"
  define s1 where "s1 = set_device did (d\<lparr>ds_sessions := mdel sid (ds_sessions d)\<rparr>) s"
  have "hub_inv (if mget (sv_sid_owner s1) sid = Some did then forgetSID sid s1 else s1)"
  proof (rule hub_inv_tables)
    have inv1: "hub_inv_with (tables s) s1"
      unfolding s1_def using assms hub_inv_name [OF assms Some] hub_inv_conn [OF assms Some]
      by (auto simp: hub_inv_def intro!: set_device_inv)
    have own: "mget (sv_sid_owner s) sid' = Some did' \<longleftrightarrow> (\<exists>K. tables s did' = Some K \<and> sid' \<in> K)" for sid' did'
      using assms by (simp add: hub_inv_def hub_inv_with_def owners_ok_def)
    have owner: "sv_sid_owner s1 = sv_sid_owner s" by (simp add: s1_def set_device_def)
    have tab: "tables s1 did' = (if did' = did then Some (set (mkeys (ds_sessions d)) - {sid}) else tables s did')" for did'
      by (simp add: s1_def mkeys_mdel)
    have tabd: "tables s did = Some (set (mkeys (ds_sessions d)))"
      using Some by (simp add: tables_def)
    show "hub_inv_with (tables (if mget (sv_sid_owner s1) sid = Some did then forgetSID sid s1 else s1))
        (if mget (sv_sid_owner s1) sid = Some did then forgetSID sid s1 else s1)"
    proof (cases "mget (sv_sid_owner s) sid = Some did")
      case True
      have "tables (forgetSID sid s1) = (\<lambda>did. map_option (\<lambda>K. K - {sid}) (tables s did))"
      proof (rule ext)
        fix did'
        have "did' \<noteq> did \<Longrightarrow> tables s did' = Some K \<Longrightarrow> sid \<notin> K" for K
          using own [of sid did'] True by auto
        then show "tables (forgetSID sid s1) did' = map_option (\<lambda>K. K - {sid}) (tables s did')"
          using tab [of did'] tabd by (cases "tables s did'") (auto simp: tables_def split: if_splits)
      qed
      then show ?thesis using True forgetSID_inv [OF inv1, of sid] by (simp add: owner)
    next
      case False
      then have "sid \<notin> set (mkeys (ds_sessions d))"
        using own [of sid did] tabd by auto
      then have "tables s1 = tables s"
        using tab tabd by (auto simp: fun_eq_iff)
      then show ?thesis using False inv1 by (simp add: owner)
    qed
  qed
  moreover have "onSessionClosed did m s
      = broadcast m (if mget (sv_sid_owner s1) sid = Some did then forgetSID sid s1 else s1)"
    by (simp add: onSessionClosed_def Let_def Some s1_def sid_def)
  ultimately show ?thesis by simp
qed

lemma approvals_inv:
  "hub_inv s \<Longrightarrow> hub_inv (onApprovalNew e did m s)" "hub_inv s \<Longrightarrow> hub_inv (onApprovalClosed e m s)"
  by (auto simp: onApprovalNew_def onApprovalClosed_def Let_def split: option.split)

lemma handleAgentMsg_inv: "hub_inv s \<Longrightarrow> hub_inv (handleAgentMsg e n did m s)"
  by (auto simp: handleAgentMsg_def Let_def onAgentHello_inv onHeartbeat_inv onSessionUpsert_inv
      session_updates_inv onSessionClosed_inv approvals_inv split: msg_type.split option.split)

text \<open>Replacing the pending flags of an attachment table changes no attachment.\<close>

definition att_shape :: "(u32, (string, bool) gomap) gomap \<Rightarrow> u32 \<Rightarrow> (bool \<times> string set) option" where
  "att_shape m sid = map_option (\<lambda>a. (mwf a, set (mkeys a))) (mget m sid)"

lemma is_attached_shape:
  "is_attached s cid sid \<longleftrightarrow> (\<exists>w K. att_shape (sv_attachments s) sid = Some (w, K) \<and> cid \<in> K)"
  by (auto simp: is_attached_def att_shape_def mkeys_iff)

lemma attachments_ok_shape:
  "attachments_ok s \<longleftrightarrow> (\<forall>sid w K. att_shape (sv_attachments s) sid = Some (w, K) \<longrightarrow>
     w \<and> mget (sv_sid_owner s) sid \<noteq> None \<and> (\<forall>cid \<in> K. mget (sv_clients s) cid \<noteq> None))"
proof -
  have keys: "(\<forall>cid. mget a cid \<noteq> None \<longrightarrow> mget (sv_clients s) cid \<noteq> None)
      \<longleftrightarrow> (\<forall>cid \<in> set (mkeys a). mget (sv_clients s) cid \<noteq> None)" for a :: "(string, bool) gomap"
    by (metis mget_None_iff)
  show ?thesis
    unfolding attachments_ok_def keys by (auto simp: att_shape_def) (metis option.distinct(1))
qed

lemma mkeys_mmap [simp]: "mkeys (mmap f m) = mkeys m"
  by (simp add: mkeys_def mmap_def comp_def case_prod_beta)

lemma reattach_inv:
  assumes "hub_inv s" and "att_shape att = att_shape (sv_attachments s)"
  shows "hub_inv (s\<lparr>sv_attachments := att\<rparr>)"
proof -
  have att: "is_attached (s\<lparr>sv_attachments := att\<rparr>) cid sid = is_attached s cid sid" for cid sid
    by (simp add: is_attached_shape assms(2))
  have "attachments_ok (s\<lparr>sv_attachments := att\<rparr>) = attachments_ok s"
    by (simp add: attachments_ok_shape assms(2))
  moreover have "tables (s\<lparr>sv_attachments := att\<rparr>) = tables s"
    by (rule ext) (simp add: tables_def)
  ultimately show ?thesis
    using assms(1) by (simp add: hub_inv_def hub_inv_with_def owners_ok_def clients_ok_def conns_ok_def att)
qed

lemma routeAgentFrame_inv: "hub_inv s \<Longrightarrow> hub_inv (snd (routeAgentFrame did data s))"
  by (auto simp: routeAgentFrame_def Let_def hub_inv_cong [OF fold_hub [OF hub_push(2)]] att_shape_def
      fun_eq_iff intro!: reattach_inv split: sum.split prod.split option.split)

lemma agent_read_inv: "hub_inv s \<Longrightarrow> hub_inv (agent_read e n x s)"
  using routeAgentFrame_inv [of s]
  by (auto simp: agent_read_def handleAgentMsg_inv split: option.split wire_input.split prod.split)
    (metis snd_conv)+

section \<open>Connections come and go\<close>

lemma views_agents [simp]:
  "agent_device (s\<lparr>sv_agents := mput n a (sv_agents s)\<rparr>) = (agent_device s)(n \<mapsto> ac_device_id a)"
  "client_view (s\<lparr>sv_cobjs := mput n c (sv_cobjs s)\<rparr>) = (client_view s)(n \<mapsto> (cc_id c, cc_attached c))"
  by (rule ext, simp add: agent_device_def client_view_def)+

lemma agent_register_inv:
  assumes "hub_inv s" and "dv_id dev \<noteq> ''''"
  shows "hub_inv (agent_register e dev s)"
proof -
  define did where "did = dv_id dev"
  define d where "d = (case mget (sv_devices s) did of Some d \<Rightarrow> d | None \<Rightarrow> newDeviceState dev)"
  define d' where "d' = d\<lparr>ds_conn := Some (sv_next s), ds_info := (ds_info d)\<lparr>di_online := True, di_last_seen := re_now e\<rparr>\<rparr>"
  define a where "a = \<lparr>ac_device_id = did, ac_wire = new_wire, ac_last_heartbeat = re_now e, ac_rtt = 0\<rparr>"
  define s1 where "s1 = s\<lparr>sv_next := sv_next s + 1, sv_agents := mput (sv_next s) a (sv_agents s),
      sv_devices := mput did d' (sv_devices s)\<rparr>"
  have keys: "ds_sessions d' = ds_sessions d" by (simp add: d'_def)
  have fields: "sv_clients s1 = sv_clients s" "sv_sid_owner s1 = sv_sid_owner s"
    "sv_attachments s1 = sv_attachments s" "sv_next s1 = sv_next s + 1" "client_view s1 = client_view s"
    "agent_device s1 = (agent_device s)(sv_next s \<mapsto> did)" "sv_devices s1 = mput did d' (sv_devices s)"
    by (simp_all add: s1_def a_def agent_device_def client_view_def fun_eq_iff)
  have tab: "(\<exists>K. tables s1 x = Some K \<and> sid \<in> K) \<longleftrightarrow> (\<exists>K. tables s x = Some K \<and> sid \<in> K)" for x sid
    by (auto simp: tables_def fields keys d_def newDeviceState_def mkeys_def split: option.split)
  have att: "is_attached s1 = is_attached s" by (simp add: is_attached_def fields fun_eq_iff)
  have "owners_ok (tables s1) s1"
    using assms(1) by (simp add: hub_inv_def hub_inv_with_def owners_ok_def fields tab)
  moreover have "attachments_ok s1" "clients_ok s1"
    using assms(1) by (simp_all add: hub_inv_def hub_inv_with_def attachments_ok_def clients_ok_def fields att)
  moreover have "conns_ok s1"
    using assms
    by (auto simp: hub_inv_def hub_inv_with_def conns_ok_def fields d'_def did_def split: if_splits)
  ultimately have "hub_inv s1" by (simp add: hub_inv_def hub_inv_with_def)
  moreover have "agent_register e dev s
      = broadcastDeviceState did (case ds_conn d of None \<Rightarrow> s1 | Some k \<Rightarrow> agent_closeNow k s1)"
    unfolding agent_register_def Let_def s1_def d'_def d_def a_def did_def by (rule refl)
  ultimately show ?thesis by (simp split: option.split)
qed

lemma agent_pong_inv:
  assumes "hub_inv s"
  shows "hub_inv (agent_pong n ms s)"
proof (cases "mget (sv_agents s) n")
  case (Some a)
  define s1 where "s1 = s\<lparr>sv_agents := mput n (a\<lparr>ac_rtt := ms\<rparr>) (sv_agents s)\<rparr>"
  have "hub s1 = hub s"
    by (rule hubI) (auto simp: s1_def agent_device_def client_view_def Some)
  then have inv: "hub_inv s1" using assms hub_inv_hub by blast
  show ?thesis
  proof (cases "mget (sv_devices s) (ac_device_id a)")
    case dev: (Some d)
    have "hub_inv (set_device (ac_device_id a) (d\<lparr>ds_info := (ds_info d)\<lparr>di_rtt_ms := ms\<rparr>\<rparr>) s1)"
      by (rule set_device_same [OF inv, where d = d]) (simp_all add: s1_def dev)
    then show ?thesis
      using inv by (simp add: agent_pong_def Some dev Let_def set_device_def flip: s1_def) (simp add: s1_def dev)
  qed (use inv in \<open>simp add: agent_pong_def Some s1_def\<close>)
qed (use assms in \<open>simp add: agent_pong_def\<close>)

lemma agent_unregister_inv:
  assumes "hub_inv s"
  shows "hub_inv (agent_unregister n s)"
proof (cases "mget (sv_agents s) n")
  case (Some a)
  define did where "did = ac_device_id a"
  define s1 where "s1 = agent_closeNow n s"
  have inv: "hub_inv s1" using assms by (simp add: s1_def)
  define att where "att = mmap (\<lambda>sid atts.
      if mget (sv_sid_owner s1) sid = Some did then mmap (\<lambda>_ _. True) atts else atts) (sv_attachments s1)"
  have shape: "att_shape att = att_shape (sv_attachments s1)"
    by (auto simp: att_shape_def att_def fun_eq_iff option.map_comp comp_def intro!: option.map_cong split: if_splits)
  have "hub_inv (s1\<lparr>sv_devices := mput did (d\<lparr>ds_conn := None, ds_info := i\<rparr>) (sv_devices s1),
      sv_attachments := att\<rparr>)" if d: "mget (sv_devices s1) did = Some d" for d i
  proof -
    define d' where "d' = d\<lparr>ds_conn := None, ds_info := i\<rparr>"
    have "tables (set_device did d' s1) = tables s1"
      using d by (auto simp: tables_def set_device_def fun_eq_iff d'_def)
    moreover have "hub_inv_with (tables s1) (set_device did d' s1)"
      using inv hub_inv_name [OF inv d] by (intro set_device_inv) (auto simp: hub_inv_def d'_def)
    ultimately have "hub_inv (set_device did d' s1)" by (simp add: hub_inv_def)
    from reattach_inv [OF this, of att] show ?thesis
      by (simp add: set_device_def shape d'_def)
  qed
  then show ?thesis
    using inv by (simp add: agent_unregister_def Some Let_def att_def did_def s1_def split: option.split)
qed (use assms in \<open>simp add: agent_unregister_def\<close>)

lemma fold_hub_inv: "(\<And>x s. hub (f x s) = hub s) \<Longrightarrow> hub_inv (fold f xs s) = hub_inv s"
  by (rule hub_inv_cong, rule fold_hub)

lemma hub_inv_parts:
  "hub_inv s \<longleftrightarrow> owners_ok (tables s) s \<and> attachments_ok s \<and> clients_ok s \<and> conns_ok s"
  by (simp add: hub_inv_def hub_inv_with_def)

lemma attachedD: "hub_inv s \<Longrightarrow> is_attached s cid sid \<Longrightarrow> mget (sv_clients s) cid \<noteq> None"
  unfolding hub_inv_parts attachments_ok_def is_attached_def by blast

lemma clientsD:
  "hub_inv s \<Longrightarrow> mget (sv_clients s) cid = Some n \<Longrightarrow> client_view s n = Some (cid', A)
   \<Longrightarrow> cid' = cid \<and> (\<forall>sid. mget A sid = (if is_attached s cid sid then Some True else None))"
  unfolding hub_inv_parts clients_ok_def by fastforce

lemma client_register_inv:
  assumes "hub_inv s" and "mget (sv_clients s) (randomID ''c-'' raw_id) = None"
  shows "hub_inv (client_register raw_id ls s)"
proof -
  define cid where "cid = randomID ''c-'' raw_id"
  define c where "c = \<lparr>cc_id = cid, cc_login_id = ls_id ls, cc_wire = new_wire, cc_attached = []\<rparr>"
  define s1 where "s1 = s\<lparr>sv_next := sv_next s + 1, sv_cobjs := mput (sv_next s) c (sv_cobjs s),
      sv_clients := mput cid (sv_next s) (sv_clients s)\<rparr>"
  have fields: "sv_clients s1 = mput cid (sv_next s) (sv_clients s)" "sv_sid_owner s1 = sv_sid_owner s"
    "sv_attachments s1 = sv_attachments s" "sv_next s1 = sv_next s + 1" "sv_devices s1 = sv_devices s"
    "client_view s1 = (client_view s)(sv_next s \<mapsto> (cid, []))" "agent_device s1 = agent_device s"
    by (simp_all add: s1_def c_def agent_device_def client_view_def fun_eq_iff)
  have new: "\<not> is_attached s cid sid" for sid
    using attachedD [OF assms(1), of cid sid] assms(2) by (auto simp: cid_def)
  have att: "is_attached s1 = is_attached s" by (simp add: is_attached_def fields fun_eq_iff)
  have "tables s1 = tables s" by (simp add: tables_def fields fun_eq_iff)
  then have "owners_ok (tables s1) s1"
    using assms(1) by (simp add: hub_inv_parts owners_ok_def fields)
  moreover have "attachments_ok s1" "conns_ok s1"
    using assms(1) by (auto simp: hub_inv_parts attachments_ok_def conns_ok_def fields)
  moreover have "clients_ok s1"
  proof -
    have "k \<noteq> sv_next s" if "mget (sv_clients s) x = Some k" for x k
      using assms(1) that unfolding hub_inv_parts clients_ok_def conns_ok_def
      by (metis option.distinct(1) order_refl)
    then show ?thesis
      using assms(1) new by (auto simp: hub_inv_parts clients_ok_def fields att)
  qed
  ultimately have "hub_inv s1" by (simp add: hub_inv_parts)
  then show ?thesis
    by (simp add: client_register_def Let_def fold_hub_inv relay_frame) (simp add: s1_def c_def cid_def)
qed

lemma drop_attachment_simps [simp]:
  "sv_devices (drop_attachment cid sid s) = sv_devices s" "sv_clients (drop_attachment cid sid s) = sv_clients s"
  "sv_sid_owner (drop_attachment cid sid s) = sv_sid_owner s" "sv_next (drop_attachment cid sid s) = sv_next s"
  "client_view (drop_attachment cid sid s) = client_view s" "agent_device (drop_attachment cid sid s) = agent_device s"
  by (auto simp: drop_attachment_def Let_def split: option.split)

lemma mdel_Nil_iff: "mdel k m = [] \<longleftrightarrow> (\<forall>k'. k' \<noteq> k \<longrightarrow> mget m k' = None)"
proof
  show "mdel k m = [] \<Longrightarrow> \<forall>k'. k' \<noteq> k \<longrightarrow> mget m k' = None"
    using mget_mdel [of k m] by (metis mget_Nil)
  show "\<forall>k'. k' \<noteq> k \<longrightarrow> mget m k' = None \<Longrightarrow> mdel k m = []"
    by (auto simp: mdel_def filter_empty_conv) (metis mget_None_iff mkeys_def image_eqI fst_conv image_set)
qed

lemma is_attached_drop:
  "is_attached (drop_attachment cid sid s) cid' sid' \<longleftrightarrow> is_attached s cid' sid' \<and> \<not> (cid' = cid \<and> sid' = sid)"
  by (auto simp: is_attached_def drop_attachment_def Let_def mdel_Nil_iff split: option.split if_splits)

definition att_wf :: "relay \<Rightarrow> bool" where
  "att_wf s \<longleftrightarrow> (\<forall>sid atts. mget (sv_attachments s) sid = Some atts \<longrightarrow> mwf atts \<and> mget (sv_sid_owner s) sid \<noteq> None)"

lemma attachments_ok_iff:
  "attachments_ok s \<longleftrightarrow> att_wf s \<and> (\<forall>cid sid. is_attached s cid sid \<longrightarrow> mget (sv_clients s) cid \<noteq> None)"
  unfolding attachments_ok_def att_wf_def is_attached_def by blast

lemma att_wf_drop: "att_wf s \<Longrightarrow> att_wf (drop_attachment cid sid s)"
  by (auto simp: att_wf_def drop_attachment_def Let_def split: option.split if_splits)

lemma drop_attachments:
  "sv_devices (fold (drop_attachment cid) sids s) = sv_devices s
   \<and> sv_clients (fold (drop_attachment cid) sids s) = sv_clients s
   \<and> sv_sid_owner (fold (drop_attachment cid) sids s) = sv_sid_owner s
   \<and> sv_next (fold (drop_attachment cid) sids s) = sv_next s
   \<and> client_view (fold (drop_attachment cid) sids s) = client_view s
   \<and> agent_device (fold (drop_attachment cid) sids s) = agent_device s
   \<and> (\<forall>cid' sid'. is_attached (fold (drop_attachment cid) sids s) cid' sid'
        \<longleftrightarrow> is_attached s cid' sid' \<and> \<not> (cid' = cid \<and> sid' \<in> set sids))
   \<and> (att_wf s \<longrightarrow> att_wf (fold (drop_attachment cid) sids s))"
  by (induction sids arbitrary: s) (auto simp: is_attached_drop att_wf_drop)

lemma client_unregister_inv:
  assumes "hub_inv s" and "connected n s"
  shows "hub_inv (client_unregister n s)"
proof -
  obtain c where c: "mget (sv_cobjs s) n = Some c" and reg: "mget (sv_clients s) (cc_id c) = Some n"
    using assms(2) by (auto simp: connected_def split: option.splits)
  define cid where "cid = cc_id c"
  define s0 where "s0 = client_closeNow n s"
  have h: "hub s0 = hub s" by (simp add: s0_def hub_push)
  have inv: "hub_inv s0" using assms(1) h hub_inv_hub by blast
  define s1 where "s1 = s0\<lparr>sv_clients := mdel cid (sv_clients s0)\<rparr>"
  define s2 where "s2 = fold (drop_attachment cid) (mkeys (cc_attached c)) s1"
  have fields: "sv_devices s2 = sv_devices s0" "sv_clients s2 = mdel cid (sv_clients s0)"
    "sv_sid_owner s2 = sv_sid_owner s0" "sv_next s2 = sv_next s0" "client_view s2 = client_view s0"
    "agent_device s2 = agent_device s0"
    using drop_attachments [of cid "mkeys (cc_attached c)" s1] by (simp_all add: s2_def s1_def)
  have att1: "is_attached s1 = is_attached s0" "att_wf s1 = att_wf s0"
    by (simp_all add: s1_def is_attached_def att_wf_def fun_eq_iff)
  have "client_view s0 n = Some (cid, cc_attached c)"
    using c hub_eqs(6) [OF h] by (simp add: client_view_def cid_def)
  then have keys: "sid \<in> set (mkeys (cc_attached c)) \<longleftrightarrow> is_attached s0 cid sid" for sid
    using clientsD [OF inv, of cid n] reg hub_eqs(2) [OF h] by (auto simp: cid_def mkeys_iff split: if_splits)
  have att: "is_attached s2 x sid \<longleftrightarrow> is_attached s0 x sid \<and> x \<noteq> cid" for x sid
    using drop_attachments [of cid "mkeys (cc_attached c)" s1] keys [of sid] by (auto simp: s2_def att1)
  have "tables s2 = tables s0" by (simp add: tables_def fields fun_eq_iff)
  then have "owners_ok (tables s2) s2" "conns_ok s2"
    using inv by (simp_all add: hub_inv_parts owners_ok_def conns_ok_def fields)
  moreover have "att_wf s2"
    using inv drop_attachments [of cid "mkeys (cc_attached c)" s1]
    by (simp add: hub_inv_parts attachments_ok_iff s2_def att1)
  then have "attachments_ok s2"
    using inv by (auto simp: hub_inv_parts attachments_ok_iff att fields)
  moreover have "clients_ok s2"
    using inv by (auto simp: hub_inv_parts clients_ok_def fields att split: if_splits)
  ultimately have "hub_inv s2" by (simp add: hub_inv_parts)
  then show ?thesis
    by (simp add: client_unregister_def c Let_def s2_def s1_def s0_def cid_def)
qed

lemma set_attached_simps [simp]:
  "sv_devices (set_attached n f s) = sv_devices s" "sv_clients (set_attached n f s) = sv_clients s"
  "sv_sid_owner (set_attached n f s) = sv_sid_owner s" "sv_next (set_attached n f s) = sv_next s"
  "sv_attachments (set_attached n f s) = sv_attachments s" "agent_device (set_attached n f s) = agent_device s"
  "client_view (set_attached n f s) k =
     (if k = n then map_option (\<lambda>(cid, A). (cid, f A)) (client_view s n) else client_view s k)"
  by (auto simp: set_attached_def client_view_def agent_device_def split: option.split)

text \<open>The two records of an attachment change together.\<close>

lemma attachment_inv:
  assumes "hub_inv s" and "connected n s" and "client_view s n = Some (cid, A)"
    and "sv_devices s' = sv_devices s" and "sv_clients s' = sv_clients s"
    and "sv_sid_owner s' = sv_sid_owner s" and "sv_next s' = sv_next s"
    and "agent_device s' = agent_device s" and "client_view s' = (client_view s)(n \<mapsto> (cid, A'))"
    and "\<And>x sid'. is_attached s' x sid' \<longleftrightarrow> (if x = cid \<and> sid' = sid then b else is_attached s x sid')"
    and "A' = (if b then mput sid True A else mdel sid A)" and "att_wf s'"
  shows "hub_inv s'"
proof -
  have reg: "mget (sv_clients s) cid = Some n"
    using assms(2,3) by (auto simp: connected_def client_view_def split: option.splits)
  have other: "x = cid" if "mget (sv_clients s) x = Some n" for x
    using clientsD [OF assms(1) that assms(3)] by simp
  have "tables s' = tables s" by (simp add: tables_def assms(4) fun_eq_iff)
  then have "owners_ok (tables s') s'" "conns_ok s'"
    using assms(1,3) by (auto simp: hub_inv_parts owners_ok_def conns_ok_def assms(4-9))
  moreover have "attachments_ok s'"
    using assms(1) assms(12) reg by (auto simp: hub_inv_parts attachments_ok_iff assms(5,10) split: if_splits)
  moreover have "clients_ok s'"
  proof -
    have "\<exists>B. client_view s' k = Some (x, B) \<and> (\<forall>i. mget B i = (if is_attached s' x i then Some True else None))"
      if x: "mget (sv_clients s) x = Some k" for x k
    proof -
      obtain B where B: "client_view s k = Some (x, B)"
          "\<forall>i. mget B i = (if is_attached s x i then Some True else None)"
        using assms(1) x unfolding hub_inv_parts clients_ok_def by blast
      show ?thesis
      proof (cases "x = cid")
        case True
        then have "k = n" "B = A" using x reg B(1) assms(3) by auto
        then show ?thesis using True B(2) assms(11) by (simp add: assms(9,10))
      next
        case False
        then have "k \<noteq> n" using other x by auto
        then show ?thesis using False B by (simp add: assms(9,10))
      qed
    qed
    then show ?thesis
      using assms(1) by (simp add: hub_inv_parts clients_ok_def assms(5))
  qed
  ultimately show ?thesis by (simp add: hub_inv_parts)
qed

lemma att_wf_set_attached [simp]:
  "att_wf (set_attached n f s) = att_wf s" "is_attached (set_attached n f s) = is_attached s"
  "connected k (set_attached n f s) = connected k s"
  by (auto simp: att_wf_def is_attached_def fun_eq_iff connected_def set_attached_def split: option.split)

lemma connected_view:
  assumes "connected n s" and "mget (sv_cobjs s) n = Some c"
  shows "client_view s n = Some (cc_id c, cc_attached c)"
  using assms(2) by (simp add: client_view_def)

lemma onAttach_inv:
  assumes "hub_inv s" and "connected n s" and "mget (sv_cobjs s) n = Some c"
  shows "hub_inv (onAttach n (cc_id c) m s)"
proof -
  obtain m' k where a: "agentFor m s = (m', k)" by fastforce
  show ?thesis
  proof (cases k)
    case (Some j)
    define owner where "owner = (case mget (sv_sid_owner s) (m_sid m') of None \<Rightarrow> '''' | Some d \<Rightarrow> d)"
    show ?thesis
    proof (cases "owner = m_device_id m'")
      case True
      have "device_conn (m_device_id m') s = Some j"
        using a Some by (auto simp: agentFor_def Let_def)
      then obtain d where d: "mget (sv_devices s) (m_device_id m') = Some d"
        by (auto simp: device_conn_def bind_eq_Some_conv)
      then have owned: "mget (sv_sid_owner s) (m_sid m') \<noteq> None"
        using True hub_inv_name [OF assms(1) d] by (cases "mget (sv_sid_owner s) (m_sid m')") (auto simp: owner_def)
      define atts where "atts = (case mget (sv_attachments s) (m_sid m') of None \<Rightarrow> [] | Some a \<Rightarrow> a)"
      define s1 where "s1 = s\<lparr>sv_attachments := mput (m_sid m') (mput (cc_id c) True atts) (sv_attachments s)\<rparr>"
      have att: "is_attached s1 x i \<longleftrightarrow> (if x = cc_id c \<and> i = m_sid m' then True else is_attached s x i)" for x i
        by (auto simp: is_attached_def s1_def atts_def split: option.splits)
      have wf: "att_wf s1"
        using assms(1) owned by (auto simp: hub_inv_parts attachments_ok_iff att_wf_def s1_def atts_def split: option.splits)
      have "hub_inv (set_attached n (mput (m_sid m') True) s1)"
        by (rule attachment_inv [OF assms(1,2) connected_view [OF assms(2,3)], where sid = "m_sid m'" and b = True])
          (use wf att connected_view [OF assms(2,3)] in \<open>auto simp: s1_def fun_eq_iff\<close>)
      then show ?thesis
        using True by (simp add: onAttach_def a Some Let_def s1_def atts_def owner_def)
    qed (use assms(1) in \<open>simp add: onAttach_def a Some owner_def\<close>)
  qed (use assms(1) in \<open>simp add: onAttach_def a\<close>)
qed

lemma onDetach_inv:
  assumes "hub_inv s" and "connected n s" and "mget (sv_cobjs s) n = Some c"
  shows "hub_inv (onDetach n (cc_id c) m s)"
proof -
  have "hub_inv (drop_attachment (cc_id c) (m_sid m) (set_attached n (mdel (m_sid m)) s))"
    by (rule attachment_inv [OF assms(1,2) connected_view [OF assms(2,3)], where sid = "m_sid m" and b = False])
      (use assms(1) connected_view [OF assms(2,3)] in
        \<open>auto simp: fun_eq_iff is_attached_drop hub_inv_parts attachments_ok_iff intro!: att_wf_drop\<close>)
  then show ?thesis
    by (auto simp: onDetach_def Let_def split: option.split)
qed

lemma cached_approval_inv: "hub_inv s \<Longrightarrow> cached_approval key s = Some (a, s') \<Longrightarrow> hub_inv s'"
  by (auto simp: cached_approval_def split: option.splits sum.splits)

lemma decideApproval_inv: "hub_inv s \<Longrightarrow> hub_inv (snd (decideApproval e key dec actor hint r c s))"
  by (auto simp: decideApproval_def apply_decision_def Let_def split: option.split dest: cached_approval_inv)

lemma onDecide_inv: "hub_inv s \<Longrightarrow> hub_inv (onDecide e n cid actor m s)"
  using decideApproval_inv [of s e "m_key m" "m_decision m" actor "m_device_id m" "m_req_id m" cid]
  by (auto simp: onDecide_def split: prod.split sum.split)

lemma onForward_inv: "hub_inv s \<Longrightarrow> hub_inv (onForward e n actor m s)"
  by (auto simp: onForward_def Let_def split: prod.split option.split msg_type.split)

lemma handleClientMsg_inv:
  "hub_inv s \<Longrightarrow> connected n s \<Longrightarrow> mget (sv_cobjs s) n = Some c \<Longrightarrow> hub_inv (handleClientMsg e n (cc_id c) m s)"
  by (auto simp: handleClientMsg_def Let_def onAttach_inv onDetach_inv onDecide_inv onForward_inv
      split: msg_type.split)

lemma routeClientFrame_inv: "hub_inv s \<Longrightarrow> hub_inv (snd (routeClientFrame n data s))"
  by (auto simp: routeClientFrame_def Let_def split: sum.split prod.split option.split)

lemma client_read_inv: "hub_inv s \<Longrightarrow> connected n s \<Longrightarrow> hub_inv (client_read e n x s)"
  using routeClientFrame_inv [of s n]
  by (auto simp: client_read_def handleClientMsg_inv split: option.split wire_input.split prod.split)
    (metis snd_conv)+

section \<open>The HTTP interface\<close>

lemma revokeDevice_inv:
  assumes "hub_inv s"
  shows "hub_inv (snd (revokeDevice e did actor s))"
proof (cases "RevokeDevice did (re_now e) (sv_db s)")
  case (Inr db)
  define s1 where "s1 = s\<lparr>sv_db := db\<rparr>"
  have inv: "hub_inv s1" using assms by (simp add: s1_def)
  have "hub_inv (case mget (sv_devices s1) did of None \<Rightarrow> s1
      | Some d \<Rightarrow> (let s = fold forgetSID (mkeys (ds_sessions d)) s1 in s\<lparr>sv_devices := mdel did (sv_devices s)\<rparr>))"
  proof (cases "mget (sv_devices s1) did")
    case (Some d)
    define s2 where "s2 = fold forgetSID (mkeys (ds_sessions d)) s1"
    define s3 where "s3 = s2\<lparr>sv_devices := mdel did (sv_devices s2)\<rparr>"
    define T where "T = (\<lambda>x. map_option (\<lambda>K. K - set (mkeys (ds_sessions d))) (tables s1 x))"
    have inv2: "hub_inv_with T s2"
      unfolding T_def s2_def using inv by (intro forgetSIDs_inv) (simp add: hub_inv_def)
    have own: "mget (sv_sid_owner s1) sid = Some x \<longleftrightarrow> (\<exists>K. tables s1 x = Some K \<and> sid \<in> K)" for sid x
      using inv by (simp add: hub_inv_parts owners_ok_def)
    have mine: "tables s1 did = Some (set (mkeys (ds_sessions d)))"
      using Some by (simp add: tables_def)
    have "(\<exists>K. T x = Some K \<and> sid \<in> K) \<longleftrightarrow> (\<exists>K. tables s3 x = Some K \<and> sid \<in> K)" for x sid
    proof (cases "x = did")
      case True
      then show ?thesis using mine by (auto simp: T_def tables_def s3_def)
    next
      case False
      have "sid \<notin> set (mkeys (ds_sessions d))" if "tables s1 x = Some K" "sid \<in> K" for K
        using own [of sid x] own [of sid did] that mine False by auto
      then show ?thesis using False by (auto simp: T_def tables_def s3_def s2_def)
    qed
    then have "owners_ok (tables s3) s3"
      using inv2 by (simp add: hub_inv_with_def owners_ok_def) (simp add: s3_def)
    moreover have "attachments_ok s3" "clients_ok s3" "conns_ok s3"
      using inv2
      by (auto simp: hub_inv_with_def attachments_ok_def clients_ok_def conns_ok_def is_attached_def s3_def
          split: if_splits)
    ultimately show ?thesis by (simp add: hub_inv_parts Some Let_def s2_def s3_def)
  qed (use inv in simp)
  then show ?thesis
    by (simp add: revokeDevice_def Inr Let_def flip: s1_def split: option.split_asm)
      (auto split: option.split)
qed (use assms in \<open>simp add: revokeDevice_def\<close>)

end
