(* ===== verification/RelaySystem.thy ===== *)
theory RelaySystem
  imports RelayRouting
begin

text \<open>
  The relay as a whole: its operations as events, what each of them does to the database and to
  the cache of approvals, and the invariant of all reachable states.
\<close>

section \<open>Events\<close>

datatype relay_event =
    AgentRegister relay_env device
  | AgentRead relay_env nat wire_input
  | AgentWrite nat bool
  | AgentPong nat int
  | AgentGone nat
  | ClientLogin relay_env http_request
  | ClientRegister "byte list" login_session
  | ClientRead relay_env nat wire_input
  | ClientWrite nat bool
  | ClientGone nat
  | Serve relay_env http_request api_request
  | Sweep instant
  | Shutdown
  | DbFault bool

definition perform :: "relay_event \<Rightarrow> relay \<Rightarrow> relay" where
  "perform ev s = (case ev of
     AgentRegister e dev \<Rightarrow> agent_register e dev s
   | AgentRead e n x \<Rightarrow> agent_read e n x s
   | AgentWrite n ok \<Rightarrow> agent_write n ok s
   | AgentPong n ms \<Rightarrow> agent_pong n ms s
   | AgentGone n \<Rightarrow> agent_unregister n s
   | ClientLogin e r \<Rightarrow> snd (client_login e r s)
   | ClientRegister raw_id ls \<Rightarrow> client_register raw_id ls s
   | ClientRead e n x \<Rightarrow> client_read e n x s
   | ClientWrite n ok \<Rightarrow> client_write n ok s
   | ClientGone n \<Rightarrow> client_unregister n s
   | Serve e r q \<Rightarrow> snd (serve e r q s)
   | Sweep now \<Rightarrow> sweepOnce now s
   | Shutdown \<Rightarrow> Close_server s
   | DbFault b \<Rightarrow> s\<lparr>sv_db := (sv_db s)\<lparr>db_fault := b\<rparr>\<rparr>)"

text \<open>
  When an event can happen: a client's name is new among the connected ones, its goroutine runs
  while it is in the table, and a device that authenticated has a row, which is never deleted.
\<close>

definition possible :: "relay_event \<Rightarrow> relay \<Rightarrow> bool" where
  "possible ev s \<longleftrightarrow> (case ev of
     AgentRegister e dev \<Rightarrow> mget (db_devices (sv_db s)) (dv_id dev) \<noteq> None
   | ClientRegister raw_id ls \<Rightarrow> mget (sv_clients s) (randomID ''c-'' raw_id) = None
   | ClientRead e n x \<Rightarrow> connected n s
   | ClientGone n \<Rightarrow> connected n s
   | _ \<Rightarrow> True)"

inductive relay_step :: "relay \<Rightarrow> relay_event \<Rightarrow> relay \<Rightarrow> bool" where
  relay_stepI: "possible ev s \<Longrightarrow> relay_step s ev (perform ev s)"

inductive relay_run :: "relay \<Rightarrow> relay_event list \<Rightarrow> relay \<Rightarrow> bool" where
  run_Nil: "relay_run s [] s"
| run_Cons: "relay_step s ev s' \<Longrightarrow> relay_run s' evs s'' \<Longrightarrow> relay_run s (ev # evs) s''"

inductive_simps relay_step_iff: "relay_step s ev s'"

definition relay_reachable :: "relay_config \<Rightarrow> relay \<Rightarrow> bool" where
  "relay_reachable cfg s \<longleftrightarrow> (\<exists>db s0 evs. db_ok db \<and> New cfg db = Inr s0 \<and> relay_run s0 evs s)"

section \<open>The database and the cached approvals\<close>

text \<open>
  What an operation does to the database and to the cache of approvals: the statements it
  executes keep what \<open>db_keeps\<close> says, the devices in memory have rows, and an approval that has
  been decided stays decided, unless the agent announces it anew.
\<close>

definition rows_ok :: "relay \<Rightarrow> bool" where
  "rows_ok s \<longleftrightarrow> (\<forall>did. mget (sv_devices s) did \<noteq> None \<longrightarrow> mget (db_devices (sv_db s)) did \<noteq> None)"

definition decided :: "string \<Rightarrow> relay \<Rightarrow> bool" where
  "decided key s \<longleftrightarrow> (case mget (sv_approvals s) key of None \<Rightarrow> False | Some a \<Rightarrow> ap_status a \<noteq> ApprovalPending)"

definition keeps :: "string set \<Rightarrow> string set \<Rightarrow> relay \<Rightarrow> relay \<Rightarrow> bool" where
  "keeps issued announced s s' \<longleftrightarrow> db_keeps issued (sv_db s) (sv_db s')
     \<and> (\<forall>key. key \<notin> announced \<longrightarrow> decided key s \<longrightarrow> decided key s') \<and> (rows_ok s \<longrightarrow> rows_ok s')"

lemma keeps_refl [simp, intro]: "keeps I K s s"
  by (simp add: keeps_def)

lemma keeps_trans: "keeps I K a b \<Longrightarrow> keeps I K b c \<Longrightarrow> keeps I K a c"
  by (auto simp: keeps_def intro: db_keeps_trans)

definition books :: "relay \<Rightarrow> database \<times> (string, approval) gomap \<times> (string \<Rightarrow> bool)" where
  "books s = (sv_db s, sv_approvals s, \<lambda>did. mget (sv_devices s) did \<noteq> None)"

lemma rows_ok_books: "books s' = books s \<Longrightarrow> rows_ok s' = rows_ok s"
  by (simp add: books_def rows_ok_def fun_eq_iff)

lemma keeps_books: "books s' = books s \<Longrightarrow> keeps I K a s' = keeps I K a s"
  using rows_ok_books [of s' s] by (auto simp: keeps_def books_def decided_def)

lemma books_push:
  "books (agent_push n x s) = books s" "books (client_push n x s) = books s"
  "books (agent_closeNow n s) = books s" "books (client_closeNow n s) = books s"
  "books (agent_write n ok s) = books s" "books (client_write n ok s) = books s"
  "books (set_heartbeat n t s) = books s" "books (forgetSID sid s) = books s"
  "books (drop_attachment cid sid s) = books s" "books (set_attached n f s) = books s"
  "books (notifyApproval a dn sn s) = books s"
  by (simp_all add: books_def agent_push_def client_push_def agent_closeNow_def client_closeNow_def
      agent_write_def client_write_def set_heartbeat_def forgetSID_def drop_attachment_def
      set_attached_def notifyApproval_def Let_def split: option.split sum.split)

lemma books_update:
  "books (s\<lparr>sv_clients := x2\<rparr>) = books s" "books (s\<lparr>sv_sid_owner := x3\<rparr>) = books s"
  "books (s\<lparr>sv_attachments := x4\<rparr>) = books s" "books (s\<lparr>sv_agents := x5\<rparr>) = books s"
  "books (s\<lparr>sv_cobjs := x6\<rparr>) = books s" "books (s\<lparr>sv_next := x7\<rparr>) = books s"
  "books (s\<lparr>sv_logins := x8\<rparr>) = books s" "books (s\<lparr>sv_limiter := x9\<rparr>) = books s"
  by (simp_all add: books_def)

lemma books_device:
  "mget (sv_devices s) did \<noteq> None \<Longrightarrow> books (set_device did d s) = books s"
  "sv_devices t = sv_devices s \<Longrightarrow> mget (sv_devices s) did \<noteq> None
   \<Longrightarrow> books (s\<lparr>sv_devices := mput did d (sv_devices t)\<rparr>) = books s"
  "books (update_session did sid g s) = books s"
  by (auto simp: books_def set_device_def update_session_def fun_eq_iff split: option.split)

lemma fold_books: "(\<And>x s. books (f x s) = books s) \<Longrightarrow> books (fold f xs s) = books s"
  by (induction xs arbitrary: s) simp_all

lemma books_folds:
  "books (agent_sendMsg n m s) = books s" "books (client_sendMsg n m s) = books s"
  "books (client_sendError n r d i t s) = books s" "books (broadcast m s) = books s"
  "books (broadcastDeviceState did s) = books s" "books (broadcastDeviceList s) = books s"
  "books (broadcastSessionList did s) = books s"
  "books (fold forgetSID sids s) = books s" "books (fold (drop_attachment cid) sids s) = books s"
  "books (fold (client_sendMsg n) ms s) = books s" "books (sweepOnce now s) = books s"
  "books (Close_server s) = books s" "books (fold (\<lambda>c. client_push c x) cs s) = books s"
  by (simp_all add: agent_sendMsg_def client_sendMsg_def client_sendError_def broadcast_def
      broadcastDeviceState_def broadcastDeviceList_def broadcastSessionList_def sweepOnce_def
      Close_server_def fold_books books_push split: option.split)

lemmas keeps_frame [simp] =
  books_push [THEN keeps_books] books_update [THEN keeps_books] books_device [THEN keeps_books]
  books_folds [THEN keeps_books]

lemma keeps_mdel:
  "keeps I K a s \<Longrightarrow> sv_devices t = sv_devices s \<Longrightarrow> keeps I K a (s\<lparr>sv_devices := mdel did (sv_devices t)\<rparr>)"
  by (auto simp: keeps_def rows_ok_def decided_def)

lemma keeps_db:
  assumes "keeps I K a s" and "db_keeps I (sv_db s) db"
  shows "keeps I K a (s\<lparr>sv_db := db\<rparr>)"
proof -
  have "keeps I K s (s\<lparr>sv_db := db\<rparr>)"
    using assms(2) by (auto simp: keeps_def decided_def rows_ok_def db_keeps_def)
  with assms(1) show ?thesis by (rule keeps_trans)
qed

lemma keeps_try_db:
  "keeps I K a s \<Longrightarrow> (\<And>db. f (sv_db s) = Inr db \<Longrightarrow> db_keeps I (sv_db s) db) \<Longrightarrow> keeps I K a (try_db f s)"
  by (auto simp: try_db_def split: sum.split intro: keeps_db)

lemma keeps_writes [intro]:
  "keeps I K a s \<Longrightarrow> keeps I K a (audit e actor did sid action detail s)"
  "keeps I K a s \<Longrightarrow> keeps I K a (touchLastSeen did at os v s)"
  "keeps I K a s \<Longrightarrow> keeps I K a (try_db (UpsertApproval ap) s)"
  "keeps I K a s \<Longrightarrow> keeps I K a (try_db (SetApprovalStatus key st who at) s)"
  "keeps I K a s \<Longrightarrow> keeps I K a (try_db (IncPairAttempts code) s)"
  "keeps I K a s \<Longrightarrow> keeps I K a (try_db (PurgePairCodes at) s)"
  unfolding audit_def touchLastSeen_def by (erule keeps_try_db, erule store_keeps)+

lemma keeps_approval:
  assumes "keeps I K a s" and "key \<in> K \<or> ap_status ap \<noteq> ApprovalPending \<or> \<not> decided key s"
  shows "keeps I K a (s\<lparr>sv_approvals := mput key ap (sv_approvals s)\<rparr>)"
proof -
  have "keeps I K s (s\<lparr>sv_approvals := mput key ap (sv_approvals s)\<rparr>)"
    using assms(2) by (auto simp: keeps_def decided_def rows_ok_def)
  with assms(1) show ?thesis by (rule keeps_trans)
qed

lemma registerSID_books: "registerSID sid did s = (b, s') \<Longrightarrow> books s' = books s"
  by (auto simp: registerSID_def books_def split: if_splits)

lemma hello_sessions_books:
  "fold (hello_session did) sis (fresh, s) = (fresh', s') \<Longrightarrow> books s' = books s"
proof (induction sis arbitrary: fresh s)
  case (Cons si sis)
  obtain f1 s1 where h: "hello_session did si (fresh, s) = (f1, s1)" by fastforce
  then have "books s1 = books s"
    by (auto simp: hello_session_def split: prod.splits bool.splits dest: registerSID_books)
  with Cons h show ?case by simp
qed simp

lemma books_has_device: "books s' = books s \<Longrightarrow> mget (sv_devices s') did \<noteq> None \<longleftrightarrow> mget (sv_devices s) did \<noteq> None"
  by (simp add: books_def fun_eq_iff)

text \<open>What an event issues and announces.\<close>

definition issued :: "relay_event \<Rightarrow> string set" where
  "issued ev = (case ev of Serve e r ReqPairNew \<Rightarrow> set (map newPairCode (re_codes e)) | _ \<Rightarrow> {})"

definition announced :: "relay_event \<Rightarrow> string set" where
  "announced ev = (case ev of
     AgentRead e n (InText m) \<Rightarrow>
       if m_t m = TApprovalNew then (case m_approval m of None \<Rightarrow> {} | Some a \<Rightarrow> {ap_key a}) else {}
   | _ \<Rightarrow> {})"

lemma onAgentHello_keeps: "keeps I K s (onAgentHello e n did m s)"
proof (cases "\<exists>d. mget (sv_devices s) did = Some d \<and> ds_conn d = Some n")
  case False
  then show ?thesis by (auto simp: onAgentHello_def split: option.splits)
next
  case True
  then obtain d where d: "mget (sv_devices s) did = Some d" "ds_conn d = Some n" by blast
  define s1 where "s1 = set_heartbeat n (re_now e) s"
  obtain fresh s2 where f: "fold (hello_session did) (m_sessions m) ([], s1) = (fresh, s2)" by fastforce
  have b: "books s2 = books s"
    using hello_sessions_books [OF f] by (simp add: s1_def books_push)
  then have "mget (sv_devices s2) did \<noteq> None" using d(1) books_has_device [OF b, of did] by simp
  moreover have "keeps I K s s2" using keeps_books [OF b] by simp
  ultimately show ?thesis
    unfolding onAgentHello_def Let_def d option.case
    by (auto simp: d(2) f simp flip: s1_def)
qed

lemma agent_messages_keep:
  "keeps I K s (onHeartbeat e n did m raw s)" "keeps I K s (onSessionUpsert n did m s)"
  "keeps I K s (onSessionState did m s)" "keeps I K s (onSessionExited did m s)"
  "keeps I K s (onSessionClosed did m s)" "keeps I K s (onApprovalClosed e m s)"
proof -
  show "keeps I K s (onHeartbeat e n did m raw s)"
    by (auto simp: onHeartbeat_def Let_def split: option.split)
  show "keeps I K s (onSessionUpsert n did m s)"
  proof -
    have "keeps I K s (set_device did d s')" if "registerSID sid did s = (b, s')" "mget (sv_devices s) did \<noteq> None"
      for sid b s' d
      using keeps_books [OF registerSID_books [OF that(1)], of I K s]
        books_has_device [OF registerSID_books [OF that(1)], of did] that(2) by simp
    moreover have "keeps I K s s'" if "registerSID sid did s = (b, s')" for sid b s'
      using keeps_books [OF registerSID_books [OF that]] by simp
    ultimately show ?thesis
      by (auto simp: onSessionUpsert_def Let_def split: option.split prod.split bool.split)
  qed
  show "keeps I K s (onSessionState did m s)" "keeps I K s (onSessionExited did m s)"
    by (simp_all add: onSessionState_def onSessionExited_def)
  show "keeps I K s (onSessionClosed did m s)"
    by (auto simp: onSessionClosed_def Let_def split: option.split)
  show "keeps I K s (onApprovalClosed e m s)"
    by (auto simp: onApprovalClosed_def Let_def decided_def split: option.split intro!: keeps_writes keeps_approval)
qed

lemma onApprovalNew_keeps:
  assumes "\<And>a. m_approval m = Some a \<Longrightarrow> ap_key a \<in> K"
  shows "keeps I K s (onApprovalNew e did m s)"
  using assms
  by (auto simp: onApprovalNew_def Let_def split: option.split intro!: keeps_writes keeps_approval)

lemma handleAgentMsg_keeps:
  assumes "\<And>a. m_t m = TApprovalNew \<Longrightarrow> m_approval m = Some a \<Longrightarrow> ap_key a \<in> K"
  shows "keeps I K s (handleAgentMsg e n did m s)"
  using assms
  by (auto simp: handleAgentMsg_def Let_def onAgentHello_keeps agent_messages_keep
      split: msg_type.split option.split intro!: onApprovalNew_keeps)

lemma frames_keep: "keeps I K s (snd (routeAgentFrame did data s))" "keeps I K s (snd (routeClientFrame n data s))"
  by (auto simp: routeAgentFrame_def routeClientFrame_def Let_def split: sum.split prod.split option.split)

lemma agent_read_keeps: "keeps I (announced (AgentRead e n x)) s (agent_read e n x s)"
  using frames_keep(1) [of I "announced (AgentRead e n x)" s]
  by (auto simp: agent_read_def announced_def split: option.split wire_input.split prod.split
      intro!: handleAgentMsg_keeps) (metis snd_conv)+

lemma connections_keep:
  "mget (db_devices (sv_db s)) (dv_id dev) \<noteq> None \<Longrightarrow> keeps I K s (agent_register e dev s)"
  "keeps I K s (agent_unregister n s)" "keeps I K s (agent_pong n ms s)"
  "keeps I K s (client_register raw_id ls s)" "keeps I K s (client_unregister n s)"
proof -
  show "keeps I K s (agent_unregister n s)"
    by (auto simp: agent_unregister_def Let_def split: option.split)
  show "keeps I K s (agent_pong n ms s)"
    by (auto simp: agent_pong_def Let_def split: option.split)
  show "keeps I K s (client_register raw_id ls s)" "keeps I K s (client_unregister n s)"
    by (auto simp: client_register_def client_unregister_def Let_def split: option.split)
  assume row: "mget (db_devices (sv_db s)) (dv_id dev) \<noteq> None"
  have "keeps I K s (s\<lparr>sv_next := k, sv_agents := ag, sv_devices := mput (dv_id dev) d (sv_devices s)\<rparr>)" for k ag d
    using row by (auto simp: keeps_def rows_ok_def decided_def)
  then show "keeps I K s (agent_register e dev s)"
    by (auto simp: agent_register_def Let_def split: option.split)
qed

lemma cached_approval_keeps: "cached_approval key s = Some (a, s') \<Longrightarrow> keeps I K s s'"
  by (auto simp: cached_approval_def decided_def split: option.splits sum.splits intro!: keeps_approval)

lemma apply_decision_keeps: "keeps I K a s \<Longrightarrow> keeps I K a (apply_decision e key dec actor did r c n ap s)"
  by (auto simp: apply_decision_def Let_def intro!: keeps_writes keeps_approval)

lemma decideApproval_keeps: "keeps I K s (snd (decideApproval e key dec actor hint r c s))"
  by (auto simp: decideApproval_def Let_def split: option.split
      intro!: apply_decision_keeps dest: cached_approval_keeps [of key s _ _ I K])

lemma client_messages_keep:
  "keeps I K s (onAttach n cid m s)" "keeps I K s (onDetach n cid m s)"
  "keeps I K s (onForward e n actor m s)" "keeps I K s (onDecide e n cid actor m s)"
proof -
  show "keeps I K s (onAttach n cid m s)" "keeps I K s (onDetach n cid m s)"
    by (auto simp: onAttach_def onDetach_def Let_def split: option.split prod.split)
  show "keeps I K s (onForward e n actor m s)"
    by (auto simp: onForward_def Let_def split: option.split prod.split msg_type.split intro!: keeps_writes)
  show "keeps I K s (onDecide e n cid actor m s)"
    using decideApproval_keeps [of I K s e "m_key m" "m_decision m" actor "m_device_id m" "m_req_id m" cid]
    by (auto simp: onDecide_def split: prod.split sum.split)
qed

lemma client_read_keeps: "keeps I K s (client_read e n x s)"
  using frames_keep(2) [of I K s n]
  by (auto simp: client_read_def handleClientMsg_def Let_def client_messages_keep
      split: option.split wire_input.split prod.split msg_type.split) (metis snd_conv)+

section \<open>The HTTP interface\<close>

lemma limiter_keeps [simp]:
  "keeps I K a (limiter_fail now key s) = keeps I K a s" "keeps I K a (limiter_reset key s) = keeps I K a s"
  "keeps I K a (snd (limiter_locked now key s)) = keeps I K a s"
  by (simp_all add: limiter_fail_def limiter_reset_def limiter_locked_def split: prod.split)

lemma client_login_keeps [simp]: "keeps I K a (snd (client_login e r s)) = keeps I K a s"
  by (simp add: client_login_def split: option.split prod.split)

text \<open>Both parts of the invariant, for a handler that returns a reply.\<close>

definition safe :: "string set \<Rightarrow> relay \<Rightarrow> reply \<times> relay \<Rightarrow> bool" where
  "safe I s p \<longleftrightarrow> keeps I {} s (snd p)
     \<and> (hub_inv s \<longrightarrow> rows_ok s \<longrightarrow> db_ok (sv_db s) \<longrightarrow> hub_inv (snd p))"

lemma safe_same [simp]: "safe I s (rep, s)"
  by (simp add: safe_def)

lemma safe_body: "(\<And>v. body = Inr v \<Longrightarrow> safe I s (f v)) \<Longrightarrow> safe I s (with_body body f s)"
  by (simp add: with_body_def split: sum.split)

lemma safe_step:
  assumes "keeps I {} s s1" and "hub s1 = hub s" and "safe I s1 p"
  shows "safe I s p"
proof -
  have "rows_ok s \<longrightarrow> rows_ok s1" "db_ok (sv_db s) \<longrightarrow> db_ok (sv_db s1)"
    using assms(1) by (auto simp: keeps_def db_keeps_def)
  then show ?thesis
    using assms keeps_trans [OF assms(1), of "snd p"] hub_inv_cong [OF assms(2)] by (auto simp: safe_def)
qed

lemma limiter_locked_step:
  "limiter_locked now key s = (b, s1) \<Longrightarrow> keeps I K s s1 \<and> hub s1 = hub s"
  using limiter_keeps(3) [of I K s now key s] hub_limiter(1) [of now key s] by simp

lemma client_login_step: "client_login e r s = (ls, s1) \<Longrightarrow> keeps I K s s1 \<and> hub s1 = hub s"
  using client_login_keeps [of I K s e r s] hub_login [of e r s] by simp

lemma safeI:
  "keeps I {} s s' \<Longrightarrow> (hub_inv s \<Longrightarrow> rows_ok s \<Longrightarrow> db_ok (sv_db s) \<Longrightarrow> hub_inv s') \<Longrightarrow> safe I s (rep, s')"
  by (simp add: safe_def)

lemma limiter_case:
  assumes "\<And>b s1. safe I s1 (f b s1)"
  shows "safe I s (case limiter_locked now key s of (b, s1) \<Rightarrow> f b s1)"
proof (cases "limiter_locked now key s")
  case (Pair b s1)
  from limiter_locked_step [OF this, of I "{}"] show ?thesis
    using assms by (auto simp: Pair intro: safe_step)
qed

lemma client_login_case:
  assumes "\<And>ls s1. safe I s1 (f ls s1)"
  shows "safe I s (case client_login e r s of (ls, s1) \<Rightarrow> f ls s1)"
proof (cases "client_login e r s")
  case (Pair ls s1)
  from client_login_step [OF this, of I "{}"] show ?thesis
    using assms by (auto simp: Pair intro: safe_step)
qed

lemma handleLogin_safe: "safe I s (handleLogin e r body s)"
  unfolding handleLogin_def Let_def
  by (rule safe_body, rule limiter_case)
    (auto split: bool.split prod.split intro!: safeI keeps_writes)

lemma handleMe_safe: "safe I s (handleMe e r s)"
  unfolding handleMe_def by (rule client_login_case) (simp split: option.split)

lemma requireLogin_safe: "(\<And>s. safe I s (next s)) \<Longrightarrow> safe I s (requireLogin e r next s)"
  unfolding requireLogin_def by (rule client_login_case) (simp split: option.split)

lemma handleLogout_safe: "safe I s (handleLogout e r s)"
proof (cases "rq_cookie r")
  case (Some tok)
  have "safe I s (case client_login e r s of (ls, s1) \<Rightarrow>
      (setSessionCookie r '''' (- 1) (writeJSON 200 BOk),
       (case ls of None \<Rightarrow> s1 | Some ls \<Rightarrow> audit e (''web:'' @ ls_id ls) '''' 0 ''logout'' '''' s1)
         \<lparr>sv_logins := login_revoke tok (sv_logins
            (case ls of None \<Rightarrow> s1 | Some ls \<Rightarrow> audit e (''web:'' @ ls_id ls) '''' 0 ''logout'' '''' s1))\<rparr>))"
    by (rule client_login_case) (auto split: option.split intro!: safeI keeps_writes)
  then show ?thesis
    by (simp add: handleLogout_def Some Let_def split: prod.splits)
qed (simp add: handleLogout_def)

lemma try_codes_safe:
  assumes "try_codes mk cs s = (res, s')" and "\<And>c. pc_code (mk c) = c" and "set cs \<subseteq> I"
  shows "keeps I K s s' \<and> hub s' = hub s"
  using assms
proof (induction mk cs s rule: try_codes.induct)
  case (2 mk c cs s)
  then show ?case
    by (auto split: sum.splits if_splits simp: hub_update intro!: keeps_db [OF keeps_refl] store_keeps(5))
qed simp

lemma handlePairNew_safe: "set (map newPairCode (re_codes e)) \<subseteq> I \<Longrightarrow> safe I s (handlePairNew e r s)"
proof -
  assume codes: "set (map newPairCode (re_codes e)) \<subseteq> I"
  define now where "now = re_now e"
  define s1 where "s1 = try_db (PurgePairCodes (now - 24 * hour)) s"
  define mk where "mk = (\<lambda>c. \<lparr>pc_code = c, pc_created_at = now, pc_expires_at = now + rc_pair_code_ttl (sv_cfg s),
      pc_used_at = None, pc_attempts = 0\<rparr>)"
  obtain res s2 where tc: "try_codes mk (map newPairCode (re_codes e)) s1 = (res, s2)" by fastforce
  have s1: "keeps I {} s s1" "hub s1 = hub s"
    by (auto simp: s1_def hub_db intro: keeps_writes)
  have s2: "keeps I {} s1 s2" "hub s2 = hub s1"
    using try_codes_safe [OF tc _ codes] by (auto simp: mk_def)
  have "safe I s2 (case res of Inl err \<Rightarrow> (writeErr (ApiStore err), s2)
      | Inr code \<Rightarrow> (case web_actor e r s of None \<Rightarrow> (Panic, s2)
         | Some who \<Rightarrow> (writeJSON 200 (BCode code (now + rc_pair_code_ttl (sv_cfg s))), audit e who '''' 0 ''pair.new'' '''' s2)))"
    by (auto split: sum.split option.split intro!: safeI keeps_writes)
  from safe_step [OF s1 safe_step [OF s2 this]] show ?thesis
    by (simp add: handlePairNew_def Let_def tc split: sum.splits flip: now_def s1_def mk_def)
qed

lemma redeem_failed_safe: "safe I s (redeem_failed e ip code reason s)"
  unfolding redeem_failed_def Let_def
  by (rule safeI) (auto simp: limiter_fail_def intro!: keeps_writes)

lemma randomID_not_Nil: "randomID ''dev_'' b \<noteq> ''''"
  by (simp add: randomID_def)

lemma new_device_inv:
  assumes "hub_inv s" and "mget (sv_devices s) did = None" and "did \<noteq> ''''"
  shows "hub_inv (s\<lparr>sv_devices := mput did (newDeviceState dev) (sv_devices s)\<rparr>)"
proof -
  define s1 where "s1 = s\<lparr>sv_devices := mput did (newDeviceState dev) (sv_devices s)\<rparr>"
  have tab: "(\<exists>K. tables s1 x = Some K \<and> sid \<in> K) \<longleftrightarrow> (\<exists>K. tables s x = Some K \<and> sid \<in> K)" for x sid
    using assms(2) by (auto simp: tables_def s1_def newDeviceState_def mkeys_def)
  have att: "is_attached s1 = is_attached s" by (simp add: is_attached_def s1_def fun_eq_iff)
  have "owners_ok (tables s1) s1"
    using assms(1) tab by (simp add: hub_inv_parts owners_ok_def) (simp add: s1_def)
  moreover have "attachments_ok s1 = attachments_ok s" "clients_ok s1 = clients_ok s"
    by (simp_all add: attachments_ok_def clients_ok_def att) (simp_all add: s1_def)
  then have "attachments_ok s1" "clients_ok s1"
    using assms(1) by (simp_all add: hub_inv_parts)
  moreover have "conns_ok s1"
    using assms by (auto simp: hub_inv_parts conns_ok_def s1_def newDeviceState_def split: if_splits)
  ultimately show ?thesis by (simp add: hub_inv_parts flip: s1_def)
qed

lemma redeem_device_safe: "safe I s (redeem_device e ip req s)"
proof -
  define did where "did = randomID ''dev_'' (re_raw_id e)"
  have did: "did \<noteq> ''''" by (simp add: did_def randomID_def)
  have step: "safe I s (rep, broadcastDeviceList (audit e actor did 0 act det
        (s\<lparr>sv_db := db, sv_devices := mput did (newDeviceState dev) (sv_devices s)\<rparr>)))"
    if c: "CreateDevice dev (sv_db s) = Inr db" and d: "dv_id dev = did" and new: "dv_revoked_at dev = None"
    for dev db rep actor act det
  proof (rule safeI)
    have keep: "db_keeps I (sv_db s) db"
      using store_keeps(1) [OF c _ new] did d by simp
    have row: "mget (db_devices db) did \<noteq> None"
      using c d by (auto simp: CreateDevice_def split: option.splits)
    have "keeps I {} s (s\<lparr>sv_db := db, sv_devices := mput did (newDeviceState dev) (sv_devices s)\<rparr>)"
      using keep row by (auto simp: keeps_def decided_def rows_ok_def db_keeps_def)
    then show "keeps I {} s (broadcastDeviceList (audit e actor did 0 act det
        (s\<lparr>sv_db := db, sv_devices := mput did (newDeviceState dev) (sv_devices s)\<rparr>)))"
      by (auto intro!: keeps_writes)
    assume inv: "hub_inv s" and rows: "rows_ok s"
    have "mget (db_devices (sv_db s)) did = None"
      using c d by (auto simp: CreateDevice_def split: option.splits)
    then have "mget (sv_devices (s\<lparr>sv_db := db\<rparr>)) did = None"
      using rows by (auto simp: rows_ok_def)
    from new_device_inv [OF _ this did, of dev] inv
    show "hub_inv (broadcastDeviceList (audit e actor did 0 act det
        (s\<lparr>sv_db := db, sv_devices := mput did (newDeviceState dev) (sv_devices s)\<rparr>)))"
      by simp
  qed
  show ?thesis
    unfolding redeem_device_def Let_def did_def [symmetric]
    by (auto simp: newDeviceToken_def Let_def step split: sum.split)
qed

lemma redeem_code_safe: "safe I s (redeem_code e ip code req s)"
proof (cases "RedeemPairCode code (re_now e) (sv_db s)")
  case (Inr db)
  have keep: "keeps I {} s (limiter_reset (''pair:ip:'' @ ip) (s\<lparr>sv_db := db\<rparr>))"
    using store_keeps(7) [OF Inr] by (auto intro: keeps_db)
  have same: "hub (limiter_reset (''pair:ip:'' @ ip) (s\<lparr>sv_db := db\<rparr>)) = hub s"
    by (simp add: hub_limiter hub_update)
  show ?thesis
    using safe_step [OF keep same redeem_device_safe] by (simp add: redeem_code_def Inr redeem_failed_safe)
qed (auto simp: redeem_code_def redeem_failed_safe split: store_error.split)

lemma handlePairRedeem_safe: "safe I s (handlePairRedeem e r body s)"
  unfolding handlePairRedeem_def Let_def
proof (rule safe_body, rule limiter_case)
  fix req il s1
  show "safe I s1 (case (if il then (False, s1)
        else limiter_locked (re_now e) (''pair:code:'' @ normalizePairCode (re_upper e) (rd_code req)) s1) of
      (cl, s2) \<Rightarrow> if il \<or> cl then (writeError 429 ''too many failed attempts, locked for 15 minutes'', s2)
        else redeem_code e (clientIP r) (normalizePairCode (re_upper e) (rd_code req)) req s2)"
    by (cases il) (auto intro!: limiter_case redeem_code_safe)
qed

lemma rename_cached_frame:
  "keeps I K a (rename_cached did name s) = keeps I K a s" "hub_inv s \<Longrightarrow> hub_inv (rename_cached did name s)"
  by (auto simp: rename_cached_def split: option.split intro: set_device_same)

lemma handleDeviceRename_safe: "safe I s (handleDeviceRename e r did body s)"
  unfolding handleDeviceRename_def Let_def
  by (rule safe_body)
    (auto split: sum.split option.split simp: rename_cached_frame
      intro!: safeI keeps_writes keeps_db [OF keeps_refl] store_keeps(2) rename_cached_frame(2))

lemma revokeDevice_tail:
  assumes "revokeDevice e did actor s = (Inr (), s')" and "RevokeDevice did (re_now e) (sv_db s) = Inr db"
  shows "keeps I K (s\<lparr>sv_db := db\<rparr>) s'"
  using assms by (auto simp: revokeDevice_def Let_def split: option.splits intro!: keeps_writes keeps_mdel)

lemma revokeDevice_keeps: "keeps I K s (snd (revokeDevice e did actor s))"
proof (cases "RevokeDevice did (re_now e) (sv_db s)")
  case (Inr db)
  have "keeps I K s (s\<lparr>sv_db := db\<rparr>)"
    using store_keeps(4) [OF Inr] by (auto intro: keeps_db)
  then show ?thesis
    by (auto simp: revokeDevice_def Inr Let_def split: option.split intro!: keeps_writes keeps_mdel)
qed (simp add: revokeDevice_def)

lemma handleDeviceRevoke_safe: "safe I s (handleDeviceRevoke e r did s)"
proof (cases "web_actor e r s")
  case (Some who)
  then show ?thesis
    using revokeDevice_keeps [of I "{}" s e did who] revokeDevice_inv [of s e did who]
    by (auto simp: handleDeviceRevoke_def split: prod.split sum.split intro!: safeI)
qed (simp add: handleDeviceRevoke_def)

lemma handleApprovals_safe: "safe I s (handleApprovals status limit s)"
  by (simp add: handleApprovals_def Let_def split: sum.split)

lemma handleApprovalDecide_safe: "safe I s (handleApprovalDecide e r key body s)"
  unfolding handleApprovalDecide_def
proof (rule safe_body)
  fix v :: "string \<times> string"
  show "safe I s (case v of (decision, device_id) \<Rightarrow> case web_actor e r s of
       None \<Rightarrow> (Panic, s)
     | Some who \<Rightarrow> (case decideApproval e key decision who device_id '''' '''' s of
         (Inl err, s) \<Rightarrow> (writeErr err, s)
       | (Inr _, s) \<Rightarrow> (writeJSON 200 (BDecided key decision), s)))"
  proof (cases v; cases "web_actor e r s")
    fix dec hint who
    assume "v = (dec, hint)" "web_actor e r s = Some who"
    then show ?thesis
      using decideApproval_keeps [of I "{}" s e key dec who hint "''''" "''''"]
        decideApproval_inv [of s e key dec who hint "''''" "''''"]
      by (auto split: prod.split sum.split intro!: safeI)
  qed simp_all
qed

lemma handleAudit_safe: "safe I s (handleAudit limit s)" "safe I s (handleWebhookGet s)" "safe I s (handleDevices s)"
  by (simp_all add: handleAudit_def handleWebhookGet_def handleDevices_def Let_def split: sum.split)

lemma handleWebhookPut_safe: "safe I s (handleWebhookPut e r body s)"
  unfolding handleWebhookPut_def Let_def
  by (rule safe_body)
    (auto split: sum.split option.split
      intro!: safeI keeps_writes keeps_db [OF keeps_refl] store_keeps(12))

lemma serve_safe: "issued (Serve e r q) \<subseteq> I \<Longrightarrow> safe I s (serve e r q s)"
  by (cases q)
    (auto simp: serve_def issued_def handleHealth_def handleLogin_safe handleLogout_safe handleMe_safe
      handlePairRedeem_safe handleApprovals_safe handleAudit_safe
      intro!: requireLogin_safe handlePairNew_safe handleDeviceRename_safe handleDeviceRevoke_safe
        handleApprovalDecide_safe handleWebhookPut_safe)

section \<open>Reachable states\<close>

definition relay_inv :: "relay \<Rightarrow> bool" where
  "relay_inv s \<longleftrightarrow> hub_inv s \<and> rows_ok s \<and> db_ok (sv_db s)"

lemma perform_keeps:
  assumes "possible ev s"
  shows "keeps (issued ev) (announced ev) s (perform ev s)"
proof (cases ev)
  case (AgentRead e n x)
  then show ?thesis using agent_read_keeps by (simp add: perform_def)
next
  case (Serve e r q)
  then show ?thesis
    using serve_safe [of e r q "issued ev" s] by (simp add: perform_def safe_def announced_def)
next
  case (DbFault b)
  then show ?thesis by (auto simp: perform_def intro!: keeps_db store_keeps(13))
qed (use assms in \<open>auto simp: perform_def possible_def connections_keep client_read_keeps\<close>)

lemma perform_inv:
  assumes "possible ev s" and "relay_inv s"
  shows "relay_inv (perform ev s)"
proof -
  have "rows_ok (perform ev s) \<and> db_ok (sv_db (perform ev s))"
    using perform_keeps [OF assms(1)] assms(2) by (auto simp: keeps_def db_keeps_def relay_inv_def)
  moreover have "hub_inv (perform ev s)"
  proof (cases ev)
    case (AgentRegister e dev)
    have "dv_id dev \<noteq> ''''"
      using assms AgentRegister by (auto simp: possible_def relay_inv_def db_ok_def)
    then show ?thesis
      using AgentRegister assms(2) by (simp add: perform_def relay_inv_def agent_register_inv)
  next
    case (Serve e r q)
    then show ?thesis
      using serve_safe [of e r q "issued ev" s] assms(2) by (simp add: perform_def safe_def relay_inv_def)
  qed (use assms in \<open>auto simp: perform_def possible_def relay_inv_def agent_read_inv agent_pong_inv
        agent_unregister_inv client_register_inv client_read_inv client_unregister_inv\<close>)
  ultimately show ?thesis by (simp add: relay_inv_def)
qed

text \<open>The relay that is started from its store knows devices, but no session and no connection.\<close>

definition idle_device :: "device_state \<Rightarrow> bool" where
  "idle_device d \<longleftrightarrow> ds_sessions d = [] \<and> ds_conn d = None"

lemma loaded_devices:
  assumes "mget (fold (\<lambda>d. mput (dv_id d) (newDeviceState d)) devs m) did = Some x"
  shows "mget m did = Some x \<or> idle_device x \<and> did \<in> dv_id ` set devs"
  using assms
proof (induction devs arbitrary: m)
  case (Cons d devs)
  from Cons.IH [of "mput (dv_id d) (newDeviceState d) m"] Cons.prems show ?case
    by (auto simp: idle_device_def newDeviceState_def split: if_splits)
qed simp

lemma ListDevices_rows:
  assumes "ListDevices db = Inr devs" and "d \<in> set devs"
  shows "mget (db_devices db) (dv_id d) \<noteq> None"
  using assms by (auto simp: ListDevices_def scanDevice_def mget_None_iff mkeys_def rev_image_eqI)

lemma New_inv:
  assumes "New cfg db = Inr s" and "db_ok db"
  shows "relay_inv s"
proof -
  obtain devs ap c l k where s: "s = \<lparr>sv_cfg = c, sv_db = db, sv_logins = l, sv_limiter = k,
      sv_devices = fold (\<lambda>d. mput (dv_id d) (newDeviceState d)) devs [], sv_clients = [], sv_sid_owner = [],
      sv_attachments = [], sv_approvals = ap, sv_agents = [], sv_cobjs = [], sv_next = 0, sv_posts = []\<rparr>"
    and devs: "ListDevices db = Inr devs"
    using assms(1) by (auto simp: New_def loadState_def Let_def split: if_splits sum.splits)
  have dev: "idle_device x \<and> mget (db_devices db) did \<noteq> None" if "mget (sv_devices s) did = Some x" for did x
    using that loaded_devices [of devs "[]" did x] ListDevices_rows [OF devs] by (auto simp: s)
  have "owners_ok (tables s) s"
    using dev by (auto simp: owners_ok_def tables_def idle_device_def mkeys_def) (simp add: s)
  moreover have "attachments_ok s" "clients_ok s"
    by (simp_all add: attachments_ok_def clients_ok_def s)
  moreover have "mget (sv_devices s) '''' = None"
    using dev [of "''''"] assms(2) by (cases "mget (sv_devices s) ''''") (auto simp: db_ok_def s)
  then have "conns_ok s"
    using dev by (auto simp: conns_ok_def idle_device_def) (auto simp: s client_view_def agent_device_def)
  moreover have "rows_ok s" using dev by (auto simp: rows_ok_def) (auto simp: s)
  moreover have "db_ok (sv_db s)" using assms(2) by (simp add: s)
  ultimately show ?thesis by (simp add: relay_inv_def hub_inv_parts)
qed

lemma run_inv: "relay_run s evs s' \<Longrightarrow> relay_inv s \<Longrightarrow> relay_inv s'"
  by (induction rule: relay_run.induct) (auto simp: relay_step_iff perform_inv)

lemma reachable_inv: "relay_reachable cfg s \<Longrightarrow> relay_inv s"
  by (auto simp: relay_reachable_def intro: run_inv New_inv)

end
