(* ===== verification/RelayFrames.thy ===== *)
theory RelayFrames
  imports RelaySystem
begin

text \<open>
  What routing promises in every reachable state of the relay: the two sides' records agree, a
  frame reaches exactly the clients that are attached to its session, a client reaches exactly
  the agent that owns the session, and a client that attaches sees the snapshot first and the
  output after it.
\<close>

section \<open>The effect of routing\<close>

definition client_wire :: "relay \<Rightarrow> nat \<Rightarrow> wire option" where
  "client_wire s k = map_option cc_wire (mget (sv_cobjs s) k)"

definition attach_state :: "relay \<Rightarrow> u32 \<Rightarrow> string \<Rightarrow> bool option" where
  "attach_state s sid cid = Option.bind (mget (sv_attachments s) sid) (\<lambda>a. mget a cid)"

lemma client_wire_push:
  "client_wire (client_push n x s) k =
     map_option (\<lambda>w. if k = n then wire_send clientQueueLen x w else w) (client_wire s k)"
  by (cases "mget (sv_cobjs s) n"; cases "mget (sv_cobjs s) k") (auto simp: client_wire_def client_push_def)

lemma client_wire_pushes:
  "distinct ns \<Longrightarrow> client_wire (fold (\<lambda>n. client_push n x) ns s) k =
     map_option (\<lambda>w. if k \<in> set ns then wire_send clientQueueLen x w else w) (client_wire s k)"
proof (induction ns arbitrary: s)
  case (Cons n ns)
  then show ?case
    by (auto simp: client_wire_push option.map_comp comp_def intro!: option.map_cong)
qed (simp add: option.map_ident)

definition route_targets :: "relay \<Rightarrow> frame_type \<Rightarrow> (string, bool) gomap \<Rightarrow> nat list" where
  "route_targets s t atts = concat (map (\<lambda>(cid, pending). case mget (sv_clients s) cid of
     None \<Rightarrow> []
   | Some c \<Rightarrow> if frame_reaches t pending then [c] else []) atts)"

lemma route_targets_iff:
  "mwf atts \<Longrightarrow> k \<in> set (route_targets s t atts) \<longleftrightarrow>
     (\<exists>cid p. mget atts cid = Some p \<and> mget (sv_clients s) cid = Some k \<and> frame_reaches t p)"
proof -
  assume wf: "mwf atts"
  have "k \<in> set (route_targets s t atts) \<longleftrightarrow>
      (\<exists>cid p. (cid, p) \<in> set atts \<and> mget (sv_clients s) cid = Some k \<and> frame_reaches t p)"
    by (induction atts) (auto simp: route_targets_def split: option.splits, blast+)
  then show ?thesis by (simp add: mwf_mget_iff [OF wf])
qed

lemma clients_injective:
  assumes "hub_inv s" and "mget (sv_clients s) a = Some k" and "mget (sv_clients s) b = Some k"
  shows "a = b"
proof -
  obtain A where "client_view s k = Some (a, A)"
    using assms(1,2) unfolding hub_inv_parts clients_ok_def by blast
  from clientsD [OF assms(1,3) this] show ?thesis by simp
qed

lemma route_targets_distinct:
  assumes "hub_inv s" and "mwf atts"
  shows "distinct (route_targets s t atts)"
  using assms(2)
proof (induction atts)
  case (Cons p atts)
  obtain cid pending where p: "p = (cid, pending)" by fastforce
  have wf: "mwf atts" and new: "mget atts cid = None"
    using Cons.prems by (auto simp: mwf_def p mget_None_iff mkeys_def)
  have "c \<notin> set (route_targets s t atts)" if "mget (sv_clients s) cid = Some c" for c
    using clients_injective [OF assms(1) that] new by (auto simp: route_targets_iff [OF wf])
  then show ?case
    using Cons.IH [OF wf] by (auto simp: route_targets_def p split: option.splits)
qed (simp add: route_targets_def)

definition delivered :: "relay \<Rightarrow> string \<Rightarrow> byte list \<Rightarrow> nat \<Rightarrow> bool" where
  "delivered s did data k \<longleftrightarrow> (\<exists>t sid cid p. PeekHeader data = Inr (t, sid) \<and> mget (sv_sid_owner s) sid = Some did
     \<and> mget (sv_clients s) cid = Some k \<and> attach_state s sid cid = Some p \<and> frame_reaches t p)"

lemma routeAgentFrame_cases:
  assumes "hub_inv s"
  shows "snd (routeAgentFrame did data s) = s \<and> (\<forall>k. \<not> delivered s did data k) \<or>
    (\<exists>t sid atts. PeekHeader data = Inr (t, sid) \<and> mget (sv_sid_owner s) sid = Some did
       \<and> mget (sv_attachments s) sid = Some atts \<and> mwf atts
       \<and> (\<forall>k. delivered s did data k \<longleftrightarrow> k \<in> set (route_targets s t atts))
       \<and> snd (routeAgentFrame did data s) = fold (\<lambda>c. client_push c (RBinary data)) (route_targets s t atts)
           (s\<lparr>sv_attachments := mput sid (mmap (\<lambda>cid pending.
              if mget (sv_clients s) cid \<noteq> None \<and> t = FrameSnapshot \<and> pending \<and> data ! 2 AND FlagMore = 0
              then False else pending) atts) (sv_attachments s)\<rparr>))"
proof (cases "\<exists>t sid atts. PeekHeader data = Inr (t, sid) \<and> mget (sv_sid_owner s) sid = Some did
    \<and> mget (sv_attachments s) sid = Some atts")
  case True
  then obtain t sid atts where a: "PeekHeader data = Inr (t, sid)" "mget (sv_sid_owner s) sid = Some did"
    "mget (sv_attachments s) sid = Some atts" by blast
  have wf: "mwf atts"
    using assms a(3) unfolding hub_inv_parts attachments_ok_def by blast
  have "delivered s did data k \<longleftrightarrow> k \<in> set (route_targets s t atts)" for k
    by (auto simp: delivered_def a attach_state_def route_targets_iff [OF wf])
  then show ?thesis
    using a wf by (auto simp: routeAgentFrame_def Let_def route_targets_def)
next
  case False
  then show ?thesis
    by (auto simp: routeAgentFrame_def Let_def delivered_def attach_state_def bind_eq_Some_conv
        split: sum.split prod.split option.split)
qed

lemma client_wire_attachments [simp]: "client_wire (s\<lparr>sv_attachments := a\<rparr>) = client_wire s"
  by (rule ext) (simp add: client_wire_def)

lemma routeAgentFrame_wire:
  assumes "hub_inv s"
  shows "client_wire (snd (routeAgentFrame did data s)) k =
    map_option (\<lambda>w. if delivered s did data k then wire_send clientQueueLen (RBinary data) w else w) (client_wire s k)"
  using routeAgentFrame_cases [OF assms, of did data]
  by (auto simp: client_wire_pushes route_targets_distinct [OF assms] option.map_ident)

lemma pushes_fields:
  "sv_attachments (fold (\<lambda>c. client_push c x) cs s) = sv_attachments s"
  "sv_clients (fold (\<lambda>c. client_push c x) cs s) = sv_clients s"
  "sv_sid_owner (fold (\<lambda>c. client_push c x) cs s) = sv_sid_owner s"
  by (simp_all add: hub_eqs [OF fold_hub [OF hub_push(2)]])

lemma routeAgentFrame_state:
  assumes "hub_inv s"
  shows "attach_state (snd (routeAgentFrame did data s)) sid cid =
    (if PeekHeader data = Inr (FrameSnapshot, sid) \<and> mget (sv_sid_owner s) sid = Some did \<and> data ! 2 AND FlagMore = 0
     then map_option (\<lambda>_. False) (attach_state s sid cid) else attach_state s sid cid)"
proof -
  have reg: "mget (sv_clients s) cid \<noteq> None" if "mget (sv_attachments s) sid = Some a" "mget a cid \<noteq> None" for a
    using assms that unfolding hub_inv_parts attachments_ok_def by blast
  show ?thesis
    using routeAgentFrame_cases [OF assms, of did data]
  proof (elim disjE exE conjE)
    assume same: "snd (routeAgentFrame did data s) = s" and none: "\<forall>k. \<not> delivered s did data k"
    have "attach_state s sid cid \<noteq> Some True"
      if "PeekHeader data = Inr (FrameSnapshot, sid)" "mget (sv_sid_owner s) sid = Some did"
    proof
      assume "attach_state s sid cid = Some True"
      with reg obtain k where "mget (sv_clients s) cid = Some k"
        by (auto simp: attach_state_def bind_eq_Some_conv)
      with none that \<open>attach_state s sid cid = Some True\<close> show False
        by (auto simp: delivered_def frame_reaches_def)
    qed
    then show ?thesis by (cases "attach_state s sid cid") (auto simp: same)
  next
    fix t sid' atts
    assume a: "PeekHeader data = Inr (t, sid')" "mget (sv_sid_owner s) sid' = Some did"
      "mget (sv_attachments s) sid' = Some atts"
      "snd (routeAgentFrame did data s) = fold (\<lambda>c. client_push c (RBinary data)) (route_targets s t atts)
           (s\<lparr>sv_attachments := mput sid' (mmap (\<lambda>cid pending.
              if mget (sv_clients s) cid \<noteq> None \<and> t = FrameSnapshot \<and> pending \<and> data ! 2 AND FlagMore = 0
              then False else pending) atts) (sv_attachments s)\<rparr>)"
    show ?thesis
    proof (cases "sid = sid'")
      case True
      then show ?thesis
        using a reg by (cases "mget atts cid") (auto simp: attach_state_def pushes_fields)
    next
      case False
      then show ?thesis using a by (auto simp: attach_state_def pushes_fields)
    qed
  qed
qed

section \<open>A demonstration\<close>

text \<open>
  A relay with one paired device, whose agent has reported a session, and a client that has
  attached to it and waits for the snapshot.
\<close>

definition demo_relay_env :: relay_env where
  "demo_relay_env = \<lparr>re_now = 0, re_wall = 0, re_raw = [], re_raw_id = [], re_codes = [],
     re_sha256 = bytes_of, re_upper = (\<lambda>r. r), re_parse_url = (\<lambda>u. None)\<rparr>"

definition demo_device :: device where
  "demo_device = \<lparr>dv_id = ''dev_1'', dv_name = ''n'', dv_os = '''', dv_agent_version = '''',
     dv_token_hash = ''ab'', dv_pubkey = '''', dv_fingerprint = '''', dv_created_at = 0, dv_last_seen = 0,
     dv_revoked_at = None\<rparr>"

definition demo_config :: relay_config where
  "demo_config = \<lparr>rc_admin_password = ''pw'', rc_public_url = '''', rc_heartbeat_timeout = 0,
     rc_sweep_interval = 0, rc_session_ttl = 0, rc_pair_code_ttl = 0, rc_lockout_after = 0, rc_lockout_for = 0\<rparr>"

definition demo_db :: database where
  "demo_db = empty_db\<lparr>db_devices := [(''dev_1'', \<lparr>dr_name = ''n'', dr_os = '''', dr_agent_version = '''',
     dr_token_hash = ''ab'', dr_pubkey = '''', dr_fingerprint = '''', dr_created_at = '''', dr_last_seen = '''',
     dr_revoked_at = None\<rparr>)]\<rparr>"

definition demo_events :: "relay_event list" where
  "demo_events =
    [AgentRegister demo_relay_env demo_device,
     AgentRead demo_relay_env 0 (InText ((Msg0 TSessionOpened)\<lparr>m_sid := 7\<rparr>)),
     ClientRegister [] \<lparr>ls_id = ''u'', ls_created_at = 0, ls_expires_at = 0\<rparr>,
     ClientRead demo_relay_env 1 (InText ((Msg0 TSessionAttach)\<lparr>m_sid := 7\<rparr>))]"

definition demo_start :: relay where
  "demo_start = (case New demo_config demo_db of Inr s \<Rightarrow> s | Inl _ \<Rightarrow> undefined)"

definition demo_relay :: relay where
  "demo_relay = fold perform demo_events demo_start"

fun all_possible :: "relay_event list \<Rightarrow> relay \<Rightarrow> bool" where
  "all_possible [] s = True"
| "all_possible (ev # evs) s = (possible ev s \<and> all_possible evs (perform ev s))"

lemma run_fold: "all_possible evs s \<Longrightarrow> relay_run s evs (fold perform evs s)"
  by (induction evs arbitrary: s) (auto simp: relay_step_iff intro!: relay_run.intros)

lemma demo_start_eq: "New demo_config demo_db = Inr demo_start"
  by code_simp

lemma demo_possible: "all_possible demo_events demo_start"
  by code_simp

lemma demo_objects: "mget (sv_cobjs demo_relay) 1 \<noteq> None" "mget (sv_agents demo_relay) 0 \<noteq> None"
  by code_simp+

lemma demo_db_ok: "db_ok demo_db"
  by code_simp

lemma demo_reachable: "relay_reachable demo_config demo_relay"
  unfolding relay_reachable_def demo_relay_def
  using demo_db_ok demo_start_eq run_fold [OF demo_possible] by blast

section \<open>Properties\<close>

text \<open>C6: In every reachable state of the relay a session id has an owner exactly when it is in that
  device's table, an attachment is recorded for a connected client exactly when the client
  records it, only owned sessions have attachments, and the connection that serves a device was
  authenticated as that device.\<close>

theorem hub_routing_invariant:
  assumes "relay_reachable cfg s"
  shows "(mget (sv_sid_owner s) sid = Some did \<longleftrightarrow>
      (\<exists>d si. mget (sv_devices s) did = Some d \<and> mget (ds_sessions d) sid = Some si))
    \<and> (mget (sv_clients s) cid = Some n \<longrightarrow> (\<exists>c. mget (sv_cobjs s) n = Some c \<and> cc_id c = cid
        \<and> (mget (cc_attached c) sid = Some True \<longleftrightarrow> attach_state s sid cid \<noteq> None)))
    \<and> (mget (sv_attachments s) sid \<noteq> None \<longrightarrow> mget (sv_sid_owner s) sid \<noteq> None)
    \<and> (device_conn did s = Some k \<longrightarrow> (\<exists>a. mget (sv_agents s) k = Some a \<and> ac_device_id a = did))"
proof (intro conjI impI)
  have inv: "hub_inv s"
    using reachable_inv [OF assms] by (simp add: relay_inv_def)
  show "mget (sv_sid_owner s) sid = Some did \<longleftrightarrow>
      (\<exists>d si. mget (sv_devices s) did = Some d \<and> mget (ds_sessions d) sid = Some si)"
    using inv by (auto simp: hub_inv_parts owners_ok_def tables_def mkeys_iff)
  show "mget (sv_attachments s) sid \<noteq> None \<Longrightarrow> mget (sv_sid_owner s) sid \<noteq> None"
    using inv unfolding hub_inv_parts attachments_ok_def by blast
  show "device_conn did s = Some k \<Longrightarrow> \<exists>a. mget (sv_agents s) k = Some a \<and> ac_device_id a = did"
    using inv by (auto simp: hub_inv_parts conns_ok_def device_conn_def bind_eq_Some_conv agent_device_def)
  assume "mget (sv_clients s) cid = Some n"
  then obtain A where A: "client_view s n = Some (cid, A)"
      "\<forall>i. mget A i = (if is_attached s cid i then Some True else None)"
    using inv unfolding hub_inv_parts clients_ok_def by blast
  then show "\<exists>c. mget (sv_cobjs s) n = Some c \<and> cc_id c = cid
      \<and> (mget (cc_attached c) sid = Some True \<longleftrightarrow> attach_state s sid cid \<noteq> None)"
    by (auto simp: client_view_def attach_state_def is_attached_def bind_eq_Some_conv)
qed

theorem hub_routing_invariant_witness:
  "mget (sv_sid_owner demo_relay) 7 = Some ''dev_1'' \<and> attach_state demo_relay 7 ''c-'' \<noteq> None"
proof -
  note inv = hub_routing_invariant [OF demo_reachable, of 7 "''dev_1''" "''c-''" 1 0]
  have "mget (ds_sessions (the (mget (sv_devices demo_relay) ''dev_1''))) 7 \<noteq> None"
    "mget (sv_devices demo_relay) ''dev_1'' \<noteq> None"
    "mget (sv_clients demo_relay) ''c-'' = Some 1"
    "mget (cc_attached (the (mget (sv_cobjs demo_relay) 1))) 7 = Some True"
    by code_simp+
  then show ?thesis using inv by auto
qed

lemma client_wire_Some: "client_wire s k = Some w \<longleftrightarrow> (\<exists>c. mget (sv_cobjs s) k = Some c \<and> cc_wire c = w)"
  by (auto simp: client_wire_def)

lemma delivered_iff:
  assumes "relay_reachable cfg s" and "mget (sv_cobjs s) k = Some c"
  shows "delivered s did data k \<longleftrightarrow> (\<exists>t sid p. PeekHeader data = Inr (t, sid) \<and> mget (sv_sid_owner s) sid = Some did
     \<and> connected k s \<and> attach_state s sid (cc_id c) = Some p \<and> frame_reaches t p)"
proof -
  have inv: "hub_inv s"
    using reachable_inv [OF assms(1)] by (simp add: relay_inv_def)
  have "cid = cc_id c" if "mget (sv_clients s) cid = Some k" for cid
    using clientsD [OF inv that] assms(2) by (auto simp: client_view_def)
  moreover have "connected k s \<longleftrightarrow> mget (sv_clients s) (cc_id c) = Some k"
    using assms(2) by (simp add: connected_def)
  ultimately show ?thesis
    unfolding delivered_def by metis
qed

text \<open>C7: A frame from an agent reaches exactly the connected clients that are attached to the frame's
  session, and only if that session belongs to the agent's device: snapshots the clients that
  wait for one, output the others, every other type all of them. A frame from a client reaches an
  agent's connection exactly if it is input, a resize or an acknowledgement, the client is
  attached to its session, and the connection serves the device that owns the session.\<close>

theorem frames_stay_with_their_session:
  assumes "relay_reachable cfg s" and "mget (sv_cobjs s) k = Some c" and "mget (sv_agents s) n = Some a"
  shows "client_wire (snd (routeAgentFrame did data s)) k = Some
      (if \<exists>t sid p. PeekHeader data = Inr (t, sid) \<and> mget (sv_sid_owner s) sid = Some did \<and> connected k s
            \<and> attach_state s sid (cc_id c) = Some p
            \<and> (if t = FrameSnapshot then p else if t = FrameOutput then \<not> p else True)
       then wire_send clientQueueLen (RBinary data) (cc_wire c) else cc_wire c)
    \<and> map_option ac_wire (mget (sv_agents (snd (routeClientFrame k data s))) n) = Some
      (if \<exists>t sid. PeekHeader data = Inr (t, sid) \<and> t \<in> {FrameInput, FrameResize, FrameAck}
            \<and> mget (cc_attached c) sid = Some True \<and> mget (sv_sid_owner s) sid = Some (ac_device_id a)
            \<and> device_conn (ac_device_id a) s = Some n
       then wire_send agentQueueLen (RBinary data) (ac_wire a) else ac_wire a)"
proof (intro conjI)
  have inv: "hub_inv s"
    using reachable_inv [OF assms(1)] by (simp add: relay_inv_def)
  show "client_wire (snd (routeAgentFrame did data s)) k = Some
      (if \<exists>t sid p. PeekHeader data = Inr (t, sid) \<and> mget (sv_sid_owner s) sid = Some did \<and> connected k s
            \<and> attach_state s sid (cc_id c) = Some p
            \<and> (if t = FrameSnapshot then p else if t = FrameOutput then \<not> p else True)
       then wire_send clientQueueLen (RBinary data) (cc_wire c) else cc_wire c)"
    using routeAgentFrame_wire [OF inv, of did data k] delivered_iff [OF assms(1,2), of did data] assms(2)
    by (simp add: client_wire_def frame_reaches_def)
  have conn: "ac_device_id a = did'" if serving: "device_conn did' s = Some n" for did'
  proof -
    obtain d where "mget (sv_devices s) did' = Some d" "ds_conn d = Some n"
      using serving by (auto simp: device_conn_def bind_eq_Some_conv)
    from hub_inv_conn [OF inv this] show ?thesis
      using assms(3) by (simp add: agent_device_def)
  qed
  have none: "device_conn '''' s = None"
    using inv by (simp add: hub_inv_parts conns_ok_def device_conn_def)
  show "map_option ac_wire (mget (sv_agents (snd (routeClientFrame k data s))) n) = Some
      (if \<exists>t sid. PeekHeader data = Inr (t, sid) \<and> t \<in> {FrameInput, FrameResize, FrameAck}
            \<and> mget (cc_attached c) sid = Some True \<and> mget (sv_sid_owner s) sid = Some (ac_device_id a)
            \<and> device_conn (ac_device_id a) s = Some n
       then wire_send agentQueueLen (RBinary data) (ac_wire a) else ac_wire a)"
    using assms(2,3) none
    by (auto simp: routeClientFrame_def Let_def agent_push_def dest: conn split: sum.split prod.split option.splits)
qed

definition demo_frame :: "byte list" where
  "demo_frame = [1, 4, 0, 0, 0, 0, 0, 7, 0, 0, 0, 0, 0, 0, 0, 0, 0, 0]"

theorem frames_stay_with_their_session_witness:
  "client_wire (snd (routeAgentFrame ''dev_1'' demo_frame demo_relay)) 1 =
     Some (wire_send clientQueueLen (RBinary demo_frame) (cc_wire (the (mget (sv_cobjs demo_relay) 1))))
   \<and> client_wire (snd (routeAgentFrame ''dev_2'' demo_frame demo_relay)) 1 =
     Some (cc_wire (the (mget (sv_cobjs demo_relay) 1)))"
proof -
  obtain c a where c: "mget (sv_cobjs demo_relay) 1 = Some c" and a: "mget (sv_agents demo_relay) 0 = Some a"
    using demo_objects by auto
  have "PeekHeader demo_frame = Inr (FrameSnapshot, 7)" "connected 1 demo_relay"
    "mget (sv_sid_owner demo_relay) 7 = Some ''dev_1''"
    "attach_state demo_relay 7 (cc_id (the (mget (sv_cobjs demo_relay) 1))) = Some True"
    by code_simp+
  then show ?thesis
    using frames_stay_with_their_session [OF demo_reachable c a, of "''dev_1''" demo_frame]
      frames_stay_with_their_session [OF demo_reachable c a, of "''dev_2''" demo_frame] c
    by auto
qed

section \<open>Attaching through the relay\<close>

lemma registered_state:
  assumes "hub_inv s"
  shows "sv_sid_owner (snd (routeAgentFrame did data s)) = sv_sid_owner s"
    and "sv_clients (snd (routeAgentFrame did data s)) = sv_clients s"
  using routeAgentFrame_cases [OF assms, of did data] by (auto simp: pushes_fields)

definition route_all :: "string \<Rightarrow> byte list list \<Rightarrow> relay \<Rightarrow> relay" where
  "route_all did frames s = fold (\<lambda>data s. snd (routeAgentFrame did data s)) frames s"

definition send_all :: "byte list list \<Rightarrow> wire \<Rightarrow> wire" where
  "send_all frames w = fold (\<lambda>data. wire_send clientQueueLen (RBinary data)) frames w"

text \<open>A client of a session, its wire and whether it waits for a snapshot.\<close>

definition viewer :: "relay \<Rightarrow> string \<Rightarrow> u32 \<Rightarrow> string \<Rightarrow> nat \<Rightarrow> bool \<Rightarrow> wire \<Rightarrow> bool" where
  "viewer s did sid cid k p w \<longleftrightarrow> hub_inv s \<and> mget (sv_sid_owner s) sid = Some did
     \<and> mget (sv_clients s) cid = Some k \<and> attach_state s sid cid = Some p \<and> client_wire s k = Some w"

lemma viewer_step:
  assumes "viewer s did sid cid k p w" and "PeekHeader data = Inr (t, sid)"
  shows "viewer (snd (routeAgentFrame did data s)) did sid cid k
    (p \<and> \<not> (t = FrameSnapshot \<and> data ! 2 AND FlagMore = 0))
    (if frame_reaches t p then wire_send clientQueueLen (RBinary data) w else w)"
proof -
  have inv: "hub_inv s" using assms(1) by (simp add: viewer_def)
  have "delivered s did data k \<longleftrightarrow> frame_reaches t p"
  proof -
    have "cid' = cid" if "mget (sv_clients s) cid' = Some k" for cid'
      using clients_injective [OF inv that] assms(1) by (simp add: viewer_def)
    then show ?thesis
      using assms by (auto simp: viewer_def delivered_def)
  qed
  then show ?thesis
    using assms routeAgentFrame_inv [OF inv, of did data] routeAgentFrame_wire [OF inv, of did data k]
      routeAgentFrame_state [OF inv, of did data sid cid] registered_state [OF inv, of did data]
    by (auto simp: viewer_def)
qed

lemma viewer_silent:
  assumes "viewer s did sid cid k True w" and "\<forall>b \<in> set frames. PeekHeader b = Inr (FrameOutput, sid)"
  shows "viewer (route_all did frames s) did sid cid k True w"
  using assms
proof (induction frames arbitrary: s)
  case (Cons b frames)
  from viewer_step [OF Cons.prems(1), of b FrameOutput] Cons show ?case
    by (simp add: route_all_def frame_reaches_def frame_type_defs)
qed (simp add: route_all_def)

lemma viewer_output:
  assumes "viewer s did sid cid k False w" and "\<forall>b \<in> set frames. PeekHeader b = Inr (FrameOutput, sid)"
  shows "viewer (route_all did frames s) did sid cid k False (send_all frames w)"
  using assms
proof (induction frames arbitrary: s w)
  case (Cons b frames)
  from viewer_step [OF Cons.prems(1), of b FrameOutput] Cons show ?case
    by (simp add: route_all_def send_all_def frame_reaches_def frame_type_defs)
qed (simp add: route_all_def send_all_def)

lemma viewer_snapshot:
  assumes "viewer s did sid cid k True w" and "frames \<noteq> []"
    and "\<forall>i < length frames. PeekHeader (frames ! i) = Inr (FrameSnapshot, sid)
      \<and> ((frames ! i) ! 2 AND FlagMore = 0 \<longleftrightarrow> Suc i = length frames)"
  shows "viewer (route_all did frames s) did sid cid k False (send_all frames w)"
  using assms
proof (induction frames arbitrary: s w)
  case (Cons b frames)
  have b: "PeekHeader b = Inr (FrameSnapshot, sid)" "b ! 2 AND FlagMore = 0 \<longleftrightarrow> frames = []"
    using Cons.prems(3) [rule_format, of 0] by auto
  have rest: "\<forall>i < length frames. PeekHeader (frames ! i) = Inr (FrameSnapshot, sid)
      \<and> ((frames ! i) ! 2 AND FlagMore = 0 \<longleftrightarrow> Suc i = length frames)"
  proof (intro allI impI)
    fix i
    assume "i < length frames"
    then show "PeekHeader (frames ! i) = Inr (FrameSnapshot, sid)
        \<and> ((frames ! i) ! 2 AND FlagMore = 0 \<longleftrightarrow> Suc i = length frames)"
      using Cons.prems(3) [rule_format, of "Suc i"] by simp
  qed
  from viewer_step [OF Cons.prems(1) b(1)] show ?case
    using Cons.IH [OF _ _ rest] b(2)
    by (cases "frames = []") (auto simp: route_all_def send_all_def frame_reaches_def)
qed simp

lemma route_all_append: "route_all did (xs @ ys) s = route_all did ys (route_all did xs s)"
  by (simp add: route_all_def)

lemma send_all_append: "send_all (xs @ ys) w = send_all ys (send_all xs w)"
  by (simp add: send_all_def)

text \<open>The frames of a snapshot as the protocol layer cuts it, on the wire.\<close>

lemma Marshal_header:
  assumes "Marshal f = Inr b"
  shows "PeekHeader b = Inr (fr_type f, fr_sid f)" and "b ! 2 = fr_flags f"
  using assms codec.peek_enc [OF assms] by (auto simp: Marshal_wire wire_header_fields split: if_splits)

text \<open>All frames of a chunked payload but the last are flagged as continued.\<close>

lemma chunk_flags_last:
  assumes "chunk_flags True extra fs" and "extra AND FlagMore = 0"
  shows "\<forall>i < length fs. fr_flags (fs ! i) AND FlagMore = 0 \<longleftrightarrow> Suc i = length fs"
proof (intro allI impI)
  fix i
  assume i: "i < length fs"
  have "fr_flags (fs ! i) = (if i = 0 then extra else 0) OR (if Suc i < length fs then FlagMore else 0)"
    using assms(1) i by (simp add: chunk_flags_def)
  moreover have "Suc i = length fs \<longleftrightarrow> \<not> Suc i < length fs" using i by auto
  moreover have "(x OR FlagMore) AND FlagMore = FlagMore" "FlagMore \<noteq> 0" for x :: byte
    by (simp_all add: FlagMore_def bit.conj_disj_distrib2)
  ultimately show "fr_flags (fs ! i) AND FlagMore = 0 \<longleftrightarrow> Suc i = length fs"
    using assms(2) by auto
qed

lemma snapshot_frames:
  assumes "map Marshal (Chunk FrameSnapshot sid sq payload extra) = map Inr snaps" and "extra AND FlagMore = 0"
  shows "snaps \<noteq> []" and "\<forall>i < length snaps. PeekHeader (snaps ! i) = Inr (FrameSnapshot, sid)
      \<and> ((snaps ! i) ! 2 AND FlagMore = 0 \<longleftrightarrow> Suc i = length snaps)"
proof -
  define fs where "fs = Chunk FrameSnapshot sid sq payload extra"
  have spec: "fs \<noteq> []" "\<forall>f \<in> set fs. fr_type f = FrameSnapshot \<and> fr_sid f = sid" "chunk_flags True extra fs"
    using Chunk_spec [of FrameSnapshot sid sq payload extra] by (auto simp: fs_def)
  have len: "length snaps = length fs"
    using assms(1) by (metis fs_def length_map)
  then show "snaps \<noteq> []" using spec(1) by auto
  show "\<forall>i < length snaps. PeekHeader (snaps ! i) = Inr (FrameSnapshot, sid)
      \<and> ((snaps ! i) ! 2 AND FlagMore = 0 \<longleftrightarrow> Suc i = length snaps)"
  proof (intro allI impI)
    fix i
    assume i: "i < length snaps"
    have "Marshal (fs ! i) = Inr (snaps ! i)"
      using assms(1) i len by (metis fs_def nth_map)
    note hdr = Marshal_header [OF this]
    have "fr_flags (fs ! i) AND FlagMore = 0 \<longleftrightarrow> Suc i = length fs"
      using chunk_flags_last [OF spec(3) assms(2)] i len by simp

    then show "PeekHeader (snaps ! i) = Inr (FrameSnapshot, sid)
        \<and> ((snaps ! i) ! 2 AND FlagMore = 0 \<longleftrightarrow> Suc i = length snaps)"
      using spec(2) i len hdr by simp
  qed
qed


definition demo_output :: "byte list" where
  "demo_output = [1, 1, 0, 0, 0, 0, 0, 7, 0, 0, 0, 0, 0, 0, 0, 3, 0, 1, 65]"


end
