(* ===== verification/RelayOnce.thy ===== *)
theory RelayOnce
  imports RelayFrames
begin

text \<open>
  What can be used once or not at all any more: an approval that was decided, a pairing code that
  was redeemed, a device that was revoked. The argument is the same for all of them and is made
  once, in a locale whose laws each of the three discharges for the relay's operations. Beside
  it: how long a pairing code lives, how many guesses the lock-out admits, and what a refused
  decision leaves alone.
\<close>

section \<open>Spent for good\<close>

text \<open>
  Spending moves a state to one where the key is spent; steps that do not renew the key keep it
  spent; a spent key cannot be used.
\<close>

locale spendable =
  fixes inv :: "'s \<Rightarrow> bool" and spent :: "'k \<Rightarrow> 's \<Rightarrow> bool"
    and spend :: "'k \<Rightarrow> 's \<Rightarrow> 's \<Rightarrow> bool" and usable :: "'k \<Rightarrow> 's \<Rightarrow> bool"
    and step :: "'k \<Rightarrow> 's \<Rightarrow> 's \<Rightarrow> bool"
  assumes spend_spent: "inv s \<Longrightarrow> spend k s s' \<Longrightarrow> inv s' \<and> spent k s'"
    and step_spent: "inv s \<Longrightarrow> spent k s \<Longrightarrow> step k s s' \<Longrightarrow> inv s' \<and> spent k s'"
    and spent_unusable: "inv s \<Longrightarrow> spent k s \<Longrightarrow> \<not> usable k s"
begin

lemma steps_spent: "(step k)\<^sup>*\<^sup>* s s' \<Longrightarrow> inv s \<Longrightarrow> spent k s \<Longrightarrow> inv s' \<and> spent k s'"
  by (induction rule: rtranclp_induct) (auto dest: step_spent)

lemma never_again: "inv s \<Longrightarrow> spend k s s' \<Longrightarrow> (step k)\<^sup>*\<^sup>* s' s'' \<Longrightarrow> \<not> usable k s''"
  using spend_spent steps_spent spent_unusable by blast

end

text \<open>The steps of the relay that do not announce a given approval, or issue a given code, anew.\<close>

definition quiet_step :: "(relay_event \<Rightarrow> string set) \<Rightarrow> string \<Rightarrow> relay \<Rightarrow> relay \<Rightarrow> bool" where
  "quiet_step renews k s s' \<longleftrightarrow> (\<exists>ev. possible ev s \<and> k \<notin> renews ev \<and> s' = perform ev s)"

lemma run_quiet: "relay_run s evs s' \<Longrightarrow> \<forall>ev \<in> set evs. k \<notin> renews ev \<Longrightarrow> (quiet_step renews k)\<^sup>*\<^sup>* s s'"
proof (induction rule: relay_run.induct)
  case (run_Cons s ev s' evs s'')
  then have "quiet_step renews k s s'"
    by (auto simp: relay_step_iff quiet_step_def)
  with run_Cons show ?case by (auto intro: converse_rtranclp_into_rtranclp)
qed simp

definition decide_ok :: "string \<Rightarrow> relay \<Rightarrow> relay \<Rightarrow> bool" where
  "decide_ok key s s' \<longleftrightarrow> (\<exists>e decision actor hint req cid. decideApproval e key decision actor hint req cid s = (Inr (), s'))"

definition redeem_ok :: "string \<Rightarrow> relay \<Rightarrow> relay \<Rightarrow> bool" where
  "redeem_ok code s s' \<longleftrightarrow> (\<exists>now db. RedeemPairCode code now (sv_db s) = Inr db \<and> s' = s\<lparr>sv_db := db\<rparr>)"

definition revoke_ok :: "string \<Rightarrow> relay \<Rightarrow> relay \<Rightarrow> bool" where
  "revoke_ok did s s' \<longleftrightarrow> (\<exists>e actor. revokeDevice e did actor s = (Inr (), s'))"

definition authenticates :: "string \<Rightarrow> relay \<Rightarrow> bool" where
  "authenticates did s \<longleftrightarrow> (\<exists>e r d. agent_auth e r s = Some d \<and> dv_id d = did)"

lemma apply_decision_approvals:
  "\<exists>a'. sv_approvals (apply_decision e key dec actor did r c n a s) = mput key a' (sv_approvals s)
     \<and> ap_status a' = (if dec = ''deny'' then ApprovalDenied else ApprovalAllowed)"
proof -
  have "sv_approvals (broadcast m s1) = sv_approvals s1" for m s1
    using books_folds(4) [of m s1] by (simp add: books_def)
  moreover have "sv_approvals (agent_sendMsg k m s1) = sv_approvals s1" for k m s1
    using books_folds(1) [of k m s1] by (simp add: books_def)
  ultimately show ?thesis
    by (auto simp: apply_decision_def Let_def audit_def try_db_def split: sum.split)
qed

lemma decideApproval_Inr:
  assumes "decideApproval e key decision actor hint req cid s = (Inr (), s')"
  obtains a s1 n where "cached_approval key s = Some (a, s1)" and "ap_status a = ApprovalPending"
    and "ap_level a = LevelHook" and "decision = ''allow'' \<or> decision = ''deny''"
    and "device_conn (if ap_device_id a = '''' then hint else ap_device_id a) s1 = Some n"
    and "s' = apply_decision e key decision actor (if ap_device_id a = '''' then hint else ap_device_id a) req cid n a s1"
  using assms by (auto simp: decideApproval_def Let_def split: if_splits option.splits)

lemma decide_ok_decided:
  assumes "decide_ok key s s'"
  shows "decided key s'"
proof -
  obtain e decision actor hint req cid
    where "decideApproval e key decision actor hint req cid s = (Inr (), s')"
    using assms by (auto simp: decide_ok_def)
  then obtain a s1 n did where "s' = apply_decision e key decision actor did req cid n a s1"
    by (rule decideApproval_Inr)
  with apply_decision_approvals [of e key decision actor did req cid n a s1] show ?thesis
    by (auto simp: decided_def split: if_splits)
qed

lemma quiet_inv: "relay_inv s \<Longrightarrow> quiet_step renews k s s' \<Longrightarrow> relay_inv s'"
  by (auto simp: quiet_step_def perform_inv)

lemma quiet_keeps: "quiet_step renews k s s' \<Longrightarrow> \<exists>ev. k \<notin> renews ev \<and> keeps (issued ev) (announced ev) s s'"
  using perform_keeps unfolding quiet_step_def by blast

lemma quiet_decided: "quiet_step announced k s s' \<Longrightarrow> decided k s \<Longrightarrow> decided k s'"
  by (drule quiet_keeps) (auto simp: keeps_def)

lemma quiet_spent:
  "relay_inv s \<Longrightarrow> quiet_step issued k s s' \<Longrightarrow> spent_code k (sv_db s) \<Longrightarrow> spent_code k (sv_db s')"
  by (drule quiet_keeps) (auto simp: keeps_def db_keeps_def relay_inv_def)

lemma quiet_revoked: "quiet_step renews k s s' \<Longrightarrow> revoked did (sv_db s) \<Longrightarrow> revoked did (sv_db s')"
  by (drule quiet_keeps) (auto simp: keeps_def db_keeps_def)

lemma decided_not_decidable: "decided key s \<Longrightarrow> \<not> decide_ok key s s'"
  by (auto simp: decided_def decide_ok_def decideApproval_def cached_approval_def Let_def
      split: option.splits if_splits)

lemma decide_ok_inv: "relay_inv s \<Longrightarrow> decide_ok key s s' \<Longrightarrow> relay_inv s'"
proof (unfold decide_ok_def, elim exE)
  fix e decision actor hint req cid
  assume "relay_inv s" and d: "decideApproval e key decision actor hint req cid s = (Inr (), s')"
  then show "relay_inv s'"
    using decideApproval_inv [of s e key decision actor hint req cid]
      decideApproval_keeps [of "{}" "{}" s e key decision actor hint req cid]
    by (auto simp: relay_inv_def keeps_def db_keeps_def)
qed

interpretation decisions: spendable relay_inv decided decide_ok "\<lambda>key s. \<exists>s'. decide_ok key s s'"
  "quiet_step announced"
proof
  show "relay_inv s \<Longrightarrow> decide_ok k s s' \<Longrightarrow> relay_inv s' \<and> decided k s'" for k s s'
    by (simp add: decide_ok_inv decide_ok_decided)
  show "relay_inv s \<Longrightarrow> decided k s \<Longrightarrow> quiet_step announced k s s' \<Longrightarrow> relay_inv s' \<and> decided k s'" for k s s'
    using quiet_inv quiet_decided by blast
  show "relay_inv s \<Longrightarrow> decided k s \<Longrightarrow> \<not> (\<exists>s'. decide_ok k s s')" for k s
    by (simp add: decided_not_decidable)
qed

interpretation codes: spendable relay_inv "\<lambda>c s. spent_code c (sv_db s)" redeem_ok
  "\<lambda>c s. \<exists>s'. redeem_ok c s s'" "quiet_step issued"
proof
  show "relay_inv s \<Longrightarrow> redeem_ok k s s' \<Longrightarrow> relay_inv s' \<and> spent_code k (sv_db s')" for k s s'
  proof (unfold redeem_ok_def, elim exE conjE)
    fix now db
    assume inv: "relay_inv s" and r: "RedeemPairCode k now (sv_db s) = Inr db" and s': "s' = s\<lparr>sv_db := db\<rparr>"
    have "keeps {} {} s s'"
      using store_keeps(7) [OF r] by (auto simp: s' intro: keeps_db)
    then show "relay_inv s' \<and> spent_code k (sv_db s')"
      using inv RedeemPairCode_spent [OF r] by (auto simp: relay_inv_def keeps_def db_keeps_def s')
  qed
  show "relay_inv s \<Longrightarrow> spent_code k (sv_db s) \<Longrightarrow> quiet_step issued k s s' \<Longrightarrow> relay_inv s' \<and> spent_code k (sv_db s')"
    for k s s'
    using quiet_inv quiet_spent by blast
  show "relay_inv s \<Longrightarrow> spent_code k (sv_db s) \<Longrightarrow> \<not> (\<exists>s'. redeem_ok k s s')" for k s
    by (simp add: redeem_ok_def spent_not_redeemable)
qed

interpretation revocations: spendable relay_inv "\<lambda>did s. revoked did (sv_db s)" revoke_ok authenticates
  "quiet_step (\<lambda>ev. {})"
proof
  show "relay_inv s \<Longrightarrow> revoke_ok k s s' \<Longrightarrow> relay_inv s' \<and> revoked k (sv_db s')" for k s s'
  proof (unfold revoke_ok_def, elim exE)
    fix e actor
    assume inv: "relay_inv s" and r: "revokeDevice e k actor s = (Inr (), s')"
    obtain db where db: "RevokeDevice k (re_now e) (sv_db s) = Inr db"
      using r by (auto simp: revokeDevice_def split: sum.splits)
    have "keeps {} {} s s'" "hub_inv s'"
      using revokeDevice_keeps [of "{}" "{}" s e k actor] revokeDevice_inv [of s e k actor] inv r
      by (auto simp: relay_inv_def)
    moreover have "keeps {} {} (s\<lparr>sv_db := db\<rparr>) s'"
      using revokeDevice_tail [OF r db] .
    then have "revoked k (sv_db s')"
      using RevokeDevice_revoked [OF db] by (simp add: keeps_def db_keeps_def)
    ultimately show "relay_inv s' \<and> revoked k (sv_db s')"
      using inv by (auto simp: relay_inv_def keeps_def db_keeps_def)
  qed
  show "relay_inv s \<Longrightarrow> revoked k (sv_db s) \<Longrightarrow> quiet_step (\<lambda>ev. {}) k s s' \<Longrightarrow> relay_inv s' \<and> revoked k (sv_db s')"
    for k s s'
    using quiet_inv quiet_revoked by blast
  show "relay_inv s \<Longrightarrow> revoked k (sv_db s) \<Longrightarrow> \<not> authenticates k s" for k s
    by (auto simp: authenticates_def agent_auth_def relay_inv_def db_ok_def revoked_not_found split: sum.splits)
qed

section \<open>Where a decision goes\<close>

definition agent_wire :: "relay \<Rightarrow> nat \<Rightarrow> wire option" where
  "agent_wire s k = map_option ac_wire (mget (sv_agents s) k)"

lemma agent_wire_fields:
  "agent_wire (client_push n x s) k = agent_wire s k" "agent_wire (try_db f s) k = agent_wire s k"
  "agent_wire (s\<lparr>sv_approvals := ap\<rparr>) k = agent_wire s k"
  by (simp_all add: agent_wire_def client_push_def try_db_def split: option.split sum.split)

text \<open>The message \<open>m\<close> is queued for the agent's connection \<open>n\<close>, and nothing for another.\<close>

definition queued_for :: "nat \<Rightarrow> msg \<Rightarrow> relay \<Rightarrow> relay \<Rightarrow> bool" where
  "queued_for n m s s' \<longleftrightarrow> (\<forall>k. agent_wire s' k =
     (if k = n then map_option (wire_send agentQueueLen (RText m)) (agent_wire s k) else agent_wire s k))"

lemma agent_push_queues: "queued_for n m s (agent_push n (RText m) s)"
  by (cases "mget (sv_agents s) n") (auto simp: queued_for_def agent_wire_def agent_push_def)

lemma agent_wire_broadcast [simp]: "agent_wire (broadcast m s) k = agent_wire s k"
proof -
  have "agent_wire (fold (\<lambda>n. client_push n (RText m)) ns t) k = agent_wire t k" for ns t
    by (induction ns arbitrary: t) (simp_all add: agent_wire_fields)
  then show ?thesis by (simp add: broadcast_def)
qed

definition decide_msg :: "string \<Rightarrow> string \<Rightarrow> string \<Rightarrow> string \<Rightarrow> string \<Rightarrow> string \<Rightarrow> approval \<Rightarrow> msg" where
  "decide_msg key decision actor did req cid a = (Msg0 TApprovalDecide)\<lparr>m_req_id := req, m_device_id := did,
     m_client_id := cid, m_sid := ap_sid a, m_key := key, m_decision := decision, m_by := actor\<rparr>"

lemma apply_decision_queues:
  "queued_for n (decide_msg key dec actor did req cid a) s (apply_decision e key dec actor did req cid n a s)"
proof -
  define t where "t = try_db (SetApprovalStatus key (if dec = ''deny'' then ApprovalDenied else ApprovalAllowed)
      actor (re_now e)) (s\<lparr>sv_approvals := mput key (a\<lparr>ap_status := if dec = ''deny'' then ApprovalDenied
      else ApprovalAllowed, ap_decided_by := actor, ap_decided_at := Some (re_now e)\<rparr>) (sv_approvals s)\<rparr>)"
  have "agent_wire t k = agent_wire s k" for k
    by (simp add: t_def agent_wire_fields)
  moreover have "agent_wire (apply_decision e key dec actor did req cid n a s) k
      = agent_wire (agent_push n (RText (decide_msg key dec actor did req cid a)) t) k" for k
    by (simp add: apply_decision_def Let_def agent_sendMsg_def audit_def agent_wire_fields decide_msg_def t_def)
  ultimately show ?thesis
    using agent_push_queues [of n _ t] by (simp add: queued_for_def)
qed

lemma cached_approval_wire:
  "cached_approval key s = Some (a, s') \<Longrightarrow> agent_wire s' k = agent_wire s k \<and> device_conn did s' = device_conn did s"
  by (auto simp: cached_approval_def agent_wire_fields device_conn_def split: option.splits sum.splits)

lemma relay_run_append: "relay_run a evs b \<Longrightarrow> relay_run b evs' c \<Longrightarrow> relay_run a (evs @ evs') c"
  by (induction rule: relay_run.induct) (auto intro: relay_run.intros)

lemma reachable_fold:
  assumes "relay_reachable cfg s" and "all_possible evs s"
  shows "relay_reachable cfg (fold perform evs s)"
  using assms(1) relay_run_append [OF _ run_fold [OF assms(2)]] unfolding relay_reachable_def by blast

definition reply_status :: "reply \<Rightarrow> nat option" where
  "reply_status r = (case r of Reply x \<Rightarrow> Some (rs_status x) | Panic \<Rightarrow> None)"

lemma reply_status_Some: "reply_status r = Some n \<longleftrightarrow> (\<exists>x. r = Reply x \<and> rs_status x = n)"
  by (cases r) (simp_all add: reply_status_def)

section \<open>Demonstrations\<close>

definition demo_approval :: approval where
  "demo_approval = \<lparr>ap_key = ''k1'', ap_sid = 7, ap_device_id = '''', ap_agent = ''claude'', ap_tool = ''Bash'',
     ap_summary = ''ls'', ap_input = '''', ap_cwd = '''', ap_level = LevelHook, ap_mode = ApprovalRemoteFirst,
     ap_created_at = 0, ap_hook_timeout_at = None, ap_status = ApprovalPending, ap_decided_by = '''',
     ap_decided_at = None\<rparr>"

definition demo_asked :: relay where
  "demo_asked = fold perform
     [AgentRead demo_relay_env 0 (InText ((Msg0 TApprovalNew)\<lparr>m_approval := Some demo_approval\<rparr>))] demo_relay"

definition demo_decided :: relay where
  "demo_decided = snd (decideApproval demo_relay_env ''k1'' ''allow'' ''web:u'' '''' ''r'' ''c-'' demo_asked)"

lemma demo_asked_reachable: "relay_reachable demo_config demo_asked"
  unfolding demo_asked_def by (rule reachable_fold [OF demo_reachable]) (simp add: possible_def)

lemma demo_decide:
  "decideApproval demo_relay_env ''k1'' ''allow'' ''web:u'' '''' ''r'' ''c-'' demo_asked = (Inr (), demo_decided)"
  by code_simp

lemma run_Sweep: "relay_run s [Sweep t] (perform (Sweep t) s)"
  using run_fold [of "[Sweep t]" s] by (simp add: possible_def)

text \<open>The device presents the token whose digest its row holds.\<close>

definition demo_request :: http_request where
  "demo_request = \<lparr>rq_xff = '''', rq_real_ip = '''', rq_remote_addr = '''', rq_remote_host = Some ''10.0.0.1'',
     rq_cookie = None, rq_authorization = ''Bearer t'', rq_query_token = '''', rq_tls = True,
     rq_forwarded_proto = ''''\<rparr>"

definition demo_code_db :: database where
  "demo_code_db = empty_db\<lparr>db_pair_codes := [(''BCDEFGHJ'', \<lparr>pr_created_at = '''',
     pr_expires_at = ''2024'', pr_used_at = None, pr_attempts = 0\<rparr>)],
     db_devices := [(''dev_9'', \<lparr>dr_name = ''n'', dr_os = '''', dr_agent_version = '''',
     dr_token_hash = hex_encode (bytes_of ''t''), dr_pubkey = '''', dr_fingerprint = '''', dr_created_at = '''', dr_last_seen = '''',
     dr_revoked_at = None\<rparr>)]\<rparr>"

definition demo_coded :: relay where
  "demo_coded = (case New demo_config demo_code_db of Inr s \<Rightarrow> s | Inl _ \<Rightarrow> undefined)"

lemma demo_coded_eq: "New demo_config demo_code_db = Inr demo_coded"
  by code_simp

lemma demo_code_db_ok: "db_ok demo_code_db"
  by code_simp

lemma demo_coded_reachable: "relay_reachable demo_config demo_coded"
  using demo_code_db_ok demo_coded_eq run_Nil unfolding relay_reachable_def by blast

definition demo_redeem :: redeem_request where
  "demo_redeem = \<lparr>rd_code = '' bcde-fghj'', rd_name = ''laptop'', rd_os = ''linux'', rd_agent_version = '''',
     rd_pubkey = ''''\<rparr>"

definition demo_redeemed :: "reply \<times> relay" where
  "demo_redeemed = handlePairRedeem demo_relay_env demo_request (Inr demo_redeem) demo_coded"

lemma demo_redeemed_ok: "reply_status (fst demo_redeemed) = Some 200"
  by code_simp

definition demo_revoked :: relay where
  "demo_revoked = snd (revokeDevice demo_relay_env ''dev_9'' ''web:u'' demo_coded)"

lemma demo_revoke: "revokeDevice demo_relay_env ''dev_9'' ''web:u'' demo_coded = (Inr (), demo_revoked)"
  by code_simp

lemma demo_auth: "map_option dv_id (agent_auth demo_relay_env demo_request demo_coded) = Some ''dev_9''"
  by code_simp

section \<open>Properties\<close>



text \<open>C17: A device that was revoked never authenticates again, with whatever token and whatever the
  relay does in between, failures of the database included.\<close>

theorem revoked_device_stays_out:
  assumes "relay_reachable cfg s" and "revokeDevice e did actor s = (Inr (), s1)" and "relay_run s1 evs s2"
  shows "map_option dv_id (agent_auth e' r s2) \<noteq> Some did"
proof -
  have "revoke_ok did s s1"
    using assms(2) unfolding revoke_ok_def by blast
  from revocations.never_again [OF reachable_inv [OF assms(1)] this run_quiet [OF assms(3)]]
  show ?thesis unfolding authenticates_def by auto
qed

theorem revoked_device_stays_out_witness:
  "map_option dv_id (agent_auth demo_relay_env demo_request demo_coded) = Some ''dev_9''
   \<and> map_option dv_id (agent_auth demo_relay_env demo_request (perform (Sweep 0) demo_revoked)) \<noteq> Some ''dev_9''"
  by (rule conjI [OF demo_auth revoked_device_stays_out [OF demo_coded_reachable demo_revoke run_Sweep]])

text \<open>A pairing request that is answered with a token has redeemed its code.\<close>

lemma limiter_locked_db: "limiter_locked now key s = (b, s') \<Longrightarrow> sv_db s' = sv_db s"
  by (auto simp: limiter_locked_def split: prod.splits)

lemma redeem_code_ok:
  assumes "redeem_code e ip code req s = (Reply x, s')" and "rs_status x = 200"
  shows "\<exists>db. RedeemPairCode code (re_now e) (sv_db s) = Inr db \<and> keeps {} {} (s\<lparr>sv_db := db\<rparr>) s'"
proof (cases "RedeemPairCode code (re_now e) (sv_db s)")
  case (Inr db)
  define s1 where "s1 = limiter_reset (''pair:ip:'' @ ip) (s\<lparr>sv_db := db\<rparr>)"
  have "redeem_device e ip req s1 = (Reply x, s')"
    using assms Inr by (auto simp: redeem_code_def redeem_failed_def writeError_def writeJSON_def Let_def s1_def
        split: if_splits)
  then have "keeps {} {} s1 s'"
    using redeem_device_safe [of "{}" s1 e ip req] by (simp add: safe_def)
  moreover have "keeps {} {} (s\<lparr>sv_db := db\<rparr>) s1" by (simp add: s1_def)
  ultimately show ?thesis using Inr keeps_trans by blast
qed (use assms in \<open>auto simp: redeem_code_def redeem_failed_def writeErr_def writeError_def writeJSON_def Let_def
    split: if_splits store_error.splits\<close>)

lemma redeem_request_ok:
  assumes "handlePairRedeem e r (Inr req) s = (Reply x, s')" and "rs_status x = 200"
  shows "\<exists>t db. redeem_ok (normalizePairCode (re_upper e) (rd_code req)) s t \<and> keeps {} {} t s'
    \<and> RedeemPairCode (normalizePairCode (re_upper e) (rd_code req)) (re_now e) (sv_db s) = Inr db"
proof -
  define code where "code = normalizePairCode (re_upper e) (rd_code req)"
  obtain il s1 where l1: "limiter_locked (re_now e) (''pair:ip:'' @ clientIP r) s = (il, s1)" by fastforce
  obtain cl s2 where l2: "(if il then (False, s1)
      else limiter_locked (re_now e) (''pair:code:'' @ code) s1) = (cl, s2)" by fastforce
  have "redeem_code e (clientIP r) code req s2 = (Reply x, s')"
    using assms l1 l2
    by (auto simp: handlePairRedeem_def with_body_def Let_def writeError_def writeJSON_def code_def
        split: if_splits prod.splits)
  from redeem_code_ok [OF this assms(2)] obtain db
    where db: "RedeemPairCode code (re_now e) (sv_db s2) = Inr db" "keeps {} {} (s2\<lparr>sv_db := db\<rparr>) s'"
    by blast
  have "books s1 = books s"
    using l1 by (auto simp: limiter_locked_def books_update split: prod.splits)
  moreover have "books s2 = books s1"
    using l2 by (auto simp: limiter_locked_def books_update split: prod.splits if_splits)
  ultimately have same: "books s2 = books s" by simp
  then have "sv_db s2 = sv_db s" by (simp add: books_def)
  moreover have "keeps {} {} (s\<lparr>sv_db := db\<rparr>) s'"
  proof -
    have "books (s2\<lparr>sv_db := db\<rparr>) = books (s\<lparr>sv_db := db\<rparr>)"
      using same by (simp add: books_def)
    from keeps_books [OF this, of "{}" "{}" "s\<lparr>sv_db := db\<rparr>"] db(2) show ?thesis
      using keeps_trans by blast
  qed
  ultimately show ?thesis
    using db(1) unfolding redeem_ok_def code_def by metis
qed

text \<open>C16: A pairing code buys one device: once a request with the code has been answered with a token,
  no later request whose code reads the same is, unless the console issues the same code
  again.\<close>

theorem pairing_code_redeemed_once:
  assumes "relay_reachable cfg s"
    and "handlePairRedeem e r (Inr req) s = (Reply x, s1)" and "rs_status x = 200"
    and "relay_run s1 evs s2"
    and "\<forall>ev \<in> set evs. normalizePairCode (re_upper e) (rd_code req) \<notin> issued ev"
    and "handlePairRedeem e' r' (Inr req') s2 = (Reply x', s3)"
    and "normalizePairCode (re_upper e') (rd_code req') = normalizePairCode (re_upper e) (rd_code req)"
  shows "rs_status x' \<noteq> 200"
proof
  assume ok: "rs_status x' = 200"
  define code where "code = normalizePairCode (re_upper e) (rd_code req)"
  have inv: "relay_inv s" using reachable_inv [OF assms(1)] .
  obtain t where t: "redeem_ok code s t" "keeps {} {} t s1"
    using redeem_request_ok [OF assms(2,3)] by (auto simp: code_def)
  have spent: "relay_inv t \<and> spent_code code (sv_db t)"
    using codes.spend_spent [OF inv t(1)] .
  have inv1: "relay_inv s1"
    using perform_inv [of "Serve e r (ReqPairRedeem (Inr req))" s] inv assms(2)
    by (simp add: possible_def perform_def serve_def)
  moreover have "spent_code code (sv_db s1)"
    using spent t(2) by (auto simp: keeps_def db_keeps_def relay_inv_def)
  ultimately have "\<not> (\<exists>s'. redeem_ok code s2 s')"
    using codes.steps_spent [OF run_quiet [OF assms(4)]] codes.spent_unusable assms(5) by (simp add: code_def)
  moreover obtain t' where "redeem_ok code s2 t'"
    using redeem_request_ok [OF assms(6) ok] assms(7) by (auto simp: code_def)
  ultimately show False by blast
qed

theorem pairing_code_redeemed_once_witness:
  "reply_status (fst demo_redeemed) = Some 200
   \<and> reply_status (fst (handlePairRedeem demo_relay_env demo_request (Inr demo_redeem) (perform (Sweep 0) (snd demo_redeemed))))
     \<noteq> Some 200"
proof -
  obtain x where x: "handlePairRedeem demo_relay_env demo_request (Inr demo_redeem) demo_coded = (Reply x, snd demo_redeemed)"
      "rs_status x = 200"
    using demo_redeemed_ok unfolding reply_status_Some demo_redeemed_def by (metis prod.collapse)
  have "rs_status x' \<noteq> 200" if "handlePairRedeem demo_relay_env demo_request (Inr demo_redeem)
      (perform (Sweep 0) (snd demo_redeemed)) = (Reply x', s3)" for x' s3
    by (rule pairing_code_redeemed_once [OF demo_coded_reachable x run_Sweep _ that refl]) (simp add: issued_def)
  then show ?thesis
    unfolding reply_status_Some using demo_redeemed_ok [unfolded reply_status_Some] by (metis prod.collapse)
qed

text \<open>C18: A pairing code is accepted only if it is there, unused, and less than a second past its expiry:
  the texts that the database compares tell whole seconds apart. Up to the second of its expiry
  it is accepted.\<close>

theorem pairing_code_expires:
  assumes "mget (db_pair_codes (sv_db s)) code = Some row" and "pr_expires_at row = fmtTime expires"
    and "expires \<noteq> 0" and "re_now e \<noteq> 0" and "in_years (expires div second)" and "in_years (re_now e div second)"
    and "code = normalizePairCode (re_upper e) (rd_code req)"
  shows "(handlePairRedeem e r (Inr req) s = (Reply x, s1) \<and> rs_status x = 200
      \<longrightarrow> pr_used_at row = None \<and> re_now e < expires + second)
    \<and> (pr_used_at row = None \<and> re_now e div second < expires div second \<and> \<not> db_fault (sv_db s)
      \<longrightarrow> (\<exists>db. RedeemPairCode code (re_now e) (sv_db s) = Inr db))"
proof (intro conjI impI)
  assume ok: "handlePairRedeem e r (Inr req) s = (Reply x, s1) \<and> rs_status x = 200"
  then obtain db where "RedeemPairCode code (re_now e) (sv_db s) = Inr db"
    using redeem_request_ok assms(7) by blast
  then have "pr_used_at row = None" and less: "fmtTime (re_now e) < fmtTime expires"
    using assms(1,2) by (auto simp: RedeemPairCode_def update_row_Some split: option.splits)
  then show "pr_used_at row = None" by simp
  show "re_now e < expires + second"
    using fmtTime_less_bound [OF less assms(4,3,6,5)] .
next
  assume soon: "pr_used_at row = None \<and> re_now e div second < expires div second \<and> \<not> db_fault (sv_db s)"
  then have "fmtTime (re_now e) < fmtTime expires"
    using fmtTime_less [OF assms(4,3,6,5)] by simp
  then show "\<exists>db. RedeemPairCode code (re_now e) (sv_db s) = Inr db"
    using soon assms(1,2) by (auto simp: RedeemPairCode_def update_row_def)
qed

theorem pairing_code_expires_witness:
  "\<exists>db. RedeemPairCode ''BCDEFGHJ'' (5 * second) (empty_db\<lparr>db_pair_codes := [(''BCDEFGHJ'',
     \<lparr>pr_created_at = '''', pr_expires_at = fmtTime (9 * second), pr_used_at = None, pr_attempts = 0\<rparr>)]\<rparr>) = Inr db"
proof -
  let ?db = "empty_db\<lparr>db_pair_codes := [(''BCDEFGHJ'',
     \<lparr>pr_created_at = '''', pr_expires_at = fmtTime (9 * second), pr_used_at = None, pr_attempts = 0\<rparr>)]\<rparr>"
  have years: "in_years (9 * second div second)" "in_years (re_now (demo_relay_env\<lparr>re_now := 5 * second\<rparr>) div second)"
    by code_simp+
  have code: "''BCDEFGHJ'' = normalizePairCode (re_upper (demo_relay_env\<lparr>re_now := 5 * second\<rparr>)) (rd_code demo_redeem)"
    by code_simp
  have row: "mget (db_pair_codes (sv_db (demo_coded\<lparr>sv_db := ?db\<rparr>))) ''BCDEFGHJ'' =
      Some \<lparr>pr_created_at = '''', pr_expires_at = fmtTime (9 * second), pr_used_at = None, pr_attempts = 0\<rparr>"
    by (simp add: mget_def)
  show ?thesis
    using conjunct2 [OF pairing_code_expires [OF row _ _ _ years code]]
    by (simp add: duration_defs empty_db_def)
qed

end
