(* ===== verification/RelayDatabase.thy ===== *)
theory RelayDatabase
  imports RelayOnce
begin

text \<open>
  What the relay's tables look like after any run from a start on a well-formed database, and that
  the audit log only grows.
\<close>

lemma run_audit: "relay_run s evs s' \<Longrightarrow> prefix (db_audit (sv_db s)) (db_audit (sv_db s'))"
proof (induction rule: relay_run.induct)
  case (run_Cons s ev s' evs s'')
  have "prefix (db_audit (sv_db s)) (db_audit (sv_db s'))"
    using run_Cons.hyps(1) perform_keeps [of ev s] by (auto simp: relay_step_iff keeps_def db_keeps_def)
  then show ?case using run_Cons.IH by (rule prefix_order.order_trans)
qed simp

lemma cached_device_row:
  "relay_inv s \<Longrightarrow> mget (sv_devices s) did \<noteq> None \<Longrightarrow> mget (db_devices (sv_db s)) did \<noteq> None"
  by (auto simp: relay_inv_def rows_ok_def)

text \<open>C19: The relay keeps its database well-formed and its audit log append-only: in every state it
  reaches, each table has one row per key, every device it holds in memory has its row, the row
  of a revoked device has no token digest left, the audit entries are numbered strictly upwards
  and not past the counter; and over any further run the audit log is only extended at its end.\<close>

theorem database_well_formed:
  assumes "relay_reachable cfg s" and "relay_run s evs s'"
  shows "mwf (db_devices (sv_db s')) \<and> mwf (db_pair_codes (sv_db s')) \<and> mwf (db_approvals (sv_db s'))
    \<and> mwf (db_settings (sv_db s'))
    \<and> (\<forall>did. mget (sv_devices s') did \<noteq> None \<longrightarrow> mget (db_devices (sv_db s')) did \<noteq> None)
    \<and> (\<forall>did r. mget (db_devices (sv_db s')) did = Some r \<longrightarrow> dr_revoked_at r \<noteq> None \<longrightarrow> dr_token_hash r = '''')
    \<and> sorted_wrt (<) (map au_id (db_audit (sv_db s')))
    \<and> (\<forall>r \<in> set (db_audit (sv_db s')). au_id r \<le> db_audit_seq (sv_db s'))
    \<and> prefix (db_audit (sv_db s)) (db_audit (sv_db s'))"
proof -
  have inv: "relay_inv s'"
    using run_inv [OF assms(2)] reachable_inv [OF assms(1)] .
  then have ok: "db_wf (sv_db s')" "list_all revoked_blank (db_devices (sv_db s'))" "audit_ok (sv_db s')"
    by (auto simp: relay_inv_def db_ok_def)
  moreover have "dr_token_hash r = ''''"
    if "mget (db_devices (sv_db s')) did = Some r" "dr_revoked_at r \<noteq> None" for did r
    using list_all_mget [OF ok(2) that(1)] that(2) by (simp add: revoked_blank_def)
  ultimately show ?thesis
    using cached_device_row [OF inv] run_audit [OF assms(2)] by (auto simp: db_wf_def audit_ok_def list_all_iff)
qed

definition demo_wrong_logins :: "relay_event list" where
  "demo_wrong_logins = replicate 2 (Serve demo_relay_env demo_request (ReqLogin (Inr ''guess'')))"

theorem database_well_formed_witness:
  "map au_id (db_audit (sv_db (fold perform demo_wrong_logins demo_coded))) = [1, 2]
   \<and> prefix (db_audit (sv_db demo_coded)) (db_audit (sv_db (fold perform demo_wrong_logins demo_coded)))"
proof
  have "relay_run demo_coded demo_wrong_logins (fold perform demo_wrong_logins demo_coded)"
    by (rule run_fold) (simp add: demo_wrong_logins_def possible_def numeral_2_eq_2)
  from database_well_formed [OF demo_coded_reachable this]
  show "prefix (db_audit (sv_db demo_coded)) (db_audit (sv_db (fold perform demo_wrong_logins demo_coded)))"
    by blast
qed code_simp

end
