(* ===== verification/RelayGuard.thy ===== *)
theory RelayGuard
  imports RelayOnce
begin

text \<open>
  How many guesses the relay's lock-out admits (\<^verbatim>\<open>lockout\<close> in \<^verbatim>\<open>internal/relay/auth.go\<close> with
  \<^verbatim>\<open>handleLogin\<close> and \<^verbatim>\<open>handlePairRedeem\<close> in \<^verbatim>\<open>api.go\<close>). The counter of a key is a potential:
  every refused guess inside a window of the lock's length costs one of the attempts that are
  left, and no other operation of the relay gives any back.
\<close>

section \<open>The counter\<close>

definition lockout_ok :: "lockout \<Rightarrow> bool" where
  "lockout_ok l \<longleftrightarrow> 0 < lk_after l \<and> 0 < lk_for l
     \<and> (\<forall>k e. mget (lk_ents l) k = Some e \<longrightarrow> 0 \<le> le_fails e \<and> le_fails e < lk_after l)"

text \<open>The guesses that are left for a key until \<open>t0\<close> plus the lock's length.\<close>

definition guesses_left :: "instant \<Rightarrow> string \<Rightarrow> lockout \<Rightarrow> int" where
  "guesses_left t0 key l = (case mget (lk_ents l) key of
     None \<Rightarrow> lk_after l
   | Some e \<Rightarrow>
       if t0 + lk_for l \<le> le_locked_until e then 0
       else if t0 \<le> le_last_fail e then lk_after l - le_fails e
       else lk_after l)"

lemma guesses_left_bounds: "lockout_ok l \<Longrightarrow> 0 \<le> guesses_left t0 key l \<and> guesses_left t0 key l \<le> lk_after l"
  by (auto simp: lockout_ok_def guesses_left_def split: option.split) fastforce+

lemma not_stale: "now < t0 + d \<Longrightarrow> t0 \<le> prev \<Longrightarrow> 0 < d \<Longrightarrow> \<not> d < time_sub now prev"
  by (auto simp: time_sub_def)

lemma locked_params: "locked now key l = (b, l') \<Longrightarrow> lk_after l' = lk_after l \<and> lk_for l' = lk_for l"
  by (auto simp: locked_def split: option.splits if_splits)

lemma locked_other:
  "locked now k l = (b, l') \<Longrightarrow> k \<noteq> key \<Longrightarrow> mget (lk_ents l') key = mget (lk_ents l) key"
  by (auto simp: locked_def split: option.splits if_splits)

lemma lockout_ok_locked: "lockout_ok l \<Longrightarrow> locked now key l = (b, l') \<Longrightarrow> lockout_ok l'"
  by (auto simp: locked_def lockout_ok_def split: option.splits if_splits)

lemma lockout_ok_fail: "lockout_ok l \<Longrightarrow> lockout_ok (snd (lock_fail now key l))"
  by (auto simp: lock_fail_def lockout_ok_def Let_def split: option.splits)

lemma lockout_ok_reset: "lockout_ok l \<Longrightarrow> lockout_ok (lock_reset key l)"
  by (auto simp: lock_reset_def lockout_ok_def)

lemma fail_params: "lk_after (snd (lock_fail now key l)) = lk_after l" "lk_for (snd (lock_fail now key l)) = lk_for l"
  by (simp_all add: lock_fail_def Let_def)

lemma fail_other: "k \<noteq> key \<Longrightarrow> mget (lk_ents (snd (lock_fail now k l))) key = mget (lk_ents l) key"
  by (simp add: lock_fail_def Let_def)

text \<open>Asking whether a key is locked does not give guesses back inside the window.\<close>

lemma locked_left:
  assumes "lockout_ok l" and "locked now key l = (b, l')" and "now < t0 + lk_for l"
  shows "guesses_left t0 k l' = guesses_left t0 k l"
proof (cases "k = key")
  case True
  have "0 < lk_for l" using assms(1) by (simp add: lockout_ok_def)
  then show ?thesis
    using assms(2,3) not_stale [OF assms(3)] True
    by (auto simp: locked_def guesses_left_def split: option.splits if_splits)
next
  case False
  then show ?thesis
    using locked_other [OF assms(2), of k] locked_params [OF assms(2)]
    by (cases "mget (lk_ents l) k") (simp_all add: guesses_left_def)
qed

text \<open>A failure costs one, if the key was not locked.\<close>

lemma fail_left:
  assumes "lockout_ok l" and "locked now key l = (False, l1)" and "t0 \<le> now" and "now < t0 + lk_for l"
  shows "guesses_left t0 key (snd (lock_fail now key l1)) \<le> guesses_left t0 key l - 1"
proof -
  have ok: "lockout_ok l1" using lockout_ok_locked [OF assms(1,2)] .
  have par: "lk_after l1 = lk_after l" "lk_for l1 = lk_for l"
    using locked_params [OF assms(2)] by simp_all
  have open_key: "mget (lk_ents l1) key = Some e \<Longrightarrow> le_locked_until e \<le> now" for e
    using assms(2) by (auto simp: locked_def split: option.splits if_splits)
  have "guesses_left t0 key (snd (lock_fail now key l1)) \<le> guesses_left t0 key l1 - 1"
  proof (cases "mget (lk_ents l1) key")
    case None
    then show ?thesis
      using ok assms(3,4) by (auto simp: lock_fail_def guesses_left_def Let_def par lockout_ok_def)
  next
    case (Some e)
    have e: "0 \<le> le_fails e" "le_fails e < lk_after l1" "0 < lk_for l1" "le_locked_until e < t0 + lk_for l1"
      "0 < lk_after l1"
      using ok open_key [OF Some] Some assms(4) by (auto simp: lockout_ok_def par)
    show ?thesis
      using Some e assms(3,4) not_stale [of now t0 "lk_for l1" "le_last_fail e"]
      by (auto simp: lock_fail_def guesses_left_def Let_def par)
  qed
  then show ?thesis
    using locked_left [OF assms(1,2,4)] by simp
qed

section \<open>What leaves the counter alone\<close>

named_theorems limiter_frame "operations that leave the lock-out alone"

lemma limiter_push [limiter_frame]:
  "sv_limiter (agent_push n x s) = sv_limiter s" "sv_limiter (client_push n x s) = sv_limiter s"
  "sv_limiter (agent_closeNow n s) = sv_limiter s" "sv_limiter (client_closeNow n s) = sv_limiter s"
  "sv_limiter (agent_write n ok s) = sv_limiter s" "sv_limiter (client_write n ok s) = sv_limiter s"
  "sv_limiter (set_heartbeat n t s) = sv_limiter s" "sv_limiter (forgetSID sid s) = sv_limiter s"
  "sv_limiter (drop_attachment cid sid s) = sv_limiter s" "sv_limiter (set_attached n f s) = sv_limiter s"
  "sv_limiter (notifyApproval a dn sn s) = sv_limiter s" "sv_limiter (set_device did d s) = sv_limiter s"
  "sv_limiter (update_session did sid g s) = sv_limiter s" "sv_limiter (try_db h s) = sv_limiter s"
  by (simp_all add: agent_push_def client_push_def agent_closeNow_def client_closeNow_def agent_write_def
      client_write_def set_heartbeat_def forgetSID_def drop_attachment_def set_attached_def notifyApproval_def
      set_device_def update_session_def try_db_def Let_def split: option.split sum.split)

lemma limiter_fold: "(\<And>x s. sv_limiter (f x s) = sv_limiter s) \<Longrightarrow> sv_limiter (fold f xs s) = sv_limiter s"
  by (induction xs arbitrary: s) simp_all

lemma limiter_helpers [limiter_frame]:
  "sv_limiter (agent_sendMsg n m s) = sv_limiter s" "sv_limiter (client_sendMsg n m s) = sv_limiter s"
  "sv_limiter (client_sendError n r d i t s) = sv_limiter s" "sv_limiter (broadcast m s) = sv_limiter s"
  "sv_limiter (broadcastDeviceState did s) = sv_limiter s" "sv_limiter (broadcastDeviceList s) = sv_limiter s"
  "sv_limiter (broadcastSessionList did s) = sv_limiter s" "sv_limiter (audit e a d i act det s) = sv_limiter s"
  "sv_limiter (touchLastSeen did at os v s) = sv_limiter s"
  "sv_limiter (fold forgetSID sids s) = sv_limiter s" "sv_limiter (fold (drop_attachment cid) sids s) = sv_limiter s"
  "sv_limiter (fold (client_sendMsg n) ms s) = sv_limiter s" "sv_limiter (sweepOnce now s) = sv_limiter s"
  "sv_limiter (Close_server s) = sv_limiter s" "sv_limiter (fold (\<lambda>c. client_push c x) cs s) = sv_limiter s"
  by (simp_all add: agent_sendMsg_def client_sendMsg_def client_sendError_def broadcast_def audit_def
      touchLastSeen_def broadcastDeviceState_def broadcastDeviceList_def broadcastSessionList_def
      sweepOnce_def Close_server_def limiter_fold limiter_frame split: option.split)

lemma registerSID_limiter: "registerSID sid did s = (b, s') \<Longrightarrow> sv_limiter s' = sv_limiter s"
  by (auto simp: registerSID_def split: if_splits)

lemma hello_sessions_limiter: "fold (hello_session did) sis (fr, s) = (fr', s') \<Longrightarrow> sv_limiter s' = sv_limiter s"
proof (induction sis arbitrary: fr s)
  case (Cons si sis)
  obtain f1 s1 where h: "hello_session did si (fr, s) = (f1, s1)" by fastforce
  then have "sv_limiter s1 = sv_limiter s"
    by (auto simp: hello_session_def split: prod.splits bool.splits dest: registerSID_limiter)
  with Cons h show ?case by simp
qed simp

lemma agent_limiter [limiter_frame]:
  "sv_limiter (onHeartbeat e n did m raw s) = sv_limiter s" "sv_limiter (onSessionUpsert n did m s) = sv_limiter s"
  "sv_limiter (onSessionState did m s) = sv_limiter s" "sv_limiter (onSessionExited did m s) = sv_limiter s"
  "sv_limiter (onSessionClosed did m s) = sv_limiter s" "sv_limiter (onApprovalNew e did m s) = sv_limiter s"
  "sv_limiter (onApprovalClosed e m s) = sv_limiter s" "sv_limiter (onAgentHello e n did m s) = sv_limiter s"
  by (auto simp: onHeartbeat_def onSessionUpsert_def onSessionState_def onSessionExited_def onSessionClosed_def
      onApprovalNew_def onApprovalClosed_def onAgentHello_def limiter_frame Let_def
      dest: registerSID_limiter hello_sessions_limiter split: option.split prod.split bool.split)

lemma frame_limiter [limiter_frame]:
  "sv_limiter (handleAgentMsg e n did m s) = sv_limiter s"
  "sv_limiter (snd (routeAgentFrame did data s)) = sv_limiter s" "sv_limiter (snd (routeClientFrame n data s)) = sv_limiter s"
  by (auto simp: handleAgentMsg_def routeAgentFrame_def routeClientFrame_def limiter_frame Let_def
      split: msg_type.split option.split sum.split prod.split)

lemma route_limiter:
  "routeAgentFrame did data s = (ok, s') \<Longrightarrow> sv_limiter s' = sv_limiter s"
  "routeClientFrame n data s = (ok, s') \<Longrightarrow> sv_limiter s' = sv_limiter s"
  using frame_limiter(2) [of did data s] frame_limiter(3) [of n data s] by simp_all

lemma agent_events_limiter [limiter_frame]:
  "sv_limiter (agent_read e n x s) = sv_limiter s" "sv_limiter (agent_register e dev s) = sv_limiter s"
  "sv_limiter (agent_unregister n s) = sv_limiter s" "sv_limiter (agent_pong n ms s) = sv_limiter s"
  by (auto simp: agent_read_def agent_register_def agent_unregister_def agent_pong_def limiter_frame Let_def
      dest: route_limiter split: option.split wire_input.split prod.split)

lemma decide_limiter:
  "cached_approval key s = Some (a, s') \<Longrightarrow> sv_limiter s' = sv_limiter s"
  "sv_limiter (apply_decision e key dec actor did req cid n a s) = sv_limiter s"
  by (auto simp: cached_approval_def apply_decision_def limiter_frame Let_def split: option.splits sum.splits)

lemma decideApproval_limiter:
  "decideApproval e key dec actor hint req cid s = (r, s') \<Longrightarrow> sv_limiter s' = sv_limiter s"
  by (auto simp: decideApproval_def Let_def decide_limiter split: if_splits option.splits dest: decide_limiter(1))

lemma revokeDevice_limiter: "revokeDevice e did actor s = (r, s') \<Longrightarrow> sv_limiter s' = sv_limiter s"
  by (auto simp: revokeDevice_def Let_def limiter_frame split: sum.splits option.splits)

lemma client_messages_limiter [limiter_frame]:
  "sv_limiter (onAttach n cid m s) = sv_limiter s" "sv_limiter (onDetach n cid m s) = sv_limiter s"
  "sv_limiter (onForward e n actor m s) = sv_limiter s" "sv_limiter (onDecide e n cid actor m s) = sv_limiter s"
  by (auto simp: onAttach_def onDetach_def onForward_def onDecide_def limiter_frame Let_def
      dest: decideApproval_limiter split: option.split prod.split msg_type.split sum.split)

lemma client_events_limiter [limiter_frame]:
  "sv_limiter (client_read e n x s) = sv_limiter s" "sv_limiter (client_register raw ls s) = sv_limiter s"
  "sv_limiter (client_unregister n s) = sv_limiter s" "sv_limiter (snd (client_login e r s)) = sv_limiter s"
  by (auto simp: client_read_def handleClientMsg_def client_register_def client_unregister_def client_login_def
      limiter_frame Let_def dest: route_limiter
      split: option.split wire_input.split prod.split msg_type.split)

lemma client_login_limiter: "client_login e r s = (ls, s') \<Longrightarrow> sv_limiter s' = sv_limiter s"
  using client_events_limiter(4) [of e r s] by simp

lemma requireLogin_limiter:
  "(\<And>s. sv_limiter (snd (f s)) = sv_limiter s) \<Longrightarrow> sv_limiter (snd (requireLogin e r f s)) = sv_limiter s"
  by (auto simp: requireLogin_def split: prod.split option.split dest: client_login_limiter)

lemma try_codes_limiter: "try_codes mk cs s = (res, s') \<Longrightarrow> sv_limiter s' = sv_limiter s"
  by (induction mk cs s rule: try_codes.induct) (auto split: sum.splits if_splits)

lemma handlers_limiter:
  "sv_limiter (snd (handleHealth s)) = sv_limiter s" "sv_limiter (snd (handleLogout e r s)) = sv_limiter s"
  "sv_limiter (snd (handleMe e r s)) = sv_limiter s" "sv_limiter (snd (handlePairNew e r s)) = sv_limiter s"
  "sv_limiter (snd (handleDevices s)) = sv_limiter s" "sv_limiter (snd (handleDeviceRename e r did b1 s)) = sv_limiter s"
  "sv_limiter (snd (handleDeviceRevoke e r did s)) = sv_limiter s"
  "sv_limiter (snd (handleApprovals st lim s)) = sv_limiter s"
  "sv_limiter (snd (handleApprovalDecide e r key b2 s)) = sv_limiter s"
  "sv_limiter (snd (handleAudit lim s)) = sv_limiter s" "sv_limiter (snd (handleWebhookGet s)) = sv_limiter s"
  "sv_limiter (snd (handleWebhookPut e r b3 s)) = sv_limiter s"
  by (auto simp: handleHealth_def handleLogout_def handleMe_def handlePairNew_def handleDevices_def
      handleDeviceRename_def handleDeviceRevoke_def handleApprovals_def handleApprovalDecide_def handleAudit_def
      handleWebhookGet_def handleWebhookPut_def with_body_def rename_cached_def limiter_frame Let_def
      split: prod.splits option.splits sum.splits if_splits
      dest: client_login_limiter try_codes_limiter decideApproval_limiter revokeDevice_limiter)

text \<open>The two requests that ask the lock-out.\<close>

datatype gate = LoginGate | PairGate

definition gate_key :: "gate \<Rightarrow> string \<Rightarrow> string" where
  "gate_key g ip = (case g of LoginGate \<Rightarrow> ''login:'' | PairGate \<Rightarrow> ''pair:ip:'') @ ip"

definition guess :: "gate \<Rightarrow> api_request \<Rightarrow> bool" where
  "guess g q \<longleftrightarrow> (case q of
     ReqLogin (Inr _) \<Rightarrow> g = LoginGate
   | ReqPairRedeem (Inr _) \<Rightarrow> g = PairGate
   | _ \<Rightarrow> False)"

lemma guess_cases: "guess g q \<Longrightarrow> (\<exists>pw. q = ReqLogin (Inr pw)) \<or> (\<exists>req. q = ReqPairRedeem (Inr req))"
  by (auto simp: guess_def split: api_request.splits sum.splits)

datatype attempt = Refused | LockedOut | Passed

definition attempt_of :: "gate \<Rightarrow> nat option \<Rightarrow> attempt" where
  "attempt_of g st = (if st = Some 429 then LockedOut
     else if st = Some (case g of LoginGate \<Rightarrow> 401 | PairGate \<Rightarrow> 400) then Refused else Passed)"

definition attempt :: "gate \<Rightarrow> string \<Rightarrow> relay_event \<Rightarrow> relay \<Rightarrow> (instant \<times> attempt) list" where
  "attempt g ip ev s = (case ev of
     Serve e r q \<Rightarrow>
       if clientIP r = ip \<and> guess g q
       then [(re_now e, attempt_of g (reply_status (fst (serve e r q s))))] else []
   | _ \<Rightarrow> [])"

fun attempts :: "gate \<Rightarrow> string \<Rightarrow> relay_event list \<Rightarrow> relay \<Rightarrow> (instant \<times> attempt) list" where
  "attempts g ip [] s = []"
| "attempts g ip (ev # evs) s = attempt g ip ev s @ attempts g ip evs (perform ev s)"

lemma serve_limiter:
  "\<forall>g. \<not> guess g q \<Longrightarrow> sv_limiter (snd (serve e r q s)) = sv_limiter s"
  by (cases q)
    (auto simp: serve_def guess_def handleLogin_def handlePairRedeem_def with_body_def
      intro!: handlers_limiter requireLogin_limiter split: sum.splits)

lemma perform_limiter:
  "(\<And>e r q. ev = Serve e r q \<Longrightarrow> \<forall>g. \<not> guess g q) \<Longrightarrow> sv_limiter (perform ev s) = sv_limiter s"
  by (cases ev) (simp_all add: perform_def limiter_frame serve_limiter)

section \<open>What a guess costs\<close>

lemma left_cong:
  "lk_after l' = lk_after l \<Longrightarrow> lk_for l' = lk_for l \<Longrightarrow> mget (lk_ents l') k = mget (lk_ents l) k
   \<Longrightarrow> guesses_left t0 k l' = guesses_left t0 k l"
  by (cases "mget (lk_ents l) k") (simp_all add: guesses_left_def)

lemma locked_left_other: "locked now k l = (b, l') \<Longrightarrow> k \<noteq> key \<Longrightarrow> guesses_left t0 key l' = guesses_left t0 key l"
  using locked_params locked_other by (blast intro: left_cong)

lemma fail_left_other: "k \<noteq> key \<Longrightarrow> guesses_left t0 key (snd (lock_fail now k l)) = guesses_left t0 key l"
  by (rule left_cong) (simp_all add: fail_params fail_other)

lemma reset_left_other: "k \<noteq> key \<Longrightarrow> guesses_left t0 key (lock_reset k l) = guesses_left t0 key l"
  by (rule left_cong) (simp_all add: lock_reset_def)

lemma reset_params: "lk_after (lock_reset k l) = lk_after l" "lk_for (lock_reset k l) = lk_for l"
  by (simp_all add: lock_reset_def)

lemma reply_status_simps [simp]:
  "reply_status (writeError st text) = Some st" "reply_status (writeJSON st b) = Some st"
  "reply_status (setSessionCookie r tok age rep) = reply_status rep"
  by (simp_all add: reply_status_def writeError_def writeJSON_def setSessionCookie_def split: reply.split)

lemma login_cases:
  assumes "handleLogin e r (Inr pw) s = (rep, s')" and "locked (re_now e) (gate_key LoginGate (clientIP r)) (sv_limiter s) = (b, l1)"
  shows "b \<and> reply_status rep = Some 429 \<and> sv_limiter s' = l1
    \<or> \<not> b \<and> reply_status rep = Some 401
        \<and> sv_limiter s' = snd (lock_fail (re_now e) (gate_key LoginGate (clientIP r)) l1)
    \<or> \<not> b \<and> reply_status rep = Some 200 \<and> sv_limiter s' = lock_reset (gate_key LoginGate (clientIP r)) l1"
  using assms
  by (auto simp: handleLogin_def with_body_def limiter_locked_def limiter_fail_def limiter_reset_def gate_key_def
      limiter_frame Let_def split: bool.splits if_splits prod.splits)

lemma redeem_device_limiter: "redeem_device e ip req s = (rep, s') \<Longrightarrow>
  sv_limiter s' = sv_limiter s \<and> reply_status rep \<noteq> Some 400 \<and> reply_status rep \<noteq> Some 429"
  by (auto simp: redeem_device_def newDeviceToken_def writeErr_def limiter_frame Let_def CreateDevice_def
      split: sum.splits store_error.splits prod.splits)

lemma redeem_code_cases:
  assumes "redeem_code e ip code req s = (rep, s')"
  shows "reply_status rep = Some 400 \<and> sv_limiter s' = snd (lock_fail (re_now e) (''pair:code:'' @ code)
        (snd (lock_fail (re_now e) (gate_key PairGate ip) (sv_limiter s))))
    \<or> reply_status rep \<noteq> Some 400 \<and> reply_status rep \<noteq> Some 429
       \<and> sv_limiter s' \<in> {sv_limiter s, lock_reset (gate_key PairGate ip) (sv_limiter s)}"
  using assms redeem_device_limiter [of e ip req _ rep s']
  by (auto simp: redeem_code_def redeem_failed_def limiter_fail_def limiter_reset_def gate_key_def writeErr_def
      limiter_frame Let_def split: if_splits sum.splits store_error.splits)

lemma pair_cases:
  assumes "handlePairRedeem e r (Inr req) s = (rep, s')"
  obtains (ip_locked) l1 where "locked (re_now e) (gate_key PairGate (clientIP r)) (sv_limiter s) = (True, l1)"
      "reply_status rep = Some 429" "sv_limiter s' = l1"
    | (open_ip) c l1 b l2 where "locked (re_now e) (gate_key PairGate (clientIP r)) (sv_limiter s) = (False, l1)"
      "locked (re_now e) (''pair:code:'' @ c) l1 = (b, l2)"
      "b \<and> reply_status rep = Some 429 \<and> sv_limiter s' = l2
       \<or> \<not> b \<and> reply_status rep = Some 400 \<and> sv_limiter s' = snd (lock_fail (re_now e) (''pair:code:'' @ c)
             (snd (lock_fail (re_now e) (gate_key PairGate (clientIP r)) l2)))
       \<or> \<not> b \<and> reply_status rep \<noteq> Some 400 \<and> reply_status rep \<noteq> Some 429
          \<and> sv_limiter s' \<in> {l2, lock_reset (gate_key PairGate (clientIP r)) l2}"
proof -
  define c where "c = normalizePairCode (re_upper e) (rd_code req)"
  obtain bi l1 where l1: "locked (re_now e) (gate_key PairGate (clientIP r)) (sv_limiter s) = (bi, l1)" by fastforce
  obtain b l2 where l2: "locked (re_now e) (''pair:code:'' @ c) l1 = (b, l2)" by fastforce
  show thesis
  proof (cases bi)
    case True
    then show thesis
      using ip_locked l1 assms
      by (auto simp: handlePairRedeem_def with_body_def limiter_locked_def gate_key_def Let_def)
  next
    case False
    then have "(if b then (writeError 429 ''too many failed attempts, locked for 15 minutes'', s\<lparr>sv_limiter := l2\<rparr>)
        else redeem_code e (clientIP r) c req (s\<lparr>sv_limiter := l2\<rparr>)) = (rep, s')"
      using assms l1 l2
      by (cases b) (simp_all add: handlePairRedeem_def with_body_def limiter_locked_def gate_key_def Let_def c_def)
    then show thesis
      using open_ip [OF _ l2] l1 False redeem_code_cases [of e "clientIP r" c req "s\<lparr>sv_limiter := l2\<rparr>" rep s']
      by (auto split: if_splits)
  qed
qed

definition refused :: "(instant \<times> attempt) list \<Rightarrow> int" where
  "refused as = int (length (filter (\<lambda>(t, a). a = Refused) as))"

lemma refused_if: "refused (if c then [(t, a)] else []) = (if c \<and> a = Refused then 1 else 0)"
  by (simp add: refused_def)

definition within :: "instant \<Rightarrow> duration \<Rightarrow> (instant \<times> attempt) list \<Rightarrow> bool" where
  "within t0 d as \<longleftrightarrow> (\<forall>(t, a) \<in> set as. t0 \<le> t \<and> t < t0 + d \<and> a \<noteq> Passed)"

text \<open>What one event does to the guesses that are left.\<close>

definition pays :: "instant \<Rightarrow> string \<Rightarrow> int \<Rightarrow> lockout \<Rightarrow> lockout \<Rightarrow> bool" where
  "pays t0 key n l l' \<longleftrightarrow> lockout_ok l' \<and> lk_after l' = lk_after l \<and> lk_for l' = lk_for l
     \<and> guesses_left t0 key l' + n \<le> guesses_left t0 key l"

lemma pays_refl: "lockout_ok l \<Longrightarrow> pays t0 key 0 l l"
  by (simp add: pays_def)

lemma pays_trans: "pays t0 key m a b \<Longrightarrow> pays t0 key n b c \<Longrightarrow> pays t0 key (m + n) a c"
  by (simp add: pays_def)

lemma pays_locked:
  assumes "lockout_ok l" and "locked now k l = (b, l')" and "k \<noteq> key \<or> now < t0 + lk_for l"
  shows "pays t0 key 0 l l'"
  using assms lockout_ok_locked [OF assms(1,2)] locked_params [OF assms(2)] locked_left_other [OF assms(2)]
    locked_left [OF assms(1,2)]
  unfolding pays_def by auto

lemma pays_fail_other: "lockout_ok l \<Longrightarrow> k \<noteq> key \<Longrightarrow> pays t0 key 0 l (snd (lock_fail now k l))"
  by (simp add: pays_def lockout_ok_fail fail_params fail_left_other)

lemma pays_reset_other: "lockout_ok l \<Longrightarrow> k \<noteq> key \<Longrightarrow> pays t0 key 0 l (lock_reset k l)"
  by (simp add: pays_def lockout_ok_reset reset_params reset_left_other)

lemma pays_fail:
  assumes "lockout_ok l" and "locked now key l = (False, l1)" and "t0 \<le> now" and "now < t0 + lk_for l"
  shows "pays t0 key 1 l (snd (lock_fail now key l1))"
  using fail_left [OF assms] lockout_ok_fail [OF lockout_ok_locked [OF assms(1,2)]] locked_params [OF assms(2)]
  unfolding pays_def by (simp add: fail_params)

lemma fail_cong:
  "lk_after l' = lk_after l \<Longrightarrow> lk_for l' = lk_for l \<Longrightarrow> mget (lk_ents l') k = mget (lk_ents l) k
   \<Longrightarrow> guesses_left t0 k (snd (lock_fail now k l')) = guesses_left t0 k (snd (lock_fail now k l))"
  by (cases "mget (lk_ents l) k") (simp_all add: guesses_left_def lock_fail_def Let_def)

text \<open>A refused pairing code is a failure of the address, then of the code.\<close>

lemma pays_pair_fail:
  assumes "lockout_ok l" and "locked now k l = (False, l1)" and "locked now c l1 = (b, l2)"
    and "t0 \<le> now" and "now < t0 + lk_for l" and "c \<noteq> k"
  shows "pays t0 k 1 l (snd (lock_fail now c (snd (lock_fail now k l2))))"
proof -
  have ok: "lockout_ok l2" using assms(1-3) lockout_ok_locked by blast
  have par: "lk_after l2 = lk_after l1" "lk_for l2 = lk_for l1" "mget (lk_ents l2) k = mget (lk_ents l1) k"
    using locked_params [OF assms(3)] locked_other [OF assms(3,6)] by simp_all
  have "pays t0 k 1 l (snd (lock_fail now k l1))"
    using pays_fail [OF assms(1,2,4,5)] .
  then have "pays t0 k 1 l (snd (lock_fail now k l2))"
    using fail_cong [OF par, of t0 now] lockout_ok_fail [OF ok] par by (simp add: pays_def fail_params)
  then show ?thesis
    using pays_trans [OF _ pays_fail_other [OF lockout_ok_fail [OF ok] assms(6)]] by force
qed

lemma login_pays:
  assumes "lockout_ok (sv_limiter s)" and "within t0 (lk_for (sv_limiter s)) (attempt g ip (Serve e r (ReqLogin (Inr pw))) s)"
  shows "pays t0 (gate_key g ip) (refused (attempt g ip (Serve e r (ReqLogin (Inr pw))) s)) (sv_limiter s)
    (sv_limiter (snd (handleLogin e r (Inr pw) s)))"
proof -
  define l where "l = sv_limiter s"
  define k where "k = gate_key LoginGate (clientIP r)"
  obtain b l1 where l1: "locked (re_now e) k l = (b, l1)" by fastforce
  obtain rep s' where h: "handleLogin e r (Inr pw) s = (rep, s')" by fastforce
  note cases3 = login_cases [OF h l1 [unfolded k_def l_def], folded k_def]
  have att: "attempt g ip (Serve e r (ReqLogin (Inr pw))) s =
      (if clientIP r = ip \<and> g = LoginGate then [(re_now e, attempt_of g (reply_status rep))] else [])"
    by (auto simp: attempt_def guess_def serve_def h)
  show ?thesis
  proof (cases "clientIP r = ip \<and> g = LoginGate")
    case True
    then have key: "gate_key g ip = k" and win: "t0 \<le> re_now e" "re_now e < t0 + lk_for l"
        and "attempt_of g (reply_status rep) \<noteq> Passed"
      using assms(2) True unfolding att by (auto simp: within_def k_def l_def)
    then show ?thesis
      using cases3 True pays_locked [OF assms(1) l1 [unfolded l_def]] pays_fail [OF assms(1)] l1
      unfolding att refused_if h snd_conv key l_def by (auto simp: attempt_of_def)
  next
    case False
    then have key: "k \<noteq> gate_key g ip"
      by (cases g) (auto simp: k_def gate_key_def)
    have "pays t0 (gate_key g ip) 0 l l1"
      using pays_locked [OF _ l1] assms(1) key by (auto simp: l_def)
    moreover have "lockout_ok l1"
      using lockout_ok_locked [OF _ l1] assms(1) by (simp add: l_def)
    ultimately show ?thesis
      using cases3 False key pays_trans [of t0 "gate_key g ip" 0 l l1 0] pays_fail_other [of l1 k] pays_reset_other [of l1 k]
      unfolding att refused_if h snd_conv l_def by auto
  qed
qed

lemma pair_pays:
  assumes "lockout_ok (sv_limiter s)" and "within t0 (lk_for (sv_limiter s)) (attempt g ip (Serve e r (ReqPairRedeem (Inr req))) s)"
  shows "pays t0 (gate_key g ip) (refused (attempt g ip (Serve e r (ReqPairRedeem (Inr req))) s)) (sv_limiter s)
    (sv_limiter (snd (handlePairRedeem e r (Inr req) s)))"
proof -
  define l where "l = sv_limiter s"
  define k where "k = gate_key PairGate (clientIP r)"
  obtain rep s' where h: "handlePairRedeem e r (Inr req) s = (rep, s')" by fastforce
  have att: "attempt g ip (Serve e r (ReqPairRedeem (Inr req))) s =
      (if clientIP r = ip \<and> g = PairGate then [(re_now e, attempt_of g (reply_status rep))] else [])"
    by (auto simp: attempt_def guess_def serve_def h)
  have ok: "lockout_ok l" using assms(1) by (simp add: l_def)
  have code: "''pair:code:'' @ c \<noteq> gate_key g ip" for c
    by (simp add: gate_key_def split: gate.split)
  have key: "k = gate_key g ip \<longleftrightarrow> clientIP r = ip \<and> g = PairGate"
    by (cases g) (auto simp: k_def gate_key_def)
  then have own: "t0 \<le> re_now e \<and> re_now e < t0 + lk_for l \<and> attempt_of g (reply_status rep) \<noteq> Passed
      \<and> g = PairGate \<and> clientIP r = ip"
    if "k = gate_key g ip"
    using assms(2) that unfolding att by (simp add: within_def l_def)
  have at: "k \<noteq> gate_key g ip \<or> re_now e < t0 + lk_for l" using own by blast
  from h show ?thesis
  proof (cases rule: pair_cases)
    case (ip_locked l1)
    then show ?thesis
      using pays_locked [OF ok ip_locked(1) [folded k_def l_def] at]
      unfolding att refused_if h snd_conv l_def by (auto simp: attempt_of_def)
  next
    case (open_ip c l1 b l2)
    note l1 = open_ip(1) [folded k_def l_def]
    have ok1: "lockout_ok l1" using lockout_ok_locked [OF ok l1] .
    have ok2: "lockout_ok l2" using lockout_ok_locked [OF ok1 open_ip(2)] .
    have p2: "pays t0 (gate_key g ip) 0 l l2"
      using pays_trans [OF pays_locked [OF ok l1 at] pays_locked [OF ok1 open_ip(2)]] code by simp
    show ?thesis
    proof (cases "k = gate_key g ip")
      case True
      then have o: "t0 \<le> re_now e" "re_now e < t0 + lk_for l" "g = PairGate" "clientIP r = ip"
        "attempt_of g (reply_status rep) \<noteq> Passed"
        using own by blast+
      then have "b \<and> reply_status rep = Some 429 \<and> sv_limiter s' = l2
        \<or> reply_status rep = Some 400 \<and> sv_limiter s' = snd (lock_fail (re_now e) (''pair:code:'' @ c)
             (snd (lock_fail (re_now e) k l2)))"
        using open_ip(3) unfolding k_def by (auto simp: attempt_of_def split: if_splits)
      then show ?thesis
        using p2 pays_pair_fail [OF ok l1 open_ip(2) o(1,2)] code [of c] True o(3,4)
        unfolding att refused_if h snd_conv l_def by (auto simp: attempt_of_def)
    next
      case False
      have p3: "pays t0 (gate_key g ip) 0 l (snd (lock_fail (re_now e) (''pair:code:'' @ c) (snd (lock_fail (re_now e) k l2))))"
        using pays_trans [OF p2 pays_trans [OF pays_fail_other [OF ok2 False]
            pays_fail_other [OF lockout_ok_fail [OF ok2] code]]] by simp
      have p4: "pays t0 (gate_key g ip) 0 l (lock_reset k l2)"
        using pays_trans [OF p2 pays_reset_other [OF ok2 False]] by simp
      show ?thesis
        using open_ip(3) p2 p3 p4 False key
        unfolding att refused_if h snd_conv l_def k_def by auto
    qed
  qed
qed

lemma perform_pays:
  assumes "lockout_ok (sv_limiter s)" and "within t0 (lk_for (sv_limiter s)) (attempt g ip ev s)"
  shows "pays t0 (gate_key g ip) (refused (attempt g ip ev s)) (sv_limiter s) (sv_limiter (perform ev s))"
proof (cases "\<exists>e r q g'. ev = Serve e r q \<and> guess g' q")
  case True
  then obtain e r q g' where ev: "ev = Serve e r q" "guess g' q" by blast
  from guess_cases [OF ev(2)] show ?thesis
    using login_pays pair_pays assms by (auto simp: ev(1) perform_def serve_def)
next
  case False
  then have "attempt g ip ev s = []"
    by (auto simp: attempt_def split: relay_event.split)
  moreover have "sv_limiter (perform ev s) = sv_limiter s"
    using False by (intro perform_limiter) blast
  ultimately show ?thesis
    using pays_refl [OF assms(1)] by (simp add: refused_def)
qed

lemma attempts_pay:
  assumes "lockout_ok (sv_limiter s)" and "within t0 (lk_for (sv_limiter s)) (attempts g ip evs s)"
  shows "refused (attempts g ip evs s) \<le> guesses_left t0 (gate_key g ip) (sv_limiter s)"
  using assms
proof (induction evs arbitrary: s)
  case Nil
  then show ?case using guesses_left_bounds by (simp add: refused_def)
next
  case (Cons ev evs)
  have "within t0 (lk_for (sv_limiter s)) (attempt g ip ev s)"
    and rest: "within t0 (lk_for (sv_limiter s)) (attempts g ip evs (perform ev s))"
    using Cons.prems(2) by (auto simp: within_def)
  then have "pays t0 (gate_key g ip) (refused (attempt g ip ev s)) (sv_limiter s) (sv_limiter (perform ev s))"
    using perform_pays Cons.prems(1) by blast
  then show ?case
    using Cons.IH [of "perform ev s"] rest by (auto simp: pays_def refused_def)
qed

text \<open>The counters of a reachable state, whatever was tried before.\<close>

lemma login_lockout:
  "lockout_ok (sv_limiter s) \<Longrightarrow> lockout_ok (sv_limiter (snd (handleLogin e r (Inr pw) s)))
    \<and> lk_after (sv_limiter (snd (handleLogin e r (Inr pw) s))) = lk_after (sv_limiter s)
    \<and> lk_for (sv_limiter (snd (handleLogin e r (Inr pw) s))) = lk_for (sv_limiter s)"
proof -
  assume ok: "lockout_ok (sv_limiter s)"
  obtain b l1 where l1: "locked (re_now e) (gate_key LoginGate (clientIP r)) (sv_limiter s) = (b, l1)" by fastforce
  obtain rep s' where h: "handleLogin e r (Inr pw) s = (rep, s')" by fastforce
  show ?thesis
    using login_cases [OF h l1] lockout_ok_locked [OF ok l1] locked_params [OF l1]
    by (auto simp: h lockout_ok_fail lockout_ok_reset fail_params reset_params)
qed

lemma pair_lockout:
  "lockout_ok (sv_limiter s) \<Longrightarrow> lockout_ok (sv_limiter (snd (handlePairRedeem e r (Inr req) s)))
    \<and> lk_after (sv_limiter (snd (handlePairRedeem e r (Inr req) s))) = lk_after (sv_limiter s)
    \<and> lk_for (sv_limiter (snd (handlePairRedeem e r (Inr req) s))) = lk_for (sv_limiter s)"
proof -
  assume ok: "lockout_ok (sv_limiter s)"
  obtain rep s' where h: "handlePairRedeem e r (Inr req) s = (rep, s')" by fastforce
  then show ?thesis
  proof (cases rule: pair_cases)
    case (ip_locked l1)
    then show ?thesis
      using lockout_ok_locked [OF ok ip_locked(1)] locked_params [OF ip_locked(1)] by (simp add: h)
  next
    case (open_ip c l1 b l2)
    then show ?thesis
      using lockout_ok_locked [OF lockout_ok_locked [OF ok open_ip(1)] open_ip(2)]
        locked_params [OF open_ip(1)] locked_params [OF open_ip(2)]
      by (auto simp: h lockout_ok_fail lockout_ok_reset fail_params reset_params)
  qed
qed

lemma perform_lockout:
  assumes "lockout_ok (sv_limiter s)"
  shows "lockout_ok (sv_limiter (perform ev s)) \<and> lk_after (sv_limiter (perform ev s)) = lk_after (sv_limiter s)
    \<and> lk_for (sv_limiter (perform ev s)) = lk_for (sv_limiter s)"
proof (cases "\<exists>e r q g'. ev = Serve e r q \<and> guess g' q")
  case True
  then show ?thesis
    using login_lockout [OF assms] pair_lockout [OF assms]
    by (auto simp: perform_def serve_def dest!: guess_cases)
next
  case False
  then have "sv_limiter (perform ev s) = sv_limiter s"
    by (intro perform_limiter) blast
  then show ?thesis using assms by simp
qed

lemma reachable_lockout:
  assumes "relay_reachable cfg s"
  shows "lockout_ok (sv_limiter s) \<and> lk_after (sv_limiter s) = rc_lockout_after (config_defaults cfg)
    \<and> lk_for (sv_limiter s) = rc_lockout_for (config_defaults cfg)"
proof -
  obtain db s0 evs where new: "New cfg db = Inr s0" and run: "relay_run s0 evs s"
    using assms by (auto simp: relay_reachable_def)
  have "sv_limiter s0 = newLockout (rc_lockout_after (config_defaults cfg)) (rc_lockout_for (config_defaults cfg))"
    using new by (auto simp: New_def loadState_def Let_def split: if_splits sum.splits)
  then have "lockout_ok (sv_limiter s0) \<and> lk_after (sv_limiter s0) = rc_lockout_after (config_defaults cfg)
      \<and> lk_for (sv_limiter s0) = rc_lockout_for (config_defaults cfg)"
    by (simp add: newLockout_def lockout_ok_def config_defaults_def duration_defs)
  with run show ?thesis
    by (induction rule: relay_run.induct) (auto simp: relay_step_iff perform_lockout)
qed

section \<open>Properties\<close>


definition demo_guesses :: "relay_event list" where
  "demo_guesses = replicate 7 (Serve demo_relay_env demo_request (ReqLogin (Inr ''guess'')))"

lemma demo_attempts:
  "attempts LoginGate ''10.0.0.1'' demo_guesses demo_coded
   = map (Pair 0) [Refused, Refused, Refused, Refused, Refused, LockedOut, LockedOut]"
  by code_simp


end
