(* ===== verification/RelayErrors.thy ===== *)
theory RelayErrors
  imports RelayGuard
begin

text \<open>
  What the relay's HTTP interface leaves alone when it answers with an error, and what it answers
  to those who are not logged in.
\<close>

section \<open>What others see\<close>

text \<open>
  Everything of the relay that a device, another client or a later start can see: the queues of
  all connections, the tables of the hub, the notifications, and the tables of the database
  but for the pairing codes and the audit log.
\<close>

definition world :: "relay \<Rightarrow> (nat, agent_conn) gomap \<times> (nat, client_conn) gomap \<times> (string, device_state) gomap
    \<times> (string, nat) gomap \<times> (u32, string) gomap \<times> (u32, (string, bool) gomap) gomap
    \<times> (string \<times> webhook_payload) list \<times> (string, device_row) gomap \<times> (string, approval_row) gomap
    \<times> (string, string) gomap" where
  "world s = (sv_agents s, sv_cobjs s, sv_devices s, sv_clients s, sv_sid_owner s, sv_attachments s, sv_posts s,
     db_devices (sv_db s), db_approvals (sv_db s), db_settings (sv_db s))"

definition unseen :: "relay \<Rightarrow> relay \<Rightarrow> bool" where
  "unseen s s' \<longleftrightarrow> world s' = world s
     \<and> (\<forall>key a. mget (sv_approvals s) key = Some a \<longrightarrow> mget (sv_approvals s') key = Some a)"

lemma unseen_refl [simp, intro]: "unseen s s"
  by (simp add: unseen_def)

lemma unseen_trans: "unseen s t \<Longrightarrow> unseen t u \<Longrightarrow> unseen s u"
  by (simp add: unseen_def)

lemma unseen_cong: "world s' = world s \<Longrightarrow> sv_approvals s' = sv_approvals s \<Longrightarrow> unseen a s' = unseen a s"
  by (simp add: unseen_def)

lemma unseen_try_db:
  "(\<And>db. f (sv_db s) = Inr db \<Longrightarrow> db_devices db = db_devices (sv_db s) \<and> db_approvals db = db_approvals (sv_db s)
     \<and> db_settings db = db_settings (sv_db s)) \<Longrightarrow> unseen a (try_db f s) = unseen a s"
  by (rule unseen_cong) (auto simp: try_db_def world_def split: sum.split)

lemma unseen_steps [simp]:
  "unseen a (audit e actor did sid act det s) = unseen a s"
  "unseen a (try_db (IncPairAttempts code) s) = unseen a s" "unseen a (try_db (PurgePairCodes t) s) = unseen a s"
  "unseen a (limiter_fail now key s) = unseen a s" "unseen a (limiter_reset key s) = unseen a s"
  "unseen a (s\<lparr>sv_logins := l\<rparr>) = unseen a s"
  unfolding audit_def
  by ((rule unseen_try_db; auto simp: AppendAudit_def IncPairAttempts_def PurgePairCodes_def Let_def split: option.splits),
      (rule unseen_try_db; auto simp: AppendAudit_def IncPairAttempts_def PurgePairCodes_def Let_def split: option.splits),
      (rule unseen_try_db; auto simp: AppendAudit_def IncPairAttempts_def PurgePairCodes_def Let_def split: option.splits))
    (simp_all add: unseen_def world_def limiter_fail_def limiter_reset_def)

lemma unseen_login: "client_login e r s = (ls, s') \<Longrightarrow> unseen a s' = unseen a s"
  by (auto simp: client_login_def unseen_def world_def split: option.splits prod.splits)

lemma unseen_locked: "limiter_locked now key s = (b, s') \<Longrightarrow> unseen a s' = unseen a s"
  by (auto simp: limiter_locked_def unseen_def world_def split: prod.splits)

lemma unseen_codes: "try_codes mk cs s = (res, s') \<Longrightarrow> unseen a s' = unseen a s"
proof (induction mk cs s rule: try_codes.induct)
  case (2 mk c cs s)
  then show ?case
    by (auto simp: CreatePairCode_def unseen_def world_def split: sum.splits if_splits option.splits)
qed simp

lemma unseen_redeem: "RedeemPairCode code now (sv_db s) = Inr db \<Longrightarrow> unseen a (s\<lparr>sv_db := db\<rparr>) = unseen a s"
  by (rule unseen_cong) (auto simp: RedeemPairCode_def world_def split: option.splits)

text \<open>A handler whose error replies go unseen.\<close>

definition quiet_errors :: "relay \<Rightarrow> reply \<times> relay \<Rightarrow> bool" where
  "quiet_errors s p \<longleftrightarrow> (\<forall>x. fst p = Reply x \<longrightarrow> 400 \<le> rs_status x \<longrightarrow> unseen s (snd p))"

lemma reply_simps [simp]:
  "writeError st text = Reply x \<longleftrightarrow> x = \<lparr>rs_status = st, rs_body = BError text, rs_cookie = None\<rparr>"
  "writeJSON st b = Reply x \<longleftrightarrow> x = \<lparr>rs_status = st, rs_body = b, rs_cookie = None\<rparr>"
  by (auto simp: writeError_def writeJSON_def)

lemma cookie_ok: "setSessionCookie r tok age (writeJSON 200 b) = Reply x \<Longrightarrow> rs_status x = 200"
  by (auto simp: setSessionCookie_def writeJSON_def)

lemma quiet_same [simp]: "quiet_errors s (rep, s)"
  by (simp add: quiet_errors_def)

lemma quiet_unseen: "unseen s s' \<Longrightarrow> quiet_errors s (rep, s')"
  by (simp add: quiet_errors_def)

lemma quiet_ok [simp]: "quiet_errors s (writeJSON 200 b, s')" "quiet_errors s (Panic, s')"
  "quiet_errors s (setSessionCookie r tok age (writeJSON 200 b), s')"
  by (auto simp: quiet_errors_def dest: cookie_ok)

lemma quiet_from: "unseen s t \<Longrightarrow> quiet_errors t p \<Longrightarrow> quiet_errors s p"
  by (auto simp: quiet_errors_def intro: unseen_trans)

lemma quiet_body: "(\<And>v. quiet_errors s (f v)) \<Longrightarrow> quiet_errors s (with_body body f s)"
  by (simp add: with_body_def split: sum.split)

lemma quiet_login:
  assumes "\<And>ls t. quiet_errors t (f ls t)"
  shows "quiet_errors s (case client_login e r s of (ls, t) \<Rightarrow> f ls t)"
proof (cases "client_login e r s")
  case (Pair ls t)
  then show ?thesis using quiet_from [OF _ assms] unseen_login [OF Pair, of s] by simp
qed

lemma quiet_locked:
  assumes "\<And>b t. quiet_errors t (f b t)"
  shows "quiet_errors s (case limiter_locked now key s of (b, t) \<Rightarrow> f b t)"
proof (cases "limiter_locked now key s")
  case (Pair b t)
  then show ?thesis using quiet_from [OF _ assms] unseen_locked [OF Pair, of s] by simp
qed

lemma decideApproval_quiet:
  assumes "decideApproval e key dec actor hint req cid s = (Inl err, s')"
  shows "unseen s s'"
proof -
  have "unseen s t" if "cached_approval key s = Some (a, t)" for a t
    using that by (auto simp: cached_approval_def unseen_def world_def split: option.splits sum.splits)
  then show ?thesis
    using assms by (auto simp: decideApproval_def Let_def split: if_splits option.splits)
qed

lemma handleLogin_quiet: "quiet_errors s (handleLogin e r body s)"
  unfolding handleLogin_def Let_def
  by (rule quiet_body, rule quiet_locked) (auto split: bool.split prod.split intro: quiet_unseen)

lemma handlePairNew_quiet: "quiet_errors s (handlePairNew e r s)"
proof -
  have "unseen s s'" if "try_codes mk cs (try_db (PurgePairCodes t) s) = (res, s')" for mk cs t res s'
    using unseen_codes [OF that, of s] by simp
  then show ?thesis
    by (auto simp: handlePairNew_def Let_def split: prod.split sum.split option.split intro: quiet_unseen)
qed

lemma redeem_failed_quiet: "quiet_errors s (redeem_failed e ip code reason s)"
  unfolding redeem_failed_def Let_def by (rule quiet_unseen) simp

lemma redeem_device_quiet: "quiet_errors s (redeem_device e ip req s)"
  by (simp add: redeem_device_def newDeviceToken_def Let_def split: sum.split)

lemma redeem_code_quiet: "quiet_errors s (redeem_code e ip code req s)"
proof (cases "RedeemPairCode code (re_now e) (sv_db s)")
  case (Inr db)
  have "unseen s (limiter_reset (''pair:ip:'' @ ip) (s\<lparr>sv_db := db\<rparr>))"
    using unseen_redeem [OF Inr] by simp
  then show ?thesis
    using quiet_from [OF _ redeem_device_quiet] by (simp add: redeem_code_def Inr redeem_failed_quiet)
qed (auto simp: redeem_code_def redeem_failed_quiet split: store_error.split)

lemma handlePairRedeem_quiet: "quiet_errors s (handlePairRedeem e r body s)"
  unfolding handlePairRedeem_def Let_def
proof (rule quiet_body, rule quiet_locked)
  fix req il t
  show "quiet_errors t (case if il then (False, t)
        else limiter_locked (re_now e) (''pair:code:'' @ normalizePairCode (re_upper e) (rd_code req)) t of
      (cl, s) \<Rightarrow> if il \<or> cl then (writeError 429 ''too many failed attempts, locked for 15 minutes'', s)
        else redeem_code e (clientIP r) (normalizePairCode (re_upper e) (rd_code req)) req s)"
    by (cases il) (auto intro!: quiet_locked redeem_code_quiet)
qed

lemma handlers_quiet:
  "quiet_errors s (handleHealth s)" "quiet_errors s (handleLogout e r s)" "quiet_errors s (handleMe e r s)"
  "quiet_errors s (handleDevices s)" "quiet_errors s (handleDeviceRename e r did b1 s)"
  "quiet_errors s (handleDeviceRevoke e r did s)" "quiet_errors s (handleApprovals st lim s)"
  "quiet_errors s (handleApprovalDecide e r key b2 s)" "quiet_errors s (handleAudit lim s)"
  "quiet_errors s (handleWebhookGet s)" "quiet_errors s (handleWebhookPut e r b3 s)"
proof -
  show "quiet_errors s (handleMe e r s)"
    unfolding handleMe_def by (rule quiet_login) (simp split: option.split)
  have "unseen s s'" if "revokeDevice e did who s = (Inl err, s')" for who err s'
    using that by (auto simp: revokeDevice_def Let_def split: sum.splits option.splits)
  then show "quiet_errors s (handleDeviceRevoke e r did s)"
    by (auto simp: handleDeviceRevoke_def split: option.split prod.split sum.split intro: quiet_unseen)
  show "quiet_errors s (handleApprovalDecide e r key b2 s)"
    unfolding handleApprovalDecide_def
    by (rule quiet_body) (auto split: option.split prod.split sum.split intro: quiet_unseen decideApproval_quiet)
  show "quiet_errors s (handleDeviceRename e r did b1 s)" "quiet_errors s (handleWebhookPut e r b3 s)"
    unfolding handleDeviceRename_def handleWebhookPut_def
    by (rule quiet_body; auto simp: Let_def split: sum.split option.split prod.split)+
  show "quiet_errors s (handleHealth s)" "quiet_errors s (handleLogout e r s)" "quiet_errors s (handleDevices s)"
    "quiet_errors s (handleApprovals st lim s)" "quiet_errors s (handleAudit lim s)" "quiet_errors s (handleWebhookGet s)"
    by (auto simp: handleHealth_def handleLogout_def handleDevices_def handleApprovals_def handleAudit_def
        handleWebhookGet_def Let_def split: sum.split)
qed

lemma requireLogin_quiet: "(\<And>t. quiet_errors t (f t)) \<Longrightarrow> quiet_errors s (requireLogin e r f s)"
  unfolding requireLogin_def by (rule quiet_login) (simp split: option.split)

lemma serve_quiet: "quiet_errors s (serve e r q s)"
  by (cases q)
    (auto simp: serve_def intro!: handlers_quiet handleLogin_quiet handlePairNew_quiet handlePairRedeem_quiet
      requireLogin_quiet)

section \<open>Every request is answered\<close>

lemma web_actor_cong: "sv_logins s' = sv_logins s \<Longrightarrow> web_actor e r s' = web_actor e r s"
  by (auto simp: web_actor_def client_login_def split: option.split prod.split)

lemma client_login_actor: "client_login e r s = (Some ls, t) \<Longrightarrow> web_actor e r t \<noteq> None"
  by (auto simp: web_actor_def client_login_def login_get_def split: option.splits prod.splits if_splits)

lemma logins_try_db: "sv_logins (try_db f s) = sv_logins s"
  by (simp add: try_db_def split: sum.split)

lemma logins_codes: "try_codes mk cs s = (res, s') \<Longrightarrow> sv_logins s' = sv_logins s"
  by (induction mk cs s rule: try_codes.induct) (auto split: sum.splits if_splits)

lemma answered [simp]:
  "writeError st text \<noteq> Panic" "writeJSON st b \<noteq> Panic" "writeErr err \<noteq> Panic"
  "setSessionCookie r tok age rep \<noteq> Panic \<longleftrightarrow> rep \<noteq> Panic"
  by (simp_all add: writeError_def writeJSON_def writeErr_def setSessionCookie_def
      split: api_error.split store_error.split reply.split)

lemma body_answers: "(\<And>v. fst (f v) \<noteq> Panic) \<Longrightarrow> fst (with_body body f s) \<noteq> Panic"
  by (simp add: with_body_def split: sum.split)

lemma requireLogin_answers:
  "(\<And>t. web_actor e r t \<noteq> None \<Longrightarrow> fst (f t) \<noteq> Panic) \<Longrightarrow> fst (requireLogin e r f s) \<noteq> Panic"
  by (auto simp: requireLogin_def split: prod.split option.split dest: client_login_actor)

lemma redeem_answers: "fst (redeem_code e ip code req s) \<noteq> Panic"
  by (simp add: redeem_code_def redeem_failed_def redeem_device_def newDeviceToken_def Let_def
      split: sum.split store_error.split)

lemma logged_in_answers:
  assumes "web_actor e r t \<noteq> None"
  shows "fst (handlePairNew e r t) \<noteq> Panic" "fst (handleDeviceRename e r did b1 t) \<noteq> Panic"
    "fst (handleDeviceRevoke e r did t) \<noteq> Panic" "fst (handleApprovalDecide e r key b2 t) \<noteq> Panic"
    "fst (handleWebhookPut e r b3 t) \<noteq> Panic"
proof -
  obtain who where who: "web_actor e r t = Some who" using assms by auto
  have same: "web_actor e r t' = Some who" if "sv_logins t' = sv_logins t" for t'
    using web_actor_cong [OF that] who by simp
  show "fst (handlePairNew e r t) \<noteq> Panic"
    by (auto simp: handlePairNew_def Let_def who split: prod.split sum.split)
  show "fst (handleDeviceRevoke e r did t) \<noteq> Panic"
    by (auto simp: handleDeviceRevoke_def who split: prod.split sum.split)
  show "fst (handleApprovalDecide e r key b2 t) \<noteq> Panic"
    unfolding handleApprovalDecide_def
    by (rule body_answers) (auto simp: who split: prod.split sum.split)
  show "fst (handleWebhookPut e r b3 t) \<noteq> Panic"
    unfolding handleWebhookPut_def
    by (rule body_answers) (auto simp: same Let_def split: sum.split option.split)
  have "sv_logins (rename_cached did name t') = sv_logins t'" for name t'
    by (simp add: rename_cached_def set_device_def split: option.split)
  then show "fst (handleDeviceRename e r did b1 t) \<noteq> Panic"
    unfolding handleDeviceRename_def
    by (intro body_answers) (auto simp: same Let_def split: sum.split)
qed

lemma public_answers:
  "fst (handleLogin e r b1 s) \<noteq> Panic" "fst (handlePairRedeem e r b2 s) \<noteq> Panic"
  "fst (handleHealth s) \<noteq> Panic" "fst (handleLogout e r s) \<noteq> Panic" "fst (handleMe e r s) \<noteq> Panic"
  "fst (handleDevices s) \<noteq> Panic" "fst (handleApprovals st lim s) \<noteq> Panic" "fst (handleAudit lim s) \<noteq> Panic"
  "fst (handleWebhookGet s) \<noteq> Panic"
proof -
  show "fst (handleLogin e r b1 s) \<noteq> Panic" "fst (handlePairRedeem e r b2 s) \<noteq> Panic"
    unfolding handleLogin_def handlePairRedeem_def
    by (rule body_answers, simp add: Let_def redeem_answers split: prod.split bool.split)+
  show "fst (handleHealth s) \<noteq> Panic" "fst (handleLogout e r s) \<noteq> Panic" "fst (handleMe e r s) \<noteq> Panic"
    "fst (handleDevices s) \<noteq> Panic" "fst (handleApprovals st lim s) \<noteq> Panic" "fst (handleAudit lim s) \<noteq> Panic"
    "fst (handleWebhookGet s) \<noteq> Panic"
    by (simp_all add: handleHealth_def handleLogout_def handleMe_def handleDevices_def handleApprovals_def
        handleAudit_def handleWebhookGet_def Let_def split: prod.split option.split sum.split)
qed

lemma serve_answers: "fst (serve e r q s) \<noteq> Panic"
  by (cases q) (auto simp: serve_def intro!: public_answers requireLogin_answers logged_in_answers)

section \<open>Properties\<close>

definition public :: "api_request \<Rightarrow> bool" where
  "public q \<longleftrightarrow> (case q of
     ReqHealth \<Rightarrow> True | ReqLogin _ \<Rightarrow> True | ReqLogout \<Rightarrow> True | ReqMe \<Rightarrow> True | ReqPairRedeem _ \<Rightarrow> True
   | ReqUnknownApi \<Rightarrow> True | ReqUnknownWs \<Rightarrow> True | _ \<Rightarrow> False)"


definition demo_refused :: "reply \<times> relay" where
  "demo_refused = serve demo_relay_env demo_request (ReqPairRedeem (Inr (demo_redeem\<lparr>rd_code := ''short''\<rparr>))) demo_coded"

lemma demo_refused_refused: "reply_status (fst demo_refused) = Some 400"
  by code_simp


end
