(* ===== verification/EndToEnd.thy ===== *)
theory EndToEnd
  imports RelayFrames AgentLink
begin

text \<open>
  The way of the output from a terminal to a console: the session's callbacks become frames on
  the agent's connection, the relay routes the frames, and a client that attaches shows a
  gapless end of what the terminal produced. Between the attachment and the look at the
  client's queue, the sessions of the agent run any operations; what reaches the relay is what
  the agent put on its connection, in that order.
\<close>

section \<open>The frames of a session's effects\<close>

definition effect_frames :: "u32 \<Rightarrow> effect \<Rightarrow> frame list" where
  "effect_frames sid fx = (case fx of
     Output q d \<Rightarrow> Chunk FrameOutput sid q d 0
   | Replayed d q delta \<Rightarrow> Chunk FrameSnapshot sid q d (if delta then 0 else FlagReset)
   | Exited code r \<Rightarrow> [\<lparr>fr_type = FrameEOF, fr_flags = 0, fr_sid = sid, fr_seq = 0, fr_payload = EOFPayload code\<rparr>]
   | _ \<Rightarrow> [])"

definition fx_frames :: "u32 \<Rightarrow> effect list \<Rightarrow> frame list" where
  "fx_frames sid fx = concat (map (effect_frames sid) fx)"

lemma fx_frames_simps [simp]:
  "fx_frames sid [] = []" "fx_frames sid (x # fx) = effect_frames sid x @ fx_frames sid fx"
  "fx_frames sid (fx @ fx') = fx_frames sid fx @ fx_frames sid fx'"
  by (simp_all add: fx_frames_def)

lemma effect_frames_ok:
  "sendable (effect_frames sid fx)" "f \<in> set (effect_frames sid fx) \<Longrightarrow> fr_sid f = sid"
proof -
  have eof: "\<exists>b. Marshal \<lparr>fr_type = FrameEOF, fr_flags = 0, fr_sid = sid, fr_seq = 0, fr_payload = EOFPayload code\<rparr> = Inr b" for code
    by (rule codec.enc_fits) (simp add: EOFPayload_def MaxPayload_def)
  show "sendable (effect_frames sid fx)"
  proof (cases fx)
    case (Exited code r)
    then show ?thesis using eof by (simp add: effect_frames_def sendable_def)
  qed (simp_all add: effect_frames_def sendable_Chunk, simp_all add: sendable_def)
  have chunk: "f \<in> set (Chunk t sid q d x) \<Longrightarrow> fr_sid f = sid" for t q d x
    using Chunk_spec [of t sid q d x] by simp
  show "f \<in> set (effect_frames sid fx) \<Longrightarrow> fr_sid f = sid"
    by (cases fx) (auto simp: effect_frames_def dest: chunk)
qed

lemma fx_frames_ok: "sendable (fx_frames sid fx)" "f \<in> set (fx_frames sid fx) \<Longrightarrow> fr_sid f = sid"
  using effect_frames_ok by (induction fx) (auto simp: sendable_def)

text \<open>The binary messages of a queue.\<close>

definition binaries :: "out_msg list \<Rightarrow> byte list list" where
  "binaries xs = concat (map (\<lambda>x. case x of OutBinary b \<Rightarrow> [b] | OutText _ \<Rightarrow> []) xs)"

lemma binaries_simps [simp]:
  "binaries [] = []" "binaries (OutBinary b # xs) = b # binaries xs" "binaries (OutText m # xs) = binaries xs"
  "binaries (xs @ ys) = binaries xs @ binaries ys" "binaries (as_messages fs) = map wire_bytes fs"
  by (simp_all add: binaries_def) (induction fs, simp_all)

text \<open>
  A step of the agent adds to the queue of its connection, as long as that stays open, messages
  whose binary ones are given; the steps that run callbacks also keep the session objects.
\<close>

definition queues :: "agent \<Rightarrow> byte list list \<Rightarrow> agent \<Rightarrow> bool" where
  "queues a bs a' \<longleftrightarrow>
     (\<forall>w. ag_conn a = Some w \<longrightarrow> (\<exists>w'. ag_conn a' = Some w' \<and> (wc_closed w \<longrightarrow> wc_closed w')
          \<and> (wc_closed w' \<or> (\<exists>new. wc_out w' = wc_out w @ new \<and> binaries new = bs))))"

definition adds :: "agent \<Rightarrow> byte list list \<Rightarrow> agent \<Rightarrow> bool" where
  "adds a bs a' \<longleftrightarrow> ag_objs a' = ag_objs a \<and> queues a bs a'"

lemma queues_refl [simp, intro]: "queues a [] a"
  by (auto simp: queues_def)

lemma queues_trans:
  assumes "queues a bs a'" and "queues a' cs a''"
  shows "queues a (bs @ cs) a''"
  unfolding queues_def
proof (intro allI impI)
  fix w
  assume "ag_conn a = Some w"
  with assms(1) obtain w' where w': "ag_conn a' = Some w'" "wc_closed w \<longrightarrow> wc_closed w'"
    "wc_closed w' \<or> (\<exists>new. wc_out w' = wc_out w @ new \<and> binaries new = bs)"
    by (auto simp: queues_def)
  with assms(2) obtain w'' where w'': "ag_conn a'' = Some w''" "wc_closed w' \<longrightarrow> wc_closed w''"
    "wc_closed w'' \<or> (\<exists>new. wc_out w'' = wc_out w' @ new \<and> binaries new = cs)"
    by (auto simp: queues_def)
  show "\<exists>w'. ag_conn a'' = Some w' \<and> (wc_closed w \<longrightarrow> wc_closed w')
      \<and> (wc_closed w' \<or> (\<exists>new. wc_out w' = wc_out w @ new \<and> binaries new = bs @ cs))"
  proof (intro exI conjI)
    show "wc_closed w'' \<or> (\<exists>new. wc_out w'' = wc_out w @ new \<and> binaries new = bs @ cs)"
      using w'(3) w''(2,3) by (metis append_assoc binaries_simps(4))
  qed (use w' w'' in auto)
qed

lemma adds_refl [simp, intro]: "adds a [] a"
  by (simp add: adds_def)

lemma adds_trans: "adds a bs a' \<Longrightarrow> adds a' cs a'' \<Longrightarrow> adds a (bs @ cs) a''"
  by (auto simp: adds_def intro: queues_trans)

lemma adds_send: "adds a (binaries [x]) (agent_send x a)"
  by (auto simp: adds_def queues_def agent_send_def conn_send_def conn_close_def split: option.splits)

lemma adds_sendMsg: "adds a [] (sendMsg m a)"
  using adds_send [of a "OutText m"] by (simp add: sendMsg_def)

lemma adds_fold: "(\<And>x a. adds a (g x) (f x a)) \<Longrightarrow> adds a (concat (map g xs)) (fold f xs a)"
proof (induction xs arbitrary: a)
  case (Cons x xs)
  show ?case using adds_trans [OF Cons.prems Cons.IH [OF Cons.prems]] by simp
qed simp

lemma adds_frames: "sendable fs \<Longrightarrow> adds a (map wire_bytes fs) (fold sendFrame fs a)"
proof (induction fs arbitrary: a)
  case (Cons f fs)
  then obtain b where b: "Marshal f = Inr b" "sendable fs" by (auto simp: sendable_def)
  have "adds a [b] (sendFrame f a)"
    using adds_send [of a "OutBinary b"] b by (simp add: sendFrame_def)
  from adds_trans [OF this Cons.IH [OF b(2)]] show ?case
    using b(1) by (simp add: wire_bytes_def)
qed simp

lemma adds_update: "adds (a\<lparr>ag_store := st\<rparr>) bs a' \<Longrightarrow> adds a bs a'"
  by (simp add: adds_def queues_def)

lemma adds_close_approvals: "adds a [] (close_approvals now sid by a)"
proof -
  have "adds b [] (agent_ApprovalClosed by ap b)" for ap b
    by (simp add: agent_ApprovalClosed_def Let_def adds_sendMsg)
  then have "adds b (concat (map (\<lambda>_. []) out)) (fold (agent_ApprovalClosed by) out b)" for b out
    by (rule adds_fold)
  moreover have "concat (map (\<lambda>_. []) out) = []" for out :: "approval list"
    by (induction out) simp_all
  ultimately have "adds b [] (fold (agent_ApprovalClosed by) out b)" for b out
    by metis
  then show ?thesis
    by (auto simp: close_approvals_def case_prod_beta intro: adds_update)
qed

lemma adds_effect: "adds a (map wire_bytes (effect_frames sid fx)) (run_effect now sid h fx a)"
proof (cases fx)
  case (Output q d)
  then show ?thesis using adds_frames [OF sendable_Chunk] by (simp add: effect_frames_def onOutput_def)
next
  case (Replayed d q delta)
  then show ?thesis using adds_frames [OF sendable_Chunk] by (simp add: effect_frames_def send_replay_def)
next
  case (Exited code r)
  have "sendable (effect_frames sid fx)" by (rule effect_frames_ok)
  from adds_trans [OF adds_trans [OF adds_frames [OF this] adds_sendMsg] adds_close_approvals] show ?thesis
    by (simp add: Exited effect_frames_def onExit_def Let_def)
qed (simp_all add: effect_frames_def adds_def queues_def)

lemma adds_effects: "adds a (map wire_bytes (fx_frames sid fx)) (run_effects now sid h fx a)"
  using adds_fold [of "\<lambda>x. map wire_bytes (effect_frames sid x)" "run_effect now sid h"] adds_effect
  by (simp add: run_effects_def fx_frames_def map_concat comp_def)

section \<open>Operations of the agent's sessions\<close>

lemma perform_sid: "so_sid (ss_opts (fst (Session.perform x s))) = so_sid (ss_opts s)"
proof (cases x)
  case (OpKillRespawn env ok now)
  then show ?thesis
    by (simp add: killResume_respawn_def emit_fields spawn_def Let_def case_prod_beta split: option.split)
next
  case (OpReattach env ok d)
  then show ?thesis
    by (simp add: reattach_def reattach_count_def reattach_done_def reattach_failed_def spawn_def Let_def case_prod_beta
        split: option.split)
qed (simp_all add: emit_fields Replay_def flushLocked_def setter_defs Let_def case_prod_beta Attach_def Detach_def Info_def
      session_Heuristic_def wait_record_def Close_def Suspend_def,
     simp_all add: control_defs emit_fields Let_def case_prod_beta split: sum.split option.split)

text \<open>Steps of sessions, each at a time and on a session object, in any order.\<close>

definition link_steps :: "(instant \<times> nat \<times> op) list \<Rightarrow> agent \<Rightarrow> agent" where
  "link_steps steps a = fold (\<lambda>(now, h, x). session_op now h x) steps a"

definition ops_on :: "nat \<Rightarrow> (instant \<times> nat \<times> op) list \<Rightarrow> op list" where
  "ops_on h steps = map (\<lambda>(now, h', x). x) (filter (\<lambda>(now, h', x). h' = h) steps)"

text \<open>The other objects that the steps touch belong to other sessions.\<close>

definition foreign :: "u32 \<Rightarrow> nat \<Rightarrow> (instant \<times> nat \<times> op) list \<Rightarrow> agent \<Rightarrow> bool" where
  "foreign sid h steps a \<longleftrightarrow> (\<forall>(now, h', x) \<in> set steps. h' \<noteq> h \<longrightarrow>
     (case obj h' a of None \<Rightarrow> True | Some s \<Rightarrow> so_sid (ss_opts s) \<noteq> sid))"

definition of_sid :: "u32 \<Rightarrow> byte list \<Rightarrow> bool" where
  "of_sid sid b \<longleftrightarrow> (case PeekHeader b of Inl _ \<Rightarrow> False | Inr (t, i) \<Rightarrow> i = sid)"

lemma filter_wire_bytes:
  assumes "sendable fs" and "\<And>f. f \<in> set fs \<Longrightarrow> fr_sid f = sid'"
  shows "filter (of_sid sid) (map wire_bytes fs) = (if sid' = sid then map wire_bytes fs else [])"
proof -
  have "of_sid sid (wire_bytes f) \<longleftrightarrow> sid' = sid" if f: "f \<in> set fs" for f
  proof -
    obtain b where b: "Marshal f = Inr b" using assms(1) f by (auto simp: sendable_def)
    show ?thesis using Marshal_header(1) [OF b] assms(2) [OF f] b by (simp add: of_sid_def wire_bytes_def)
  qed
  then show ?thesis by (auto intro!: filter_True filter_False)
qed

lemma filter_fx_frames [simp]:
  "filter (of_sid sid) (map wire_bytes (fx_frames sid' fx)) = (if sid' = sid then map wire_bytes (fx_frames sid' fx) else [])"
  by (rule filter_wire_bytes) (simp_all add: fx_frames_ok)

lemma session_op_queues:
  assumes "obj h a = Some s" and "Session.perform x s = (s', fx)"
  shows "queues a (map wire_bytes (fx_frames (so_sid (ss_opts s)) fx)) (session_op now h x a)"
    and "obj h' (session_op now h x a) = (if h' = h then Some s' else obj h' a)"
proof -
  have op: "session_op now h x a = run_effects now (so_sid (ss_opts s)) h fx (put_obj h s' a)"
    using assms by (simp add: session_op_def)
  from adds_effects [of "put_obj h s' a"]
  have fx: "adds (put_obj h s' a) (map wire_bytes (fx_frames (so_sid (ss_opts s)) fx)) (session_op now h x a)"
    by (simp add: op)
  then show "queues a (map wire_bytes (fx_frames (so_sid (ss_opts s)) fx)) (session_op now h x a)"
    by (simp add: adds_def queues_def)
  have "obj h' (session_op now h x a) = obj h' (put_obj h s' a)"
    using fx by (simp add: adds_def obj_def)
  then show "obj h' (session_op now h x a) = (if h' = h then Some s' else obj h' a)"
    by auto
qed

lemma link_steps_queues:
  assumes "obj h a = Some s" and "so_sid (ss_opts s) = sid" and "foreign sid h steps a"
    and "perform_all (ops_on h steps) s = (s', fx)"
  shows "\<exists>bs. queues a bs (link_steps steps a) \<and> filter (of_sid sid) bs = map wire_bytes (fx_frames sid fx)
    \<and> obj h (link_steps steps a) = Some s'"
  using assms
proof (induction steps arbitrary: a s fx)
  case Nil
  then show ?case by (intro exI [of _ "[]"]) (simp add: link_steps_def ops_on_def)
next
  case (Cons st steps)
  obtain now h' x where st: "st = (now, h', x)" by (cases st)
  let ?a = "session_op now h' x a"
  show ?case
  proof (cases "obj h' a")
    case None
    then have "?a = a" "h' \<noteq> h" using Cons.prems(1) by (auto simp: session_op_def)
    then show ?thesis
      using Cons.IH [of a s fx] Cons.prems by (simp add: st link_steps_def ops_on_def foreign_def)
  next
    case (Some t)
    obtain t' fx1 where t': "Session.perform x t = (t', fx1)" by fastforce
    note q = session_op_queues [OF Some t', where now = now]
    have sid: "so_sid (ss_opts t') = so_sid (ss_opts t)" using perform_sid [of x t] t' by simp
    have foreign: "foreign sid h steps ?a"
      using Cons.prems(3) Some sid by (auto simp: foreign_def st q(2) split: option.splits if_splits)
    obtain s1 fx0 fx2 where s1: "obj h ?a = Some s1" "so_sid (ss_opts s1) = sid"
        "perform_all (ops_on h steps) s1 = (s', fx2)" "fx = fx0 @ fx2"
      and fx0: "filter (of_sid sid) (map wire_bytes (fx_frames (so_sid (ss_opts t)) fx1)) = map wire_bytes (fx_frames sid fx0)"
    proof (cases "h' = h")
      case True
      then have "t = s" using Some Cons.prems(1) by simp
      obtain s'' fx2 where p: "perform_all (ops_on h steps) t' = (s'', fx2)" by fastforce
      have "s'' = s'" "fx = fx1 @ fx2"
        using Cons.prems(4) p t' True \<open>t = s\<close> by (auto simp: st ops_on_def)
      then show ?thesis
        using that [of t' fx2 fx1] p q(2) [of h] True sid \<open>t = s\<close> Cons.prems(2)
        by simp
    next
      case False
      then have "so_sid (ss_opts t) \<noteq> sid"
        using Cons.prems(3) Some by (auto simp: foreign_def st)
      then show ?thesis
        using that [of s fx "[]"] Cons.prems q(2) [of h] False by (simp add: st ops_on_def)
    qed
    obtain bs where bs: "queues ?a bs (link_steps steps ?a)" "filter (of_sid sid) bs = map wire_bytes (fx_frames sid fx2)"
      "obj h (link_steps steps ?a) = Some s'"
      using Cons.IH [OF s1(1,2) foreign s1(3)] by blast
    then show ?thesis
      using queues_trans [OF q(1) bs(1)] fx0 s1(4)
      by (intro exI [of _ "map wire_bytes (fx_frames (so_sid (ss_opts t)) fx1) @ bs"]) (simp add: st link_steps_def)
  qed
qed

section \<open>What the relay lets through\<close>

text \<open>The frames of its session that a client is given, by whether it waits for a snapshot.\<close>

fun seen :: "bool \<Rightarrow> frame list \<Rightarrow> frame list" where
  "seen p [] = []"
| "seen p (f # fs) = (if frame_reaches (fr_type f) p then [f] else [])
     @ seen (p \<and> \<not> (fr_type f = FrameSnapshot \<and> fr_flags f AND FlagMore = 0)) fs"

lemma viewer_other:
  assumes "viewer r did sid cid k p w" and "\<not> of_sid sid data"
  shows "\<exists>w'. viewer (snd (routeAgentFrame did data r)) did sid cid k p w'
    \<and> (w' = w \<or> w' = wire_send clientQueueLen (RBinary data) w)"
proof -
  have inv: "hub_inv r" using assms(1) by (simp add: viewer_def)
  have "PeekHeader data \<noteq> Inr (FrameSnapshot, sid)"
    using assms(2) by (auto simp: of_sid_def)
  then show ?thesis
    using assms(1) routeAgentFrame_inv [OF inv, of did data] routeAgentFrame_wire [OF inv, of did data k]
      routeAgentFrame_state [OF inv, of did data sid cid] registered_state [OF inv, of did data]
    by (auto simp: viewer_def)
qed

lemma viewer_sees:
  assumes "viewer r did sid cid k p w" and "filter (of_sid sid) bs = map wire_bytes fs" and "sendable fs"
  shows "\<exists>got p'. viewer (route_all did bs r) did sid cid k p' (send_all got w)
    \<and> filter (of_sid sid) got = map wire_bytes (seen p fs)"
  using assms
proof (induction bs arbitrary: r p w fs)
  case Nil
  then show ?case by (intro exI [of _ "[]"] exI [of _ p]) (simp add: route_all_def send_all_def)
next
  case (Cons b bs)
  let ?r = "snd (routeAgentFrame did b r)"
  have step: ?case if own: "viewer ?r did sid cid k p1 (send_all now w)"
      "filter (of_sid sid) bs = map wire_bytes fs1" "sendable fs1"
      "filter (of_sid sid) now @ map wire_bytes (seen p1 fs1) = map wire_bytes (seen p fs)" for p1 now fs1
  proof -
    obtain got p' where "viewer (route_all did bs ?r) did sid cid k p' (send_all got (send_all now w))"
      "filter (of_sid sid) got = map wire_bytes (seen p1 fs1)"
      using Cons.IH [OF own(1-3)] by blast
    then show ?thesis
      using own(4) by (intro exI [of _ "now @ got"] exI [of _ p']) (simp add: route_all_def send_all_append)
  qed
  show ?case
  proof (cases "of_sid sid b")
    case True
    then obtain f fs1 where fs: "fs = f # fs1" and b: "b = wire_bytes f" "filter (of_sid sid) bs = map wire_bytes fs1"
      using Cons.prems(2) by (auto simp: Cons_eq_map_conv)
    then obtain m: "Marshal f = Inr b" and ok: "sendable fs1"
      using Cons.prems(3) by (auto simp: sendable_def wire_bytes_def)
    note hdr = Marshal_header [OF m]
    have "fr_sid f = sid" using True hdr(1) by (simp add: of_sid_def)
    from viewer_step [OF Cons.prems(1), of b "fr_type f"] this hdr
    have "viewer ?r did sid cid k (p \<and> \<not> (fr_type f = FrameSnapshot \<and> fr_flags f AND FlagMore = 0))
        (send_all (if frame_reaches (fr_type f) p then [b] else []) w)"
      by (auto simp: send_all_def split: if_splits)
    from step [OF this b(2) ok] show ?thesis using True b(1) by (simp add: fs)
  next
    case False
    then have "filter (of_sid sid) bs = map wire_bytes fs" using Cons.prems(2) by simp
    moreover obtain now where "viewer ?r did sid cid k p (send_all now w)" "filter (of_sid sid) now = []"
    proof -
      obtain w' where "viewer ?r did sid cid k p w'" "w' = w \<or> w' = wire_send clientQueueLen (RBinary b) w"
        using viewer_other [OF Cons.prems(1) False] by blast
      then show ?thesis
        using that [of "[]"] that [of "[b]"] False by (auto simp: send_all_def)
    qed
    ultimately show ?thesis using step Cons.prems(3) by simp
  qed
qed

lemma seen_later: "seen False fs = filter (\<lambda>f. fr_type f \<noteq> FrameSnapshot) fs"
  by (induction fs) (auto simp: frame_reaches_def)

lemma seen_early: "\<forall>f \<in> set out. fr_type f = FrameOutput \<Longrightarrow> seen True (out @ fs) = seen True fs"
  by (induction out) (auto simp: frame_reaches_def frame_type_defs)

lemma seen_snapshot:
  assumes "snap \<noteq> []" and "\<forall>f \<in> set snap. fr_type f = FrameSnapshot"
    and "\<forall>i < length snap. fr_flags (snap ! i) AND FlagMore = 0 \<longleftrightarrow> Suc i = length snap"
  shows "seen True (snap @ fs) = snap @ seen False fs"
  using assms
proof (induction snap)
  case (Cons f snap)
  have f: "fr_flags f AND FlagMore = 0 \<longleftrightarrow> snap = []"
    using Cons.prems(3) [rule_format, of 0] by auto
  have "\<forall>i < length snap. fr_flags (snap ! i) AND FlagMore = 0 \<longleftrightarrow> Suc i = length snap"
  proof (intro allI impI)
    fix i assume "i < length snap"
    then show "fr_flags (snap ! i) AND FlagMore = 0 \<longleftrightarrow> Suc i = length snap"
      using Cons.prems(3) [rule_format, of "Suc i"] by simp
  qed
  then show ?case
    using Cons f by (cases "snap = []") (auto simp: frame_reaches_def)
qed simp

section \<open>From the terminal to the console\<close>

lemma contiguous_append:
  "contiguous q (xs @ ys) \<longleftrightarrow> contiguous q xs \<and> contiguous (q + word_of_nat (length (concat (map fr_payload xs)))) ys"
  by (induction xs arbitrary: q) (simp_all add: ac_simps)

text \<open>The output frames among the frames of effects carry the output, gaplessly.\<close>

definition outputs :: "frame list \<Rightarrow> frame list" where
  "outputs fs = filter (\<lambda>f. fr_type f = FrameOutput) fs"

lemma outputs_append [simp]: "outputs (xs @ ys) = outputs xs @ outputs ys"
  by (simp add: outputs_def)

lemma outputs_effect:
  "outputs (effect_frames sid (Output q d)) = Chunk FrameOutput sid q d 0"
  "(\<And>q d. x \<noteq> Output q d) \<Longrightarrow> outputs (effect_frames sid x) = []"
proof -
  show "outputs (effect_frames sid (Output q d)) = Chunk FrameOutput sid q d 0"
    using Chunk_spec [of FrameOutput sid q d 0] by (simp add: outputs_def effect_frames_def)
  assume x: "\<And>q d. x \<noteq> Output q d"
  have "f \<in> set (Chunk FrameSnapshot sid q d e) \<Longrightarrow> fr_type f \<noteq> FrameOutput" for f q d e
    using Chunk_spec [of FrameSnapshot sid q d e] by (simp add: frame_type_defs)
  then show "outputs (effect_frames sid x) = []"
  proof (cases x)
    case (Output q d)
    then show ?thesis using x [of q d] by simp
  qed (auto simp: outputs_def effect_frames_def filter_empty_conv frame_type_defs)
qed

lemma outputs_stream:
  "out_ok q fx \<Longrightarrow> contiguous q (outputs (fx_frames sid fx)) \<and> concat (map fr_payload (outputs (fx_frames sid fx))) = out_bytes fx"
proof (induction fx arbitrary: q)
  case Nil
  then show ?case by (simp add: outputs_def)
next
  case (Cons x fx)
  show ?case
  proof (cases "\<exists>q' d. x = Output q' d")
    case True
    then obtain d where x: "x = Output q d" and ok: "out_ok (q + word_of_nat (length d)) fx"
      using Cons.prems by auto
    show ?thesis
      using Cons.IH [OF ok] Chunk_spec [of FrameOutput sid q d 0]
      by (simp add: x outputs_effect contiguous_append)
  next
    case False
    then have "out_ok q fx" "out_bytes (x # fx) = out_bytes fx"
      using Cons.prems by (cases x; auto)+
    then show ?thesis using Cons.IH False by (simp add: outputs_effect)
  qed
qed

lemma outputs_later: "outputs (filter (\<lambda>f. fr_type f \<noteq> FrameSnapshot) fs) = outputs fs"
  by (auto simp: outputs_def frame_type_defs intro!: filter_cong)

lemma attach_sendable:
  "sendable (pending_frames sid s @ replay_frames sid q s xs)"
  "f \<in> set (pending_frames sid s @ replay_frames sid q s xs) \<Longrightarrow> fr_sid f = sid"
  using Chunk_spec [of FrameOutput sid "ss_pending_seq s" "ss_pending s" 0]
    Chunk_spec [of FrameSnapshot sid "word_of_nat (length xs)" "replay_data q s xs" "if replay_delta q s xs then 0 else FlagReset"]
  by (auto simp: pending_frames_def replay_frames_def sendable_def split: if_splits)

text \<open>The attach message: the session is flushed, and what leaves is the pending batch and the replay.\<close>

lemma attach_queues:
  assumes sess: "agent_session (m_sid m) a = Some (h, s)" and sid: "so_sid (ss_opts s) = m_sid m"
    and inv: "stream_inv s xs" "length xs < stream_bound" and t: "m_t m = TSessionAttach"
  shows "queues a (map wire_bytes (pending_frames (m_sid m) s @ replay_frames (m_sid m) (m_last_seq m) s xs)) (handleMsg e m a)"
    and "obj h' (handleMsg e m a) = (if h' = h then Some (fst (flush (Attach s))) else obj h' a)"
proof -
  let ?fs = "pending_frames (m_sid m) s @ replay_frames (m_sid m) (m_last_seq m) s xs"
  have ok: "sendable ?fs" by (rule attach_sendable)
  have conn: "ag_conn (handleMsg e m a) = ag_conn (fold sendFrame ?fs (put_obj h (fst (flush (Attach s))) a))"
    using attach_frames [OF sess sid inv] t by (simp add: handleMsg_def)
  from adds_frames [OF ok] show "queues a (map wire_bytes ?fs) (handleMsg e m a)"
    by (simp add: adds_def queues_def conn)
  have obj: "obj h a = Some s"
    using sess by (auto simp: agent_session_def split: option.splits)
  have at: "obj h' (session_op (ae_now e) h OpAttach a) = (if h' = h then Some (Attach s) else obj h' a)" for h'
    using session_op_queues(2) [OF obj, of OpAttach "Attach s" "[]"] by simp
  have inv': "stream_inv (Attach s) xs"
    using inv(1) same_stream_inv [OF same_stream_Attach] by simp
  have "obj h' (session_op (ae_now e) h (OpReplay (m_last_seq m)) (session_op (ae_now e) h OpAttach a))
      = (if h' = h then Some (fst (flush (Attach s))) else obj h' a)" for h'
    using session_op_queues(2) [of h "session_op (ae_now e) h OpAttach a" "Attach s" "OpReplay (m_last_seq m)"]
      at Replay_spec [OF inv' inv(2)] by simp
  then show "obj h' (handleMsg e m a) = (if h' = h then Some (fst (flush (Attach s))) else obj h' a)"
    using t sess by (simp add: handleMsg_def handleAttach_def Let_def start_task_def obj_def split: option.split)
qed

lemma flush_attach:
  assumes "stream_inv s xs"
  shows "stream_inv (fst (flush (Attach s))) xs" and "handed (fst (flush (Attach s))) xs = xs"
    and "so_sid (ss_opts (fst (flush (Attach s)))) = so_sid (ss_opts s)"
proof -
  have inv: "stream_inv (Attach s) xs"
    using assms same_stream_inv [OF same_stream_Attach] by simp
  show "stream_inv (fst (flush (Attach s))) xs" "handed (fst (flush (Attach s))) xs = xs"
    using flush_stream [OF inv] flush_handed [OF inv] by (simp_all add: stream_step_def)
  show "so_sid (ss_opts (fst (flush (Attach s)))) = so_sid (ss_opts s)"
    by (simp add: emit_fields Attach_def)
qed

text \<open>The agent's side: what is queued for the session from the attachment on.\<close>

lemma attached_queue:
  assumes inv: "stream_inv s xs" and "length xs < stream_bound"
    and "agent_session (m_sid m) a = Some (h, s)" and "so_sid (ss_opts s) = m_sid m" and "m_t m = TSessionAttach"
    and "foreign (m_sid m) h steps a" and "ag_conn a = Some w"
    and "ag_conn (link_steps steps (handleMsg e m a)) = Some w'" and "\<not> wc_closed w'"
  shows "\<exists>new s' fx. wc_out w' = wc_out w @ new \<and> obj h (link_steps steps (handleMsg e m a)) = Some s'
    \<and> filter (of_sid (m_sid m)) (binaries new) = map wire_bytes (pending_frames (m_sid m) s
        @ replay_frames (m_sid m) (m_last_seq m) s xs @ fx_frames (m_sid m) fx)
    \<and> stream_step (fst (flush (Attach s))) xs s' (xs @ emitted_all (ops_on h steps) (fst (flush (Attach s)))) fx"
proof -
  let ?sid = "m_sid m" and ?s = "fst (flush (Attach s))"
  let ?fs = "pending_frames (m_sid m) s @ replay_frames (m_sid m) (m_last_seq m) s xs"
  note fl = flush_attach [OF inv] and at = attach_queues [OF assms(3,4) inv assms(2,5), where e = e]
  have foreign: "foreign ?sid h steps (handleMsg e m a)"
    using assms(6) by (auto simp: foreign_def at(2) split: option.splits)
  obtain s' fx where later: "perform_all (ops_on h steps) ?s = (s', fx)"
    by fastforce
  have sid: "so_sid (ss_opts ?s) = ?sid" using fl(3) assms(4) by simp
  obtain bs where bs: "queues (handleMsg e m a) bs (link_steps steps (handleMsg e m a))"
      "filter (of_sid ?sid) bs = map wire_bytes (fx_frames ?sid fx)" "obj h (link_steps steps (handleMsg e m a)) = Some s'"
    using link_steps_queues [OF _ sid foreign later] at(2) [of h] by auto
  obtain new where new: "wc_out w' = wc_out w @ new" "binaries new = map wire_bytes ?fs @ bs"
    using queues_trans [OF at(1) bs(1)] assms(7-9) by (auto simp: queues_def)
  have "sendable ?fs" "\<And>f. f \<in> set ?fs \<Longrightarrow> fr_sid f = ?sid"
    by (rule attach_sendable, rule attach_sendable(2))
  from filter_wire_bytes [OF this, of ?sid]
  have "filter (of_sid ?sid) (binaries new) = map wire_bytes (?fs @ fx_frames ?sid fx)"
    by (simp add: new(2) bs(2))
  then show ?thesis
    using new(1) bs(3) perform_all_stream [OF fl(1), of "ops_on h steps"]
    by (intro exI [of _ new] exI [of _ s'] exI [of _ fx]) (simp add: later)
qed

text \<open>The client's side: the whole snapshot, then all but the snapshots for others.\<close>

lemma replay_frames_spec:
  shows "replay_frames sid q s xs \<noteq> []"
    and "\<forall>f \<in> set (replay_frames sid q s xs). fr_type f = FrameSnapshot \<and> fr_seq f = word_of_nat (length xs)"
    and "chunk_flags True (if replay_delta q s xs then 0 else FlagReset) (replay_frames sid q s xs)"
    and "concat (map fr_payload (replay_frames sid q s xs)) = replay_data q s xs"
  using Chunk_spec [of FrameSnapshot sid "word_of_nat (length xs)" "replay_data q s xs"
      "if replay_delta q s xs then 0 else FlagReset"]
  by (simp_all add: replay_frames_def frame_type_defs)

lemma seen_attach:
  "seen True (pending_frames sid s @ replay_frames sid q s xs @ fs)
   = replay_frames sid q s xs @ filter (\<lambda>f. fr_type f \<noteq> FrameSnapshot) fs"
proof -
  have early: "\<forall>f \<in> set (pending_frames sid s). fr_type f = FrameOutput"
    using Chunk_spec [of FrameOutput sid "ss_pending_seq s" "ss_pending s" 0] by (simp add: pending_frames_def)
  have "(if replay_delta q s xs then 0 else FlagReset) AND FlagMore = 0"
    by (simp add: FlagReset_def FlagMore_def)
  from seen_snapshot [OF replay_frames_spec(1) _ chunk_flags_last [OF replay_frames_spec(3) this]]
  show ?thesis
    using replay_frames_spec(2) [of sid q s xs] by (simp add: seen_early [OF early] seen_later)
qed

lemma read_wire_bytes: "sendable fs \<Longrightarrow> map Unmarshal (map wire_bytes fs) = map Inr fs"
  by (auto simp: sendable_def wire_bytes_def Marshal_Unmarshal_eq)

lemma step_outputs:
  assumes "stream_step s xs s' ys fx" and "handed s xs = xs"
  shows "contiguous (word_of_nat (length xs)) (outputs (fx_frames sid fx))"
    and "xs @ concat (map fr_payload (outputs (fx_frames sid fx))) @ ss_pending s' = ys"
proof -
  have "out_ok (word_of_nat (length xs)) fx" and handed: "handed s' ys = xs @ out_bytes fx"
    using assms by (simp_all add: stream_step_def)
  note out = outputs_stream [OF this(1), of sid]
  show "contiguous (word_of_nat (length xs)) (outputs (fx_frames sid fx))" using out by simp
  obtain zs where "ys = zs @ ss_pending s'"
    using assms(1) by (auto simp: stream_step_def stream_inv_def)
  with handed out show "xs @ concat (map fr_payload (outputs (fx_frames sid fx))) @ ss_pending s' = ys"
    by (simp add: handed_def)
qed

definition skipped :: "u64 \<Rightarrow> session \<Rightarrow> byte list \<Rightarrow> byte list" where
  "skipped q s xs = (if replay_delta q s xs then take (unat q) xs
     else take (length xs - min (nat SnapshotTail) (ring_Cap (ss_ring s))) xs)"

lemma skipped_replay: "skipped q s xs @ replay_data q s xs = xs"
  by (simp add: skipped_def replay_data_def last_bytes_def)

section \<open>Properties\<close>


text \<open>The demonstration: a client that has two bytes of five, of which two are pending; then two more are
  produced and flushed.\<close>

abbreviation demo_steps :: "(instant \<times> nat \<times> op) list" where
  "demo_steps \<equiv> [(3, 0, OpEmit 3 [6, 7]), (4, 0, OpFlush)]"

lemma demo_steps_open:
  assumes "obj 0 a = Some s" and "ss_pending s = []" and "so_on_output (ss_opts s)"
    and "ag_conn a = Some w" and "\<not> wc_closed w" and "length (wc_out w) = 2"
  shows "\<exists>w'. ag_conn (link_steps demo_steps a) = Some w' \<and> \<not> wc_closed w'"
proof -
  let ?s = "fst (emit 3 [6, 7] s)"
  have s1: "snd (emit 3 [6, 7] s) = []" "ss_pending ?s = [6, 7]" "so_on_output (ss_opts ?s)"
    using assms(2,3) by (simp_all add: emit_def emit_locked_def Let_def batch_limit_def case_prod_beta)
  have op1: "session_op 3 0 (OpEmit 3 [6, 7]) a = put_obj 0 ?s a"
    using assms(1) s1(1) by (simp add: session_op_def run_effects_def case_prod_beta)
  let ?fs = "Chunk FrameOutput (so_sid (ss_opts ?s)) (ss_pending_seq ?s) [6, 7] 0"
  have op2: "session_op 4 0 OpFlush (put_obj 0 ?s a) = fold sendFrame ?fs (put_obj 0 (fst (flush ?s)) (put_obj 0 ?s a))"
    using s1(2,3) by (simp add: session_op_def case_prod_beta flush_effects run_effects_def onOutput_def)
  have "length (wc_out w) + length ?fs \<le> sendQueueLen"
    by (simp add: assms(6) length_small_Chunk MaxPayload_def sendQueueLen_def)
  then show ?thesis
    using send_frames_room [OF sendable_Chunk _ assms(5)] assms(4)
    unfolding link_steps_def by (simp add: op1 op2)
qed


end
