(* ===== verification/Paths.thy ===== *)
theory Paths
  imports Prelude
begin

text \<open>
  The lexical operations on slash-separated paths that the code takes from Go's library
  (\<^verbatim>\<open>path.Clean\<close>, \<^verbatim>\<open>filepath.Join\<close>, \<^verbatim>\<open>filepath.Dir\<close>, \<^verbatim>\<open>filepath.Base\<close>), for systems where the separator
  is the slash, and the paths that a file system of \<^verbatim>\<open>io/fs\<close> accepts.
\<close>

section \<open>Cleaning a path\<close>

text \<open>One element of a path, with the elements kept so far, the last first.\<close>

definition clean_step :: "bool \<Rightarrow> string list \<Rightarrow> string \<Rightarrow> string list" where
  "clean_step rooted out e =
     (if e = '''' \<or> e = ''.'' then out
      else if e = ''..'' then
        (case out of
           [] \<Rightarrow> if rooted then [] else [e]
         | x # xs \<Rightarrow> if x = ''..'' then e # out else xs)
      else e # out)"

definition clean_elements :: "bool \<Rightarrow> string list \<Rightarrow> string list" where
  "clean_elements rooted es = rev (fold (\<lambda>e out. clean_step rooted out e) es [])"

definition path_clean :: "string \<Rightarrow> string" where
  "path_clean p =
     (if p = '''' then ''.''
      else
        let rooted = (hd p = CHR ''/''); es = clean_elements rooted (split_at (CHR ''/'') p)
        in if rooted then CHR ''/'' # join ''/'' es else if es = [] then ''.'' else join ''/'' es)"

text \<open>Joining cleans and leaves out what is empty.\<close>

definition path_join :: "string list \<Rightarrow> string" where
  "path_join es = (let es = filter (\<lambda>e. e \<noteq> '''') es in if es = [] then '''' else path_clean (join ''/'' es))"

text \<open>The directory of a path: up to its last slash, cleaned. The base: its last element.\<close>

definition path_dir :: "string \<Rightarrow> string" where
  "path_dir p = path_clean (rev (dropWhile (\<lambda>c. c \<noteq> CHR ''/'') (rev p)))"

definition path_base :: "string \<Rightarrow> string" where
  "path_base p =
     (if p = '''' then ''.''
      else
        let p = rev (dropWhile (\<lambda>c. c = CHR ''/'') (rev p)); b = rev (takeWhile (\<lambda>c. c \<noteq> CHR ''/'') (rev p))
        in if b = '''' then ''/'' else b)"

text \<open>\<^verbatim>\<open>fs.ValidPath\<close>: no empty element, no dot and no dot-dot, but for the root, which is a dot.\<close>

definition plain_element :: "string \<Rightarrow> bool" where
  "plain_element e \<longleftrightarrow> e \<noteq> '''' \<and> e \<noteq> ''.'' \<and> e \<noteq> ''..'' \<and> CHR ''/'' \<notin> set e"

definition valid_path :: "string \<Rightarrow> bool" where
  "valid_path p \<longleftrightarrow> p = ''.'' \<or> list_all plain_element (split_at (CHR ''/'') p)"

section \<open>Lemmas\<close>

lemma split_join:
  assumes "es \<noteq> []" and "\<forall>e \<in> set es. c \<notin> set e"
  shows "split_at c (join [c] es) = es"
  using assms
proof (induction es)
  case (Cons e es)
  show ?case
  proof (cases "es = []")
    case True
    then show ?thesis using Cons.prems by (simp add: split_at_last)
  next
    case False
    then show ?thesis using Cons by (simp add: join_Cons split_at_line)
  qed
qed simp

lemma join_split: "join [c] (split_at c s) = s"
  by (induction s) (auto simp: join_Cons split: list.split elim: join.elims)

lemma clean_step_plain:
  "plain_element e \<Longrightarrow> clean_step rooted out e = e # out"
  by (simp add: clean_step_def plain_element_def)

lemma clean_rooted_plain:
  assumes "\<forall>e \<in> set es. CHR ''/'' \<notin> set e"
  shows "list_all plain_element (clean_elements True es)"
proof -
  have "list_all plain_element (fold (\<lambda>e out. clean_step True out e) es out)" if "list_all plain_element out" for out
    using assms that
  proof (induction es arbitrary: out)
    case (Cons e es)
    have "list_all plain_element (clean_step True out e)"
      using Cons.prems by (auto simp: clean_step_def plain_element_def list_all_iff split: list.split)
    then show ?case using Cons by simp
  qed simp
  then show ?thesis by (simp add: clean_elements_def)
qed

lemma clean_plain_id: "list_all plain_element es \<Longrightarrow> clean_elements rooted es = es"
proof -
  have "list_all plain_element es \<Longrightarrow> fold (\<lambda>e out. clean_step rooted out e) es out = rev es @ out" for out
    by (induction es arbitrary: out) (simp_all add: clean_step_plain)
  then show "list_all plain_element es \<Longrightarrow> clean_elements rooted es = es"
    by (simp add: clean_elements_def)
qed

lemma split_no_separator: "w \<in> set (split_at c s) \<Longrightarrow> c \<notin> set w"
  using split_at_subset by fastforce

text \<open>A rooted path is cleaned to the root or a valid path behind the slash, and a valid one is kept.\<close>

lemma clean_rooted:
  obtains es where "path_clean (CHR ''/'' # p) = CHR ''/'' # join ''/'' es" and "list_all plain_element es"
proof
  let ?es = "clean_elements True (split_at (CHR ''/'') (CHR ''/'' # p))"
  show "path_clean (CHR ''/'' # p) = CHR ''/'' # join ''/'' ?es"
    by (simp add: path_clean_def Let_def)
  show "list_all plain_element ?es"
    by (rule clean_rooted_plain) (blast dest: split_no_separator)
qed

lemma valid_join: "es \<noteq> [] \<Longrightarrow> list_all plain_element es \<Longrightarrow> valid_path (join ''/'' es)"
  using split_join [of es "CHR ''/''"] by (simp add: valid_path_def list_all_iff plain_element_def)

lemma clean_valid: "valid_path p \<Longrightarrow> p \<noteq> ''.'' \<Longrightarrow> path_clean (CHR ''/'' # p) = CHR ''/'' # p"
proof -
  assume "valid_path p" "p \<noteq> ''.''"
  then have plain: "list_all plain_element (split_at (CHR ''/'') p)" by (simp add: valid_path_def)
  then have "clean_elements True ([] # split_at (CHR ''/'') p) = split_at (CHR ''/'') p"
    using clean_plain_id [OF plain, of True] by (simp add: clean_elements_def clean_step_def)
  then show ?thesis by (simp add: path_clean_def join_split)
qed

lemma path_clean_slash: "path_clean (CHR ''/'' # CHR ''/'' # p) = path_clean (CHR ''/'' # p)"
  by (simp add: path_clean_def clean_elements_def clean_step_def Let_def)

end
