(* ===== verification/StaticFiles.thy ===== *)
theory StaticFiles
  imports Paths
begin

text \<open>
  The relay's handler of the console files (\<^verbatim>\<open>internal/relay/static.go\<close>). The file system is a map from
  names to what is there. \<open>ServeFile\<close> is the call of \<^verbatim>\<open>http.ServeFileFS\<close> with the name it is given; what
  that does then, its redirect of paths that end in \<^verbatim>\<open>/index.html\<close> included, is Go's library.
\<close>

section \<open>The handler\<close>

datatype web_entry = WebFile | WebDir

datatype static_reply =
    StaticError nat string
  | ServeFile (sf_name: string) (sf_cache: string)

definition immutable_cache :: string where
  "immutable_cache = ''public, max-age=31536000, immutable''"

definition staticHandler :: "(string \<Rightarrow> web_entry option) option \<Rightarrow> string \<Rightarrow> string \<Rightarrow> static_reply" where
  "staticHandler web http_method url_path = (case web of
     None \<Rightarrow> StaticError 404 ''web console not bundled; pass --web-dir''
   | Some fsys \<Rightarrow>
       if http_method \<noteq> ''GET'' \<and> http_method \<noteq> ''HEAD'' then StaticError 405 ''method not allowed''
       else
         let cleaned = path_clean (CHR ''/'' # url_path);
             name = (if starts_with ''/'' cleaned then drop 1 cleaned else cleaned);
             name = (if name = '''' then ''index.html'' else name)
         in if fsys name = Some WebFile
            then ServeFile name (if starts_with ''assets/'' name then immutable_cache else ''no-cache'')
            else ServeFile ''index.html'' ''no-cache'')"

lemma index_valid: "valid_path ''index.html''"
  by code_simp

section \<open>Properties\<close>

text \<open>C12: The console's file server stays inside its directory: whatever path a request has, the file that
  is served has a valid name, without empty, dot or dot-dot elements and not absolute, and it is
  a file that is there or the start page; only files under assets are marked immutable; and a
  file that is there is served when it is asked for by its name.\<close>

theorem static_files_confined:
  assumes "web = Some fsys" and "http_method = ''GET'' \<or> http_method = ''HEAD''"
  shows "\<exists>name cache. staticHandler web http_method url_path = ServeFile name cache
    \<and> valid_path name \<and> (fsys name = Some WebFile \<or> name = ''index.html'')
    \<and> (cache = immutable_cache \<longrightarrow> starts_with ''assets/'' name \<and> fsys name = Some WebFile)
    \<and> (valid_path f \<and> f \<noteq> ''.'' \<and> url_path \<in> {f, CHR ''/'' # f} \<and> fsys f = Some WebFile \<longrightarrow> name = f)"
proof -
  obtain es where es: "path_clean (CHR ''/'' # url_path) = CHR ''/'' # join ''/'' es" "list_all plain_element es"
    by (rule clean_rooted)
  let ?n = "if es = [] then ''index.html'' else join ''/'' es"
  have "join ''/'' es = '''' \<longleftrightarrow> es = []"
    using es(2) by (cases es; cases "tl es") (auto simp: plain_element_def)
  then have reply: "staticHandler web http_method url_path = (if fsys ?n = Some WebFile
      then ServeFile ?n (if starts_with ''assets/'' ?n then immutable_cache else ''no-cache'') else ServeFile ''index.html'' ''no-cache'')"
    using assms by (auto simp: staticHandler_def es(1) starts_with_def)
  have valid: "valid_path ?n"
    using valid_join [OF _ es(2)] index_valid by simp
  have "?n = f" if f: "valid_path f" "f \<noteq> ''.''" "url_path \<in> {f, CHR ''/'' # f}"
  proof -
    have "path_clean (CHR ''/'' # url_path) = CHR ''/'' # f"
      using f clean_valid [OF f(1,2)] path_clean_slash [of f] by auto
    then have "join ''/'' es = f" using es(1) by simp
    moreover have "f \<noteq> ''''" using f(1,2) by (auto simp: valid_path_def plain_element_def)
    ultimately show ?thesis by auto
  qed
  then show ?thesis
    using valid index_valid by (auto simp: reply immutable_cache_def)
qed

definition demo_web :: "string \<Rightarrow> web_entry option" where
  "demo_web f = (if f \<in> {''index.html'', ''assets/app.js''} then Some WebFile else if f = ''assets'' then Some WebDir else None)"

theorem static_files_confined_witness:
  "\<exists>name cache. staticHandler (Some demo_web) ''GET'' ''/../assets//x/../app.js'' = ServeFile name cache \<and> valid_path name
     \<and> staticHandler (Some demo_web) ''GET'' ''/../assets//x/../app.js'' = ServeFile ''assets/app.js'' immutable_cache
     \<and> staticHandler (Some demo_web) ''GET'' ''/../../etc/passwd'' = ServeFile ''index.html'' ''no-cache''"
proof -
  have "staticHandler (Some demo_web) ''GET'' ''/../assets//x/../app.js'' = ServeFile ''assets/app.js'' immutable_cache"
    "staticHandler (Some demo_web) ''GET'' ''/../../etc/passwd'' = ServeFile ''index.html'' ''no-cache''"
    by code_simp+
  with static_files_confined [of "Some demo_web" demo_web "''GET''" "''/../assets//x/../app.js''"] show ?thesis
    by auto
qed

end
