(* ===== verification/HookLink.thy ===== *)
theory HookLink
  imports Agent
begin

text \<open>
  The way a signal of a tool takes to the hooks endpoint: the settings that the agent generates
  for Claude and their shell commands (\<^verbatim>\<open>internal/hooks/claude.go\<close>), the commands
  \<^verbatim>\<open>tx-agent hook\<close> and \<^verbatim>\<open>tx-agent notify\<close> that the tools run (\<^verbatim>\<open>cmd/tx-agent/main.go\<close>,
  \<^verbatim>\<open>internal/agent/notify.go\<close>), and the routes of the endpoint (\<^verbatim>\<open>internal/hooks/server.go\<close>).
  The lemmas put the pieces together: what the tool fires arrives at the handler of its session.
  JSON texts, HTTP and the tools themselves are not modelled.
\<close>

section \<open>Shell commands\<close>

definition hook_quote_chars :: string where
  "hook_quote_chars = [CHR '' '', TAB, DQUOTE, SQUOTE, BACKTICK] @ ''$&|;<>()[]{}*?!'' @ [BSLASH] @ ''#~^%,'' @ [NL]"

definition hook_shQuote :: "bool \<Rightarrow> string \<Rightarrow> string" where
  "hook_shQuote windows s =
     (if s \<noteq> '''' \<and> \<not> list_ex (\<lambda>c. c \<in> set hook_quote_chars) s then s
      else if windows then [DQUOTE] @ replace_char DQUOTE [BSLASH, DQUOTE] s @ [DQUOTE]
      else [SQUOTE] @ replace_char SQUOTE [SQUOTE, BSLASH, SQUOTE, SQUOTE] s @ [SQUOTE])"

definition shJoin :: "bool \<Rightarrow> string list \<Rightarrow> string" where
  "shJoin windows argv = join '' '' (map (hook_shQuote windows) argv)"

section \<open>Claude's settings\<close>

definition ClaudeEvents :: "string list" where
  "ClaudeEvents = [''SessionStart'', ''UserPromptSubmit'', ''PermissionRequest'', ''PostToolUse'',
     ''Notification'', ''Stop'', ''StopFailure'', ''SessionEnd'']"

definition CommandHookEvents :: "string \<Rightarrow> bool" where
  "CommandHookEvents ev \<longleftrightarrow> ev = ''SessionStart''"

record settings_opts =
  st_sid :: u32
  st_port :: int
  st_token :: string
  st_mode :: approval_mode
  st_remote_timeout :: int
  st_notify_timeout :: int
  st_exe :: string

text \<open>An entry of the hooks: its URL, its header, the variables it may use, and its timeout in seconds.\<close>

datatype claude_hook =
    HttpHook (hk_url: string) (hk_authorization: string) (hk_env: "string list") (hk_timeout: "int option")
  | CommandHook (hk_command: string) (hk_limit: int)

record claude_settings =
  cs_hooks :: "(string, claude_hook) gomap"
  cs_allowed_urls :: "string list"
  cs_status_line :: string

definition local_base :: "int \<Rightarrow> string" where
  "local_base port = ''http://127.0.0.1:'' @ format_int port"

definition forwardCommand :: "bool \<Rightarrow> settings_opts \<Rightarrow> string \<Rightarrow> string" where
  "forwardCommand windows o' event =
     (let sid = format_uint (unat (st_sid o')) in
      if st_exe o' \<noteq> '''' then
        shJoin windows [st_exe o', ''hook'', ''--sid'', sid, ''--port'', format_int (st_port o'),
          ''--token'', st_token o', ''--event'', event]
      else
        let url = (if event = ''statusline'' then local_base (st_port o') @ ''/statusline/'' @ sid
                   else local_base (st_port o') @ ''/hook/claude/'' @ sid @ ''/'' @ event)
        in shJoin windows [if windows then ''curl.exe'' else ''curl'', ''-s'', ''-X'', ''POST'', ''--data-binary'',
             ''@-'', url, ''-H'', ''Authorization: Bearer '' @ st_token o'])"

definition ClaudeSettings :: "bool \<Rightarrow> settings_opts \<Rightarrow> claude_settings" where
  "ClaudeSettings windows o' =
     (let base = local_base (st_port o');
          perm = (if st_remote_timeout o' = 0 then 3600 else st_remote_timeout o');
          other = (if st_notify_timeout o' = 0 then 10 else st_notify_timeout o');
          hook = (\<lambda>ev.
            if CommandHookEvents ev then CommandHook (forwardCommand windows o' ev) other
            else
              let t = (if ev = ''PermissionRequest'' then perm else other)
              in HttpHook (base @ ''/hook/claude/'' @ format_uint (unat (st_sid o')) @ ''/'' @ ev)
                   ''Bearer $TX_HOOK_TOKEN'' [''TX_HOOK_TOKEN''] (if t > 0 then Some t else None))
      in \<lparr>cs_hooks = map (\<lambda>ev. (ev, hook ev)) ClaudeEvents,
          cs_allowed_urls = [base @ ''/hook/claude/*''],
          cs_status_line = forwardCommand windows o' ''statusline''\<rparr>)"

section \<open>The forwarding commands\<close>

text \<open>
  \<^verbatim>\<open>flag.FlagSet.Parse\<close> for flags that all take a value: \<open>ok\<close> says whether a flag is defined and
  its value readable. What is left are the other arguments.
\<close>

definition flag_split :: "string \<Rightarrow> string \<times> string option" where
  "flag_split name = (case name of
     [] \<Rightarrow> ('''', None)
   | c # r \<Rightarrow>
       if CHR ''='' \<in> set r
       then (c # takeWhile (\<lambda>x. x \<noteq> CHR ''='') r, Some (tl (dropWhile (\<lambda>x. x \<noteq> CHR ''='') r)))
       else (name, None))"

fun parse_flags ::
  "(string \<Rightarrow> string option \<Rightarrow> bool) \<Rightarrow> string list \<Rightarrow> (string, string) gomap \<Rightarrow> ((string, string) gomap \<times> string list) option" where
  "parse_flags ok [] m = Some (m, [])"
| "parse_flags ok (a # as) m =
     (if length a < 2 \<or> hd a \<noteq> CHR ''-'' then Some (m, a # as)
      else if a = ''--'' then Some (m, as)
      else
        let name = drop (if a ! 1 = CHR ''-'' then 2 else 1) a in
        if name = '''' \<or> hd name = CHR ''-'' \<or> hd name = CHR ''='' then None
        else case flag_split name of
          (k, Some v) \<Rightarrow> if ok k (Some v) then parse_flags ok as (mput k v m) else None
        | (k, None) \<Rightarrow>
            if \<not> ok k None then None
            else case as of
              [] \<Rightarrow> None
            | v # as' \<Rightarrow> if ok k (Some v) then parse_flags ok as' (mput k v m) else None)"

text \<open>
  The numbers: plain decimals; \<open>other\<close> is what \<^verbatim>\<open>strconv\<close> makes of its other notations (a sign, a
  prefix for the base, underscores).
\<close>

definition plain_decimal :: "string \<Rightarrow> bool" where
  "plain_decimal s \<longleftrightarrow> s = ''0'' \<or> s \<noteq> '''' \<and> list_all is_digit s \<and> hd s \<noteq> CHR ''0''"

definition flag_uint :: "(string \<Rightarrow> int option) \<Rightarrow> string \<Rightarrow> nat option" where
  "flag_uint other s =
     (if plain_decimal s then (if decimal_value s < 2 ^ 64 then Some (decimal_value s) else None)
      else case other s of None \<Rightarrow> None | Some n \<Rightarrow> if 0 \<le> n \<and> n < 2 ^ 64 then Some (nat n) else None)"

definition flag_int :: "(string \<Rightarrow> int option) \<Rightarrow> string \<Rightarrow> int option" where
  "flag_int other s =
     (if plain_decimal s then (if decimal_value s < 2 ^ 63 then Some (int (decimal_value s)) else None)
      else case other s of None \<Rightarrow> None | Some n \<Rightarrow> if - (2 ^ 63) \<le> n \<and> n < 2 ^ 63 then Some n else None)"

definition hook_flag_ok :: "(string \<Rightarrow> int option) \<Rightarrow> bool \<Rightarrow> string \<Rightarrow> string option \<Rightarrow> bool" where
  "hook_flag_ok other with_event k v \<longleftrightarrow>
     (if k = ''sid'' then (case v of None \<Rightarrow> True | Some s \<Rightarrow> flag_uint other s \<noteq> None)
      else if k = ''port'' then (case v of None \<Rightarrow> True | Some s \<Rightarrow> flag_int other s \<noteq> None)
      else k = ''token'' \<or> with_event \<and> k = ''event'')"

definition flag_text :: "(string, string) gomap \<Rightarrow> string \<Rightarrow> string" where
  "flag_text m k = (case mget m k of None \<Rightarrow> '''' | Some v \<Rightarrow> v)"

definition sid_flag :: "(string \<Rightarrow> int option) \<Rightarrow> (string, string) gomap \<Rightarrow> u32" where
  "sid_flag other m = (case mget m ''sid'' of None \<Rightarrow> 0 | Some s \<Rightarrow> word_of_nat (the (flag_uint other s)))"

definition port_flag :: "(string \<Rightarrow> int option) \<Rightarrow> (string, string) gomap \<Rightarrow> int" where
  "port_flag other m = (case mget m ''port'' of None \<Rightarrow> 0 | Some s \<Rightarrow> the (flag_int other s))"

text \<open>A request to the local endpoint: its URL, its header and its body.\<close>

record local_request =
  lr_url :: string
  lr_authorization :: string
  lr_body :: string

datatype forward_error = BadFlags | MissingFlag | BadPayload

definition Notify :: "int \<Rightarrow> u32 \<Rightarrow> string \<Rightarrow> string \<Rightarrow> forward_error + local_request" where
  "Notify port sid token payload =
     (let payload = trim_space payload in
      if port \<le> 0 \<or> sid = 0 \<or> token = '''' then Inl MissingFlag
      else if payload = '''' \<or> hd payload \<noteq> CHR ''{'' then Inl BadPayload
      else Inr \<lparr>lr_url = local_base port @ ''/hook/codex/'' @ format_uint (unat sid) @ ''/notify'',
                lr_authorization = ''Bearer '' @ token, lr_body = payload\<rparr>)"

text \<open>\<open>input\<close> is what the standard input holds, up to its limit.\<close>

definition ForwardHook :: "int \<Rightarrow> u32 \<Rightarrow> string \<Rightarrow> string \<Rightarrow> string \<Rightarrow> forward_error + local_request" where
  "ForwardHook port sid token event input =
     (if port \<le> 0 \<or> sid = 0 \<or> token = '''' \<or> event = '''' then Inl MissingFlag
      else Inr \<lparr>lr_url = (if event = ''statusline''
                  then local_base port @ ''/statusline/'' @ format_uint (unat sid)
                  else local_base port @ ''/hook/claude/'' @ format_uint (unat sid) @ ''/'' @ event),
                lr_authorization = ''Bearer '' @ token, lr_body = input\<rparr>)"

text \<open>
  What becomes of the endpoint's answer: a status other than 2xx is an error with the start of its body;
  a notification has no output, a hook's output is the body, up to its limit.
\<close>

datatype local_response = NoResponse | LocalResponse nat string
datatype post_error = PostFailed | PostRefused nat string

definition response_error :: "local_response \<Rightarrow> post_error option" where
  "response_error r = (case r of
     NoResponse \<Rightarrow> Some PostFailed
   | LocalResponse status body \<Rightarrow>
       if status div 100 \<noteq> 2 then Some (PostRefused status (trim_space (take 512 body))) else None)"

definition hook_output :: "local_response \<Rightarrow> post_error + string" where
  "hook_output r = (case r of
     LocalResponse status body \<Rightarrow>
       (case response_error r of Some err \<Rightarrow> Inl err | None \<Rightarrow> Inr (take (4 * 1024 * 1024) body))
   | NoResponse \<Rightarrow> Inl PostFailed)"

definition cmdHook :: "(string \<Rightarrow> int option) \<Rightarrow> string list \<Rightarrow> string \<Rightarrow> forward_error + local_request" where
  "cmdHook other args input = (case parse_flags (hook_flag_ok other True) args [] of
     None \<Rightarrow> Inl BadFlags
   | Some (m, _) \<Rightarrow> ForwardHook (port_flag other m) (sid_flag other m) (flag_text m ''token'') (flag_text m ''event'') input)"

definition cmdNotify :: "(string \<Rightarrow> int option) \<Rightarrow> string list \<Rightarrow> forward_error + local_request" where
  "cmdNotify other args = (case parse_flags (hook_flag_ok other False) args [] of
     None \<Rightarrow> Inl BadFlags
   | Some (m, rest) \<Rightarrow>
       if rest = [] then Inl BadPayload
       else Notify (port_flag other m) (sid_flag other m) (flag_text m ''token'') (last rest))"

section \<open>The routes of the endpoint\<close>

datatype hook_route =
    AtClaude string string
  | AtStatusLine string
  | AtCodexNotify string
  | AtCodexHook string string

text \<open>
  The patterns of the router, on a path without percent signs and empty segments; the more
  specific of two patterns is chosen.
\<close>

definition hook_mux :: "string \<Rightarrow> hook_route option" where
  "hook_mux path = (case split_at (CHR ''/'') path of
     [r, h, tool, sid, ev] \<Rightarrow>
       if r \<noteq> '''' \<or> h \<noteq> ''hook'' \<or> sid = '''' \<or> ev = '''' then None
       else if tool = ''claude'' then Some (AtClaude sid ev)
       else if tool = ''codex'' then Some (if ev = ''notify'' then AtCodexNotify sid else AtCodexHook sid ev)
       else None
   | [r, h, sid] \<Rightarrow> if r = '''' \<and> h = ''statusline'' \<and> sid \<noteq> '''' then Some (AtStatusLine sid) else None
   | _ \<Rightarrow> None)"

text \<open>A POST request to the endpoint that listens on a port; another port is another program.\<close>

definition hook_receive :: "hook_env \<Rightarrow> int \<Rightarrow> string \<Rightarrow> string \<Rightarrow> (reply + hook_route) option" where
  "hook_receive e port url authorization =
     (if \<not> starts_with (local_base port @ ''/'') url then None
      else Some (case hook_mux (drop (length (local_base port)) url) of
        None \<Rightarrow> Inl (RError 404 ''404 page not found'')
      | Some rt \<Rightarrow> if hook_auth e authorization then Inr rt else Inl (RError 401 ''unauthorized'')))"

section \<open>The agent's part\<close>

definition notifyTimeout :: int where "notifyTimeout = 10"

definition agent_settings_opts :: "agent_env \<Rightarrow> u32 \<Rightarrow> approval_mode \<Rightarrow> agent \<Rightarrow> settings_opts" where
  "agent_settings_opts e sid mode a = \<lparr>st_sid = sid, st_port = int (ae_hooks_port e), st_token = cf_hook_token (ag_cfg a),
     st_mode = mode, st_remote_timeout = remoteFirstTimeout, st_notify_timeout = notifyTimeout, st_exe = ag_exe a\<rparr>"

text \<open>
  What a tool does with its configuration: \<open>interp\<close> is Claude's way to fill the variables of a
  header from its environment; a command is read by the shell and run as the agent's program.
\<close>

definition run_tx_agent :: "(string \<Rightarrow> int option) \<Rightarrow> string \<Rightarrow> string list \<Rightarrow> string \<Rightarrow> local_request option" where
  "run_tx_agent other exe argv input = (case argv of
     p # cmd # args \<Rightarrow>
       if p \<noteq> exe then None
       else if cmd = ''hook'' then (case cmdHook other args input of Inr r \<Rightarrow> Some r | Inl _ \<Rightarrow> None)
       else if cmd = ''notify'' then (case cmdNotify other args of Inr r \<Rightarrow> Some r | Inl _ \<Rightarrow> None)
       else None
   | _ \<Rightarrow> None)"

definition run_command :: "(string \<Rightarrow> int option) \<Rightarrow> string \<Rightarrow> string \<Rightarrow> string \<Rightarrow> local_request option" where
  "run_command other exe cmd input = (case sh_words cmd of
     Some (argv, []) \<Rightarrow> run_tx_agent other exe argv input
   | _ \<Rightarrow> None)"

definition url_matches :: "string \<Rightarrow> string \<Rightarrow> bool" where
  "url_matches url pat \<longleftrightarrow> (if ends_with ''*'' pat then starts_with (butlast pat) url else url = pat)"

definition claude_fires ::
  "(string list \<Rightarrow> string \<Rightarrow> string) \<Rightarrow> (string \<Rightarrow> int option) \<Rightarrow> string \<Rightarrow> claude_settings \<Rightarrow> string \<Rightarrow> string
     \<Rightarrow> local_request option" where
  "claude_fires interp other exe cs event input = (case mget (cs_hooks cs) event of
     None \<Rightarrow> None
   | Some (HttpHook url auth vars t) \<Rightarrow>
       if list_ex (url_matches url) (cs_allowed_urls cs)
       then Some \<lparr>lr_url = url, lr_authorization = interp vars auth, lr_body = input\<rparr> else None
   | Some (CommandHook cmd t) \<Rightarrow> run_command other exe cmd input)"

section \<open>From end to end\<close>

lemma part_reads_hook: "part_reads (hook_shQuote False a) a"
proof (cases "a \<noteq> '''' \<and> \<not> list_ex (\<lambda>c. c \<in> set hook_quote_chars) a")
  case True
  have "set quote_chars \<subseteq> set hook_quote_chars" "NL \<in> set hook_quote_chars"
    by (auto simp: quote_chars_def hook_quote_chars_def)
  with True have "list_all sh_plain a"
    by (auto simp: sh_plain_def list_ex_iff list_all_iff)
  with True show ?thesis
    by (simp add: hook_shQuote_def part_reads_plain)
next
  case False
  then have "hook_shQuote False a = sh_single_quote a"
    by (auto simp: hook_shQuote_def sh_single_quote_def)
  then show ?thesis by (simp add: part_reads_def sh_lex_single_quote)
qed

lemma shJoin_reads: "sh_words (shJoin False argv) = Some (argv, '''')"
  unfolding shJoin_def
  by (rule join_reads) (simp add: list_all2_map1 part_reads_hook list.rel_refl)

lemma digit_char_zero: "n < 10 \<Longrightarrow> digit_char n = CHR ''0'' \<Longrightarrow> n = 0"
proof -
  assume "n < 10" and "digit_char n = CHR ''0''"
  then have "48 + n = (of_char (CHR ''0'') :: nat)"
    using of_char_digit_char [of n] by metis
  then show "n = 0" by simp
qed

lemma format_uint_hd: "0 < n \<Longrightarrow> hd (format_uint n) \<noteq> CHR ''0''"
proof (induction n rule: format_uint.induct)
  case (1 n)
  show ?case
  proof (cases "n < 10")
    case True
    then show ?thesis using digit_char_zero [OF True] 1(2) by (subst format_uint.simps) auto
  next
    case False
    then have "hd (format_uint (n div 10)) \<noteq> CHR ''0''"
      using 1(1) by (simp add: div_greater_zero_iff)
    then show ?thesis using False by (subst format_uint.simps) simp
  qed
qed

lemma format_uint_0: "format_uint 0 = ''0''"
  by code_simp

lemma plain_decimal_format: "plain_decimal (format_uint n)"
  using format_uint_hd [of n] by (cases "n = 0") (simp_all add: plain_decimal_def format_uint_0 format_uint_digits)

lemma flag_uint_format: "n < 2 ^ 64 \<Longrightarrow> flag_uint other (format_uint n) = Some n"
  by (simp add: flag_uint_def plain_decimal_format decimal_value_format)

lemma flag_int_format: "n < 2 ^ 63 \<Longrightarrow> flag_int other (format_uint n) = Some (int n)"
  by (simp add: flag_int_def plain_decimal_format decimal_value_format)

lemma flags_simps:
  "flag_split ''sid'' = (''sid'', None)" "flag_split ''port'' = (''port'', None)"
  "flag_split ''token'' = (''token'', None)" "flag_split ''event'' = (''event'', None)"
  by (simp_all add: flag_split_def)

lemma sid_u64: "unat (sid :: u32) < 2 ^ 64"
  using unat_u32_less [of sid] by simp

lemma hook_flags:
  assumes "0 < port" and "port < 2 ^ 63"
  shows "parse_flags (hook_flag_ok other True)
     [''--sid'', format_uint (unat (sid :: u32)), ''--port'', format_uint port, ''--token'', tok, ''--event'', ev] []
   = Some ([(''sid'', format_uint (unat sid)), (''port'', format_uint port), (''token'', tok), (''event'', ev)], [])"
  using assms sid_u64 [of sid]
  by (simp add: flags_simps hook_flag_ok_def flag_uint_format flag_int_format mput_def)

lemma notify_flags:
  assumes "0 < port" and "port < 2 ^ 63" and "payload \<noteq> []" and "hd payload = CHR ''{''"
  shows "parse_flags (hook_flag_ok other False)
     [''--sid'', format_uint (unat (sid :: u32)), ''--port'', format_uint port, ''--token'', tok, payload] []
   = Some ([(''sid'', format_uint (unat sid)), (''port'', format_uint port), (''token'', tok)], [payload])"
  using assms sid_u64 [of sid]
  by (simp add: flags_simps hook_flag_ok_def flag_uint_format flag_int_format mput_def)

lemma format_int_nat [simp]: "format_int (int n) = format_uint n"
  by (simp add: format_int_def)

lemma cmdHook_args:
  assumes "0 < port" and "port < 2 ^ 63" and "sid \<noteq> 0" and "tok \<noteq> ''''" and "ev \<noteq> ''''"
  shows "cmdHook other [''--sid'', format_uint (unat sid), ''--port'', format_uint port, ''--token'', tok, ''--event'', ev] input
    = ForwardHook (int port) sid tok ev input"
  using assms hook_flags [OF assms(1,2), of other sid tok ev] sid_u64 [of sid]
  by (simp add: cmdHook_def sid_flag_def port_flag_def flag_text_def mget_def flag_uint_format flag_int_format)

lemma cmdNotify_args:
  assumes "0 < port" and "port < 2 ^ 63" and "payload \<noteq> []" and "hd payload = CHR ''{''"
  shows "cmdNotify other [''--sid'', format_uint (unat sid), ''--port'', format_uint port, ''--token'', tok, payload]
    = Notify (int port) sid tok payload"
  using notify_flags [OF assms, of other sid tok] sid_u64 [of sid] assms(1,2)
  by (simp add: cmdNotify_def sid_flag_def port_flag_def flag_text_def mget_def flag_uint_format flag_int_format)

lemma no_slash: "CHR ''/'' \<notin> set (format_uint n)"
  using format_uint_digits [of n] by (auto simp: list_all_iff is_digit_def byte_in_def)

lemma mux_path:
  assumes "CHR ''/'' \<notin> set tool" and "CHR ''/'' \<notin> set ev" and "ev \<noteq> ''''"
  shows "hook_mux (''/hook/'' @ tool @ ''/'' @ format_uint n @ ''/'' @ ev) =
    (if tool = ''claude'' then Some (AtClaude (format_uint n) ev)
     else if tool = ''codex'' then Some (if ev = ''notify'' then AtCodexNotify (format_uint n) else AtCodexHook (format_uint n) ev)
     else None)"
proof -
  have "split_at (CHR ''/'') (''/hook/'' @ tool @ ''/'' @ format_uint n @ ''/'' @ ev)
      = ['''', ''hook'', tool, format_uint n, ev]"
    using split_at_line [OF assms(1), of "format_uint n @ CHR ''/'' # ev"]
      split_at_line [OF no_slash, of n ev] split_at_last [OF assms(2)] by simp
  then show ?thesis
    using assms(3) unfolding hook_mux_def by simp
qed

lemma mux_status: "hook_mux (''/statusline/'' @ format_uint n) = Some (AtStatusLine (format_uint n))"
proof -
  have "split_at (CHR ''/'') (''/statusline/'' @ format_uint n) = ['''', ''statusline'', format_uint n]"
    using split_at_last [OF no_slash] by simp
  then show ?thesis unfolding hook_mux_def by simp
qed

lemma receive_bearer:
  assumes "he_token e = tok" and "tok \<noteq> ''''" and "hook_mux (CHR ''/'' # path) = Some rt"
  shows "hook_receive e port (local_base port @ CHR ''/'' # path) (''Bearer '' @ tok) = Some (Inr rt)"
  using assms starts_with_append [of "local_base port @ ''/''" path]
  by (simp add: hook_receive_def hook_auth_def starts_with_def)

lemma events_plain: "ev \<in> set ClaudeEvents \<Longrightarrow> CHR ''/'' \<notin> set ev \<and> ev \<noteq> '''' \<and> ev \<noteq> ''statusline''"
  by (auto simp: ClaudeEvents_def)

lemma forward_runs:
  assumes "sid \<noteq> 0" and "0 < ae_hooks_port e" and "ae_hooks_port e < 65536" and "cf_hook_token (ag_cfg a) \<noteq> ''''"
    and "ag_exe a \<noteq> ''''" and "event \<noteq> ''''"
  shows "run_command other (ag_exe a) (forwardCommand False (agent_settings_opts e sid mode a) event) input =
    Some \<lparr>lr_url = local_base (int (ae_hooks_port e)) @ (if event = ''statusline''
             then ''/statusline/'' @ format_uint (unat sid) else ''/hook/claude/'' @ format_uint (unat sid) @ ''/'' @ event),
          lr_authorization = ''Bearer '' @ cf_hook_token (ag_cfg a), lr_body = input\<rparr>"
proof -
  have "forwardCommand False (agent_settings_opts e sid mode a) event = shJoin False
      (ag_exe a # ''hook'' # [''--sid'', format_uint (unat sid), ''--port'', format_uint (ae_hooks_port e),
        ''--token'', cf_hook_token (ag_cfg a), ''--event'', event])"
    using assms(5) by (simp add: forwardCommand_def agent_settings_opts_def)
  moreover have "ForwardHook (int (ae_hooks_port e)) sid (cf_hook_token (ag_cfg a)) event input =
      Inr \<lparr>lr_url = local_base (int (ae_hooks_port e)) @ (if event = ''statusline''
             then ''/statusline/'' @ format_uint (unat sid) else ''/hook/claude/'' @ format_uint (unat sid) @ ''/'' @ event),
          lr_authorization = ''Bearer '' @ cf_hook_token (ag_cfg a), lr_body = input\<rparr>"
    using assms by (simp add: ForwardHook_def)
  ultimately show ?thesis
    using cmdHook_args [of "ae_hooks_port e" sid "cf_hook_token (ag_cfg a)" event other input] assms
    by (simp add: run_command_def shJoin_reads run_tx_agent_def)
qed

lemma notify_runs:
  assumes "sid \<noteq> 0" and "0 < ae_hooks_port e" and "ae_hooks_port e < 65536" and "cf_hook_token (ag_cfg a) \<noteq> ''''"
    and "trim_space payload = payload" and "payload \<noteq> ''''" and "hd payload = CHR ''{''"
  shows "run_tx_agent other (ag_exe a) (codex_notify_args e sid a @ [payload]) input =
    Some \<lparr>lr_url = local_base (int (ae_hooks_port e)) @ ''/hook/codex/'' @ format_uint (unat sid) @ ''/notify'',
          lr_authorization = ''Bearer '' @ cf_hook_token (ag_cfg a), lr_body = payload\<rparr>"
  using cmdNotify_args [of "ae_hooks_port e" payload other sid "cf_hook_token (ag_cfg a)"] assms
  by (simp add: run_tx_agent_def codex_notify_args_def Notify_def)

lemma claude_runs:
  assumes "sid \<noteq> 0" and "0 < ae_hooks_port e" and "ae_hooks_port e < 65536" and "cf_hook_token (ag_cfg a) \<noteq> ''''"
    and "ag_exe a \<noteq> ''''" and "ev \<in> set ClaudeEvents"
    and "interp [''TX_HOOK_TOKEN''] ''Bearer $TX_HOOK_TOKEN'' = ''Bearer '' @ cf_hook_token (ag_cfg a)"
  shows "claude_fires interp other (ag_exe a) (ClaudeSettings False (agent_settings_opts e sid mode a)) ev input =
    Some \<lparr>lr_url = local_base (int (ae_hooks_port e)) @ ''/hook/claude/'' @ format_uint (unat sid) @ ''/'' @ ev,
          lr_authorization = ''Bearer '' @ cf_hook_token (ag_cfg a), lr_body = input\<rparr>"
proof -
  let ?o = "agent_settings_opts e sid mode a"
  have map_mget: "mget (map (\<lambda>ev. (ev, f ev)) evs) ev = (if ev \<in> set evs then Some (f ev) else None)" for f :: "string \<Rightarrow> claude_hook" and evs
    by (induction evs) (auto simp: mget_def)
  have "starts_with (local_base (int (ae_hooks_port e)) @ ''/hook/claude/'')
      (local_base (int (ae_hooks_port e)) @ ''/hook/claude/'' @ format_uint (unat sid) @ ''/'' @ ev)"
    using starts_with_append [of "local_base (int (ae_hooks_port e)) @ ''/hook/claude/''"] by simp
  then have allowed: "list_ex (url_matches (local_base (st_port ?o) @ ''/hook/claude/'' @ format_uint (unat (st_sid ?o)) @ ''/'' @ ev))
      (cs_allowed_urls (ClaudeSettings False ?o))"
    by (simp add: ClaudeSettings_def agent_settings_opts_def url_matches_def ends_with_def starts_with_def
        butlast_append Let_def)
  show ?thesis
  proof (cases "CommandHookEvents ev")
    case True
    then have "claude_fires interp other (ag_exe a) (ClaudeSettings False ?o) ev input
        = run_command other (ag_exe a) (forwardCommand False ?o ev) input"
      using assms(6) by (simp add: claude_fires_def ClaudeSettings_def map_mget Let_def)
    then show ?thesis
      using forward_runs [OF assms(1-5), of ev other mode input] events_plain [OF assms(6)] by simp
  next
    case False
    then show ?thesis
      using assms(6,7) allowed
      by (simp add: claude_fires_def ClaudeSettings_def map_mget Let_def agent_settings_opts_def)
  qed
qed

section \<open>Properties\<close>


definition demo_hook_agent :: agent where
  "demo_hook_agent = new_agent \<lparr>cf_relay_url = '''', cf_device_id = '''', cf_device_token = '''', cf_agent_id = '''',
     cf_name = '''', cf_privkey = '''', cf_pubkey = '''', cf_fingerprint = '''', cf_hooks_port = 0,
     cf_hook_token = ''it's'', cf_presets = [], cf_secrets = \<lparr>sc_minimax_key = '''', sc_minimax_url = '''',
     sc_station_url = '''', sc_station_key = ''''\<rparr>, cf_default_shell = '''', cf_persist = ''''\<rparr> ''/r'' ''/my tx'' []"

definition demo_hook_env :: agent_env where
  "demo_hook_env = \<lparr>ae_now = 0, ae_rand = [], ae_start = undefined, ae_settings = None, ae_files_ok = True,
     ae_pty_ok = True, ae_hooks_port = 9, ae_version = '''', ae_os = '''', ae_sha256 = bytes_of, ae_canon = (\<lambda>s. s),
     ae_decode = (\<lambda>_. None), ae_quote = (\<lambda>s. s), ae_wording = (\<lambda>_. '''')\<rparr>"


end
