(* ===== verification/Pairing.thy ===== *)
theory Pairing
  imports Presets RelayErrors
begin

text \<open>
  Pairing from both ends: what the agent sends and stores (\<^verbatim>\<open>internal/agent/pair.go\<close>), what the
  relay answers, and that the agent which has paired is then let in as the device it was told to
  be. The network and JSON between them are not modelled: the relay's handler gets the fields
  that the agent sends, and the agent the fields of the answer.
\<close>

section \<open>The agent's side\<close>

text \<open>
  The answer to the request: none at all, the fields of a success (None when they cannot be
  read), or the status and text of a refusal.
\<close>

record pair_fields =
  pf_device_id :: string
  pf_device_token :: string
  pf_fingerprint :: string
  pf_name :: string

datatype pair_answer = NoAnswer | Accepted "pair_fields option" | Rejected nat string

record pair_result =
  pt_device_id :: string
  pt_name :: string
  pt_fingerprint :: string
  pt_local_fp :: string

datatype pair_error = PairBadURL | PairNoCode | PairNoIdentity | PairNoAnswer | PairRejected nat string
  | PairUnreadable | PairIncomplete

text \<open>\<^verbatim>\<open>LocalFingerprint\<close> mirrors the relay's \<open>fingerprint\<close>.\<close>

definition LocalFingerprint :: "(string \<Rightarrow> byte list) \<Rightarrow> string \<Rightarrow> string" where
  "LocalFingerprint sha256 material =
     (let enc = base32_std (sha256 material) in take 4 enc @ ''-'' @ drop 4 (take 8 enc))"

text \<open>
  Up to the request. \<open>parse\<close>, \<open>scheme\<close> and \<open>render\<close> are the URL library that \<open>HTTPURL\<close> uses; the
  identity takes fresh random strings and a fresh key pair. The configuration is changed even
  if an error ends the command.
\<close>

definition Pair_request ::
  "(string \<Rightarrow> 'u option) \<Rightarrow> ('u \<Rightarrow> string) \<Rightarrow> (string \<Rightarrow> 'u \<Rightarrow> string)
     \<Rightarrow> string \<Rightarrow> string \<Rightarrow> (string \<times> string) option \<Rightarrow> string \<Rightarrow> string
     \<Rightarrow> string \<Rightarrow> string \<Rightarrow> string \<Rightarrow> config \<Rightarrow> config \<times> (pair_error + string \<times> string \<times> redeem_request)" where
  "Pair_request parse scheme render hex8 hex24 keys goos version relay_url code name c =
     (let c = c\<lparr>cf_relay_url := trim_slashes (trim_space relay_url)\<rparr> in
      case HTTPURL parse scheme render c of
        None \<Rightarrow> (c, Inl PairBadURL)
      | Some base \<Rightarrow>
          let code = trim_space code in
          if code = '''' then (c, Inl PairNoCode)
          else case EnsureIdentity hex8 hex24 keys c of
            (c, _, False) \<Rightarrow> (c, Inl PairNoIdentity)
          | (c, _, True) \<Rightarrow>
              let name = (if name = '''' then cf_name c else name)
              in (c, Inr (base @ ''/api/pair/redeem'', name,
                   \<lparr>rd_code = code, rd_name = name, rd_os = goos, rd_agent_version = version, rd_pubkey = cf_pubkey c\<rparr>)))"

definition Pair_finish ::
  "(string \<Rightarrow> byte list) \<Rightarrow> string \<Rightarrow> pair_answer \<Rightarrow> config \<Rightarrow> config \<times> (pair_error + pair_result)" where
  "Pair_finish sha256 name answer c = (case answer of
     NoAnswer \<Rightarrow> (c, Inl PairNoAnswer)
   | Rejected st text \<Rightarrow> (c, Inl (PairRejected st text))
   | Accepted None \<Rightarrow> (c, Inl PairUnreadable)
   | Accepted (Some f) \<Rightarrow>
       if pf_device_id f = '''' \<or> pf_device_token f = '''' then (c, Inl PairIncomplete)
       else
         let c = c\<lparr>cf_device_id := pf_device_id f, cf_device_token := pf_device_token f,
                   cf_fingerprint := pf_fingerprint f,
                   cf_name := (if pf_name f \<noteq> '''' then pf_name f else name)\<rparr>
         in (c, Inr \<lparr>pt_device_id = pf_device_id f, pt_name = cf_name c, pt_fingerprint = pf_fingerprint f,
                  pt_local_fp = LocalFingerprint sha256 (cf_pubkey c)\<rparr>))"

text \<open>The header that the agent dials the relay with.\<close>

definition dial_authorization :: "config \<Rightarrow> string" where
  "dial_authorization c = ''Bearer '' @ cf_device_token c"

section \<open>Between the two\<close>

text \<open>The relay's reply as the agent reads it.\<close>

definition answer_of :: "reply \<Rightarrow> pair_answer" where
  "answer_of rep = (case rep of
     Panic \<Rightarrow> NoAnswer
   | Reply x \<Rightarrow> (case rs_body x of
       BPaired did tok fp name \<Rightarrow>
         Accepted (Some \<lparr>pf_device_id = did, pf_device_token = tok, pf_fingerprint = fp, pf_name = name\<rparr>)
     | BError text \<Rightarrow> Rejected (rs_status x) text
     | _ \<Rightarrow> if rs_status x = 200 then Accepted None else Rejected (rs_status x) ''''))"

lemma trim_runes_id: "(\<And>w. w \<in> set ws \<Longrightarrow> w \<noteq> [] \<Longrightarrow> s \<noteq> [] \<Longrightarrow> hd w \<noteq> hd s) \<Longrightarrow> trim_runes ws s = s"
proof -
  assume hd: "\<And>w. w \<in> set ws \<Longrightarrow> w \<noteq> [] \<Longrightarrow> s \<noteq> [] \<Longrightarrow> hd w \<noteq> hd s"
  have "\<not> (w \<noteq> [] \<and> starts_with w s)" if "w \<in> set ws" for w
    using hd [OF that] by (cases w; cases s) (auto simp: starts_with_def)
  then have "find (\<lambda>w. w \<noteq> [] \<and> starts_with w s) ws = None"
    by (auto simp: find_None_iff)
  then show ?thesis by (subst trim_runes.simps) simp
qed

definition visible :: "char \<Rightarrow> bool" where
  "visible c \<longleftrightarrow> byte_in 0x21 0x7E c"

lemma visible_space: "list_all (\<lambda>w. \<not> visible (hd w) \<and> \<not> visible (last w)) space_runes"
  by code_simp

lemma trim_space_visible:
  assumes "\<And>c. c \<in> set s \<Longrightarrow> visible c"
  shows "trim_space s = s"
proof (cases "s = []")
  case True
  then show ?thesis using trim_space_subset [of s] by simp
next
  case False
  have "trim_runes space_runes s = s"
    by (rule trim_runes_id) (use visible_space assms in \<open>fastforce simp: list_all_iff\<close>)
  moreover have "trim_runes (map rev space_runes) (rev s) = rev s"
    by (rule trim_runes_id) (use visible_space assms in \<open>fastforce simp: list_all_iff hd_rev\<close>)
  ultimately show ?thesis by (simp add: trim_space_def)
qed

lemma bits_value_bound: "bits_value bs < 2 ^ length bs"
proof -
  have "foldl (\<lambda>a b. 2 * a + (if b then 1 else 0)) a bs < (a + 1) * 2 ^ length bs" for a :: nat
  proof (induction bs arbitrary: a)
    case (Cons b bs)
    have "foldl (\<lambda>a b. 2 * a + (if b then 1 else 0)) (2 * a + (if b then 1 else 0)) bs
        < (2 * a + (if b then 1 else 0) + 1) * 2 ^ length bs"
      using Cons .
    also have "\<dots> \<le> (2 * a + 2) * 2 ^ length bs" by simp
    finally show ?case by (simp add: algebra_simps)
  qed simp
  from this [of 0] show ?thesis by (simp add: bits_value_def)
qed

lemma encode_bits_set: "length alphabet = 2 ^ k \<Longrightarrow> set (encode_bits k alphabet bs) \<subseteq> set alphabet"
proof (induction k alphabet bs rule: encode_bits.induct)
  case (1 k alphabet bs)
  have "length (take k (bs @ replicate (k - length bs) False)) = k" by simp
  then have "alphabet ! bits_value (take k (bs @ replicate (k - length bs) False)) \<in> set alphabet"
    using bits_value_bound [of "take k (bs @ replicate (k - length bs) False)"] 1(2) by (intro nth_mem) metis
  then show ?case
    using 1 by (subst encode_bits.simps) auto
qed

lemma encode_bits_Nil_iff: "encode_bits k alphabet bs = [] \<longleftrightarrow> bs = [] \<or> k = 0"
  by (subst encode_bits.simps) simp

lemma base64_visible: "c \<in> set (base64_url raw) \<Longrightarrow> visible c"
proof -
  assume "c \<in> set (base64_url raw)"
  moreover have len: "length base64_alphabet = 2 ^ 6" by (simp add: base64_alphabet_def)
  ultimately have "c \<in> set base64_alphabet"
    using encode_bits_set [OF len] unfolding base64_url_def by blast
  moreover have "list_all visible base64_alphabet" by code_simp
  ultimately show ?thesis by (auto simp: list_all_iff)
qed

lemma base64_not_Nil: "raw \<noteq> [] \<Longrightarrow> base64_url raw \<noteq> []"
  by (cases raw) (auto simp: base64_url_def encode_bits_Nil_iff bits_of_byte_def)

lemma bearer_read: "(\<And>c. c \<in> set tok \<Longrightarrow> visible c) \<Longrightarrow> rq_authorization r = ''Bearer '' @ tok \<Longrightarrow> bearerToken r = tok"
proof -
  assume tok: "\<And>c. c \<in> set tok \<Longrightarrow> visible c" and r: "rq_authorization r = ''Bearer '' @ tok"
  have "map lower_char ''Bearer '' = ''bearer ''" by code_simp
  then have "starts_with ''bearer '' (map lower_char (''Bearer '' @ tok))"
    by (simp add: starts_with_def)
  then show ?thesis
    using trim_space_visible [OF tok] by (simp add: bearerToken_def r)
qed

text \<open>What a redeemed code leaves in the database.\<close>

lemma hex_encode_not_Nil: "b \<noteq> [] \<Longrightarrow> hex_encode b \<noteq> []"
  by (cases b) (auto simp: hex_encode_def)

lemma created_device_found:
  assumes "CreateDevice d db = Inr db'" and "dv_token_hash d \<noteq> ''''" and "dv_revoked_at d = None"
    and "\<forall>did row. mget (db_devices db) did = Some row \<longrightarrow> dr_token_hash row \<noteq> dv_token_hash d" and "db_wf db"
  shows "\<exists>d'. DeviceByTokenHash (dv_token_hash d) db' = Inr d' \<and> dv_id d' = dv_id d \<and> dv_name d' = dv_name d
    \<and> dv_fingerprint d' = dv_fingerprint d"
proof -
  obtain row where new: "mget (db_devices db) (dv_id d) = None" and fault: "\<not> db_fault db"
    and db': "db' = db\<lparr>db_devices := mput (dv_id d) row (db_devices db)\<rparr>"
    and row: "dr_token_hash row = dv_token_hash d" "dr_revoked_at row = None" "dr_name row = dv_name d"
      "dr_fingerprint row = dv_fingerprint d"
    using assms(1,3) by (auto simp: CreateDevice_def fmtTimePtr_def split: option.splits)
  have wf: "mwf (db_devices db')" using assms(5) by (simp add: db' db_wf_def)
  let ?hit = "\<lambda>(did, r). dr_token_hash r = dv_token_hash d \<and> dr_revoked_at r = None"
  have "(dv_id d, row) \<in> set (db_devices db')"
    using mwf_mget_iff [OF wf, of "dv_id d" row] by (simp add: db')
  moreover have "?hit (dv_id d, row)" using row by simp
  ultimately have "find ?hit (db_devices db') \<noteq> None"
    unfolding find_None_iff by blast
  then obtain p where p: "find ?hit (db_devices db') = Some p" by blast
  then have "p \<in> set (db_devices db')" "?hit p"
    unfolding find_Some_iff by (metis nth_mem)+
  then have "mget (db_devices db') (fst p) = Some (snd p)" "dr_token_hash (snd p) = dv_token_hash d"
    using mwf_mget_iff [OF wf] by (auto split: prod.splits)
  then have "p = (dv_id d, row)"
    using assms(4) by (cases p) (auto simp: db' split: if_splits)
  then show ?thesis
    using p assms(2) fault row by (auto simp: DeviceByTokenHash_def scanDevice_def db')
qed

lemma DeviceByTokenHash_cong:
  "db_devices db' = db_devices db \<Longrightarrow> db_fault db' = db_fault db \<Longrightarrow> DeviceByTokenHash h db' = DeviceByTokenHash h db"
  by (simp add: DeviceByTokenHash_def sql_def)

lemma answer_of_simps [simp]:
  "answer_of (writeError st text) = Rejected st text" "answer_of (writeErr err) \<noteq> Accepted a"
  "answer_of (writeJSON st (BPaired did tok fp name)) =
     Accepted (Some \<lparr>pf_device_id = did, pf_device_token = tok, pf_fingerprint = fp, pf_name = name\<rparr>)"
  by (simp_all add: answer_of_def writeError_def writeErr_def writeJSON_def split: api_error.split store_error.split)

lemma devices_broadcast [simp]: "sv_db (broadcastDeviceList s) = sv_db s"
  using books_folds(6) [of s] by (simp add: books_def)

lemma devices_audit [simp]:
  "db_devices (sv_db (audit e actor did sid act det s)) = db_devices (sv_db s)"
  "db_fault (sv_db (audit e actor did sid act det s)) = db_fault (sv_db s)"
  by (auto simp: audit_def try_db_def AppendAudit_def Let_def split: sum.split)

definition pair_material :: "relay_env \<Rightarrow> redeem_request \<Rightarrow> string" where
  "pair_material e req = (if rd_pubkey req = '''' then hashToken (re_sha256 e) (base64_url (re_raw e)) else rd_pubkey req)"

lemma redeem_device_paired:
  assumes "redeem_device e ip req s = (rep, s')" and "answer_of rep = Accepted a"
  obtains dev db where "CreateDevice dev (sv_db s) = Inr db" and "dv_revoked_at dev = None"
    and "dv_token_hash dev = hashToken (re_sha256 e) (base64_url (re_raw e))"
    and "dv_fingerprint dev = fingerprint (re_sha256 e) (pair_material e req)" and "dv_name dev \<noteq> ''''"
    and "a = Some \<lparr>pf_device_id = dv_id dev, pf_device_token = base64_url (re_raw e),
           pf_fingerprint = dv_fingerprint dev, pf_name = dv_name dev\<rparr>"
    and "db_devices (sv_db s') = db_devices db" and "db_fault (sv_db s') = db_fault db"
proof -
  define dev where "dev = \<lparr>dv_id = randomID ''dev_'' (re_raw_id e),
    dv_name = (if trim_space (rd_name req) = '''' then ''device-'' @ drop (length (randomID ''dev_'' (re_raw_id e)) - 4)
       (randomID ''dev_'' (re_raw_id e)) else trim_space (rd_name req)),
    dv_os = rd_os req, dv_agent_version = rd_agent_version req,
    dv_token_hash = hashToken (re_sha256 e) (base64_url (re_raw e)), dv_pubkey = rd_pubkey req,
    dv_fingerprint = fingerprint (re_sha256 e) (pair_material e req), dv_created_at = re_now e,
    dv_last_seen = re_now e, dv_revoked_at = None\<rparr>"
  have "redeem_device e ip req s = (case CreateDevice dev (sv_db s) of
      Inl err \<Rightarrow> (writeErr (ApiStore err), s)
    | Inr db \<Rightarrow> (writeJSON 200 (BPaired (dv_id dev) (base64_url (re_raw e)) (dv_fingerprint dev) (dv_name dev)),
        broadcastDeviceList (audit e (''anon:'' @ ip) (dv_id dev) 0 ''pair.redeem'' (dv_name dev @ '' '' @ dv_fingerprint dev)
          (s\<lparr>sv_db := db, sv_devices := mput (dv_id dev) (newDeviceState dev) (sv_devices s)\<rparr>))))"
    by (simp add: redeem_device_def newDeviceToken_def Let_def dev_def pair_material_def split: sum.split)
  with assms show thesis
    using that [of dev] by (auto simp: dev_def split: sum.splits)
qed

lemma redeem_devices: "RedeemPairCode code now db = Inr db' \<Longrightarrow> db_devices db' = db_devices db \<and> (db_wf db \<longrightarrow> db_wf db')"
  by (auto simp: RedeemPairCode_def update_row_Some db_wf_def split: option.splits)

lemma handlePairRedeem_paired:
  assumes "handlePairRedeem e r (Inr req) s = (rep, s')" and "answer_of rep = Accepted a"
  obtains (made) ip t where "redeem_device e ip req t = (rep, s')" and "db_devices (sv_db t) = db_devices (sv_db s)"
    and "db_wf (sv_db s) \<Longrightarrow> db_wf (sv_db t)"
proof -
  have code: thesis if c: "redeem_code e ip code req t = (rep, s')" and t: "sv_db t = sv_db s" for ip code t
  proof -
    have "\<not> length code \<noteq> 8"
      using c assms(2) by (auto simp: redeem_code_def redeem_failed_def Let_def split: if_splits)
    moreover obtain db where db: "RedeemPairCode code (re_now e) (sv_db t) = Inr db"
      using c assms(2) calculation
      by (cases "RedeemPairCode code (re_now e) (sv_db t)")
        (auto simp: redeem_code_def redeem_failed_def Let_def split: store_error.splits)
    ultimately have red: "redeem_device e ip req (limiter_reset (''pair:ip:'' @ ip) (t\<lparr>sv_db := db\<rparr>)) = (rep, s')"
      using c by (simp add: redeem_code_def)
    show thesis
      by (rule made [OF red]) (use redeem_devices [OF db] t in \<open>auto simp: limiter_reset_def\<close>)
  qed
  obtain il s1 where l1: "limiter_locked (re_now e) (''pair:ip:'' @ clientIP r) s = (il, s1)" by fastforce
  obtain cl s2 where l2: "(if il then (False, s1) else limiter_locked (re_now e)
      (''pair:code:'' @ normalizePairCode (re_upper e) (rd_code req)) s1) = (cl, s2)" by fastforce
  have db: "sv_db s2 = sv_db s"
    using limiter_locked_db [OF l1] l2 limiter_locked_db by (metis prod.inject)
  have "redeem_code e (clientIP r) (normalizePairCode (re_upper e) (rd_code req)) req s2 = (rep, s')"
    using assms l1 l2 by (auto simp: handlePairRedeem_def with_body_def Let_def split: if_splits prod.splits)
  from code [OF this db] show thesis .
qed

section \<open>A demonstration\<close>

definition demo_pair_env :: relay_env where
  "demo_pair_env = demo_relay_env\<lparr>re_raw := [1, 2, 3], re_sha256 := (\<lambda>t. 7 # bytes_of t)\<rparr>"

definition demo_unpaired :: config where
  "demo_unpaired = no_config"

definition demo_request_of :: redeem_request where
  "demo_request_of = \<lparr>rd_code = ''bcde-fghj'', rd_name = ''laptop'', rd_os = ''linux'', rd_agent_version = ''1'',
     rd_pubkey = ''pub''\<rparr>"

definition demo_asking :: config where
  "demo_asking = demo_unpaired\<lparr>cf_relay_url := ''http://r'', cf_agent_id := ''agt_1'', cf_hook_token := ''2'',
     cf_privkey := ''priv'', cf_pubkey := ''pub''\<rparr>"

lemma demo_asks:
  "Pair_request Some (\<lambda>_. ''http'') (\<lambda>_ u. u) ''1'' ''2'' (Some (''priv'', ''pub'')) ''linux'' ''1'' ''http://r/''
     '' bcde-fghj'' ''laptop'' demo_unpaired
   = (demo_asking, Inr (''http://r/api/pair/redeem'', ''laptop'', demo_request_of))"
  by code_simp

definition demo_admitted :: "reply \<times> relay" where
  "demo_admitted = handlePairRedeem demo_pair_env demo_request (Inr demo_request_of) demo_coded"

definition demo_paired :: "config \<times> (pair_error + pair_result)" where
  "demo_paired = Pair_finish (re_sha256 demo_pair_env) ''laptop'' (answer_of (fst demo_admitted)) demo_asking"

lemma demo_paired_ok:
  "(case snd demo_paired of Inl _ \<Rightarrow> '''' | Inr res \<Rightarrow> pt_name res) = ''laptop''
   \<and> cf_device_token (fst demo_paired) = ''AQID''"
  by code_simp

section \<open>Properties\<close>

text \<open>C20: An agent whose pairing succeeds is let in as the device it was told to be: the relay, shown the
  token that the agent stored, finds the device with the stored id and name, and the two
  fingerprints that the users compare are equal. It rests on the digests of SHA-256 not being
  empty, and on no stored device having the digest of the fresh token.\<close>

theorem paired_agent_is_admitted:
  assumes "relay_reachable cfg s"
    and "Pair_request parse scheme render hex8 hex24 keys goos version relay_url code name c = (c1, Inr (u, name1, req))"
    and "handlePairRedeem e r (Inr req) s = (rep, s1)"
    and "Pair_finish (re_sha256 e) name1 (answer_of rep) c1 = (c2, Inr res)"
    and "rq_authorization r' = dial_authorization c2" and "re_sha256 e' = re_sha256 e"
    and "\<forall>priv pub. keys = Some (priv, pub) \<longrightarrow> pub \<noteq> ''''" and "\<forall>text. re_sha256 e text \<noteq> []"
    and "\<forall>did row. mget (db_devices (sv_db s)) did = Some row
      \<longrightarrow> dr_token_hash row \<noteq> hashToken (re_sha256 e) (cf_device_token c2)"
  shows "(\<exists>d. agent_auth e' r' s1 = Some d \<and> dv_id d = cf_device_id c2 \<and> dv_name d = cf_name c2
      \<and> dv_fingerprint d = pt_local_fp res)
    \<and> pt_fingerprint res = pt_local_fp res"
proof -
  obtain a where a: "answer_of rep = Accepted (Some a)"
    and c2: "c2 = c1\<lparr>cf_device_id := pf_device_id a, cf_device_token := pf_device_token a,
        cf_fingerprint := pf_fingerprint a, cf_name := if pf_name a \<noteq> '''' then pf_name a else name1\<rparr>"
    and res: "pt_fingerprint res = pf_fingerprint a" "pt_local_fp res = LocalFingerprint (re_sha256 e) (cf_pubkey c1)"
    using assms(4) by (auto simp: Pair_finish_def Let_def split: pair_answer.splits option.splits if_splits)
  obtain ip t where red: "redeem_device e ip req t = (rep, s1)" and devs: "db_devices (sv_db t) = db_devices (sv_db s)"
    and wf: "db_wf (sv_db s) \<Longrightarrow> db_wf (sv_db t)"
    using handlePairRedeem_paired [OF assms(3) a] by blast
  obtain dev db where dev: "CreateDevice dev (sv_db t) = Inr db" "dv_revoked_at dev = None"
      "dv_token_hash dev = hashToken (re_sha256 e) (base64_url (re_raw e))"
      "dv_fingerprint dev = fingerprint (re_sha256 e) (pair_material e req)" "dv_name dev \<noteq> ''''"
    and fields: "Some a = Some \<lparr>pf_device_id = dv_id dev, pf_device_token = base64_url (re_raw e),
           pf_fingerprint = dv_fingerprint dev, pf_name = dv_name dev\<rparr>"
    and db: "db_devices (sv_db s1) = db_devices db" "db_fault (sv_db s1) = db_fault db"
    using redeem_device_paired [OF red a] .
  have tok: "cf_device_token c2 = base64_url (re_raw e)" using c2 fields by simp
  have key: "rd_pubkey req = cf_pubkey c1" "cf_pubkey c1 \<noteq> ''''"
    using assms(2,7) by (auto simp: Pair_request_def EnsureIdentity_def Let_def
        split: option.splits if_splits prod.splits bool.splits)
  have fp: "dv_fingerprint dev = LocalFingerprint (re_sha256 e) (cf_pubkey c1)"
    using key dev(4) by (simp add: pair_material_def fingerprint_def LocalFingerprint_def Let_def drop_take)
  have "db_wf (sv_db s)"
    using reachable_inv [OF assms(1)] by (simp add: relay_inv_def db_ok_def)
  then obtain d where d: "DeviceByTokenHash (dv_token_hash dev) db = Inr d" "dv_id d = dv_id dev"
      "dv_name d = dv_name dev" "dv_fingerprint d = dv_fingerprint dev"
    using created_device_found [OF dev(1)] dev(2,3) wf assms(8,9) devs tok hex_encode_not_Nil
    by (metis hashToken_def)
  have "bearerToken r' = base64_url (re_raw e)"
    by (rule bearer_read) (simp_all add: base64_visible assms(5) dial_authorization_def tok)
  then have "agent_auth e' r' s1 = Some d"
    using d(1) DeviceByTokenHash_cong [OF db] dev(3) by (simp add: agent_auth_def assms(6))
  then show ?thesis
    using d(2-4) c2 fields res fp dev(5) by auto
qed

theorem paired_agent_is_admitted_witness:
  "\<exists>d. agent_auth demo_pair_env (demo_request\<lparr>rq_authorization := dial_authorization (fst demo_paired)\<rparr>) (snd demo_admitted) = Some d
     \<and> dv_id d = cf_device_id (fst demo_paired) \<and> dv_name d = cf_name (fst demo_paired)"
proof -
  obtain res where fin: "Pair_finish (re_sha256 demo_pair_env) ''laptop'' (answer_of (fst demo_admitted)) demo_asking
      = (fst demo_paired, Inr res)"
    using demo_paired_ok unfolding demo_paired_def [symmetric]
    by (cases "snd demo_paired") (auto simp: prod_eq_iff)
  have red: "handlePairRedeem demo_pair_env demo_request (Inr demo_request_of) demo_coded
      = (fst demo_admitted, snd demo_admitted)"
    by (simp add: demo_admitted_def)
  have token: "cf_device_token (fst demo_paired) = ''AQID''"
    using demo_paired_ok by simp
  have "db_devices (sv_db demo_coded) = db_devices demo_code_db"
    by code_simp
  then have row: "mget (db_devices (sv_db demo_coded)) did = Some row \<Longrightarrow> dr_token_hash row = hex_encode (bytes_of ''t'')" for did row
    by (auto simp: demo_code_db_def empty_db_def mget_def split: if_splits)
  have "hex_encode (bytes_of ''t'') \<noteq> hashToken (re_sha256 demo_pair_env) ''AQID''"
    by code_simp
  with row have fresh: "\<forall>did row. mget (db_devices (sv_db demo_coded)) did = Some row
      \<longrightarrow> dr_token_hash row \<noteq> hashToken (re_sha256 demo_pair_env) (cf_device_token (fst demo_paired))"
    by (auto simp: token)
  have auth: "rq_authorization (demo_request\<lparr>rq_authorization := dial_authorization (fst demo_paired)\<rparr>)
      = dial_authorization (fst demo_paired)" by simp
  have sha: "\<forall>text. re_sha256 demo_pair_env text \<noteq> []" by (simp add: demo_pair_env_def)
  have keys: "\<forall>priv pub. Some (''priv'', ''pub'') = Some (priv, pub) \<longrightarrow> pub \<noteq> ''''" by simp
  show ?thesis
    using conjunct1 [OF paired_agent_is_admitted [OF demo_coded_reachable demo_asks red fin auth refl keys sha fresh]]
    by blast
qed

end
