(* ===== verification/ConfigFile.thy ===== *)
theory ConfigFile
  imports Paths HookLink Pairing AgentLife
begin

text \<open>
  The agent's configuration on disk (\<^verbatim>\<open>internal/agent/config.go\<close>), the commands that write and read it
  (\<^verbatim>\<open>tx-agent pair\<close> and \<^verbatim>\<open>tx-agent run\<close> in \<^verbatim>\<open>cmd/tx-agent/main.go\<close>) and the start and the end of the
  agent (\<^verbatim>\<open>New\<close> and \<^verbatim>\<open>Run\<close> in \<^verbatim>\<open>internal/agent/agent.go\<close>). Every system call can fail, and the process can
  end between any two of them and in the middle of a write. The JSON text is a parameter.
\<close>

section \<open>Files\<close>

type_synonym files = "(string, string) gomap"

text \<open>
  How the calls of a \<open>Save\<close> turn out: whether the directory can be made, how the write ends (it
  may not open the file, or stop short), whether the file can be renamed and removed.
\<close>

datatype write_outcome = Written | NotOpened | CutShort nat

definition write_file :: "write_outcome \<Rightarrow> string \<Rightarrow> string \<Rightarrow> files \<Rightarrow> files \<times> bool" where
  "write_file w path b fs = (case w of
     Written \<Rightarrow> (mput path b fs, True)
   | CutShort n \<Rightarrow> (mput path (take n b) fs, False)
   | NotOpened \<Rightarrow> (fs, False))"

record save_io =
  io_mkdir :: bool
  io_write :: write_outcome
  io_rename :: bool
  io_remove :: bool

datatype save_error = SaveMkdir | SaveEncode | SaveWrite | SaveRename

definition tmp_path :: "string \<Rightarrow> string" where
  "tmp_path path = path @ ''.tmp''"

definition Save :: "(config \<Rightarrow> string option) \<Rightarrow> save_io \<Rightarrow> string \<Rightarrow> config \<Rightarrow> files \<Rightarrow> files \<times> save_error option" where
  "Save enc io path c fs =
     (if \<not> io_mkdir io then (fs, Some SaveMkdir)
      else case enc c of
        None \<Rightarrow> (fs, Some SaveEncode)
      | Some text \<Rightarrow>
          let b = text @ [NL]; tmp = tmp_path path in
          case io_write io of
            NotOpened \<Rightarrow> (fs, Some SaveWrite)
          | CutShort n \<Rightarrow> (mput tmp (take n b) fs, Some SaveWrite)
          | Written \<Rightarrow>
              let fs = mput tmp b fs in
              if io_rename io then (mput path b (mdel tmp fs), None)
              else (if io_remove io then mdel tmp fs else fs, Some SaveRename))"

datatype load_error = NotExist | ReadFailed | ParseFailed

text \<open>\<open>readable\<close> says whether a file that exists can be read. A missing one yields an empty configuration.\<close>

definition Load :: "(string \<Rightarrow> config option) \<Rightarrow> bool \<Rightarrow> string \<Rightarrow> files \<Rightarrow> config option \<times> load_error option" where
  "Load dec readable path fs = (case mget fs path of
     None \<Rightarrow> (Some no_config, Some NotExist)
   | Some b \<Rightarrow>
       if \<not> readable then (Some no_config, Some ReadFailed)
       else case dec b of None \<Rightarrow> (None, Some ParseFailed) | Some c \<Rightarrow> (Some c, None))"

definition DefaultPath :: "string option \<Rightarrow> string option" where
  "DefaultPath home = map_option (\<lambda>h. path_join [h, ''.terminalx'', ''agent.json'']) home"

text \<open>\<^verbatim>\<open>configFlag\<close>: a home directory that is not known leaves the default empty.\<close>

definition config_flag :: "string option \<Rightarrow> (string, string) gomap \<Rightarrow> string" where
  "config_flag home m = (case mget m ''config'' of
     Some p \<Rightarrow> p
   | None \<Rightarrow> (case DefaultPath home of None \<Rightarrow> '''' | Some p \<Rightarrow> p))"

section \<open>The pair command\<close>

text \<open>What the command meets: its machine, its files' codec and the relay's answer to a request.\<close>

record cmd_env =
  ce_home :: "string option"
  ce_hostname :: string
  ce_enc :: "config \<Rightarrow> string option"
  ce_dec :: "string \<Rightarrow> config option"
  ce_readable :: bool
  ce_parse :: "string \<Rightarrow> url_parts option"
  ce_render :: "string \<Rightarrow> url_parts \<Rightarrow> string"
  ce_hex8 :: string
  ce_hex24 :: string
  ce_keys :: "(string \<times> string) option"
  ce_os :: string
  ce_version :: string
  ce_sha256 :: "string \<Rightarrow> byte list"
  ce_answer :: "string \<Rightarrow> redeem_request \<Rightarrow> pair_answer"

datatype cmd_error =
    CmdFlags | CmdUsage | CmdLoad load_error | CmdPair pair_error | CmdSave save_error
  | CmdLog | CmdConfig config_error | CmdExecutable | CmdIdentity | CmdListen

definition text_flags :: "string list \<Rightarrow> string \<Rightarrow> string option \<Rightarrow> bool" where
  "text_flags names k v \<longleftrightarrow> k \<in> set names"

text \<open>The part of the command that follows the reading of its flags and of the configuration.\<close>

definition pair_and_save ::
  "cmd_env \<Rightarrow> save_io \<Rightarrow> string \<Rightarrow> string \<Rightarrow> string \<Rightarrow> string \<Rightarrow> config \<Rightarrow> files \<Rightarrow> files \<times> (cmd_error + pair_result)" where
  "pair_and_save e io path relay code name cfg fs =
     (case Pair_request (ce_parse e) url_scheme (ce_render e) (ce_hex8 e) (ce_hex24 e) (ce_keys e) (ce_os e)
             (ce_version e) relay code name cfg of
        (cfg, Inl err) \<Rightarrow> (fs, Inl (CmdPair err))
      | (cfg, Inr (url, name, req)) \<Rightarrow>
          (case Pair_finish (ce_sha256 e) name (ce_answer e url req) cfg of
             (cfg, Inl err) \<Rightarrow> (fs, Inl (CmdPair err))
           | (cfg, Inr res) \<Rightarrow>
               (case Save (ce_enc e) io path cfg fs of
                  (fs, Some err) \<Rightarrow> (fs, Inl (CmdSave err))
                | (fs, None) \<Rightarrow> (fs, Inr res))))"

definition cmdPair :: "cmd_env \<Rightarrow> save_io \<Rightarrow> string list \<Rightarrow> files \<Rightarrow> files \<times> (cmd_error + pair_result)" where
  "cmdPair e io args fs = (case parse_flags (text_flags [''relay'', ''code'', ''name'', ''config'']) args [] of
     None \<Rightarrow> (fs, Inl CmdFlags)
   | Some (m, _) \<Rightarrow>
       let relay = flag_text m ''relay''; code = flag_text m ''code''; name = flag_text m ''name'';
           path = config_flag (ce_home e) m
       in if relay = '''' \<or> code = '''' then (fs, Inl CmdUsage)
          else case Load (ce_dec e) (ce_readable e) path fs of
            (Some cfg, err) \<Rightarrow>
              if err \<noteq> None \<and> err \<noteq> Some NotExist then (fs, Inl (CmdLoad (the err)))
              else pair_and_save e io path relay code (if name = '''' \<and> cf_name cfg = '''' then ce_hostname e else name) cfg fs
          | (None, err) \<Rightarrow> (fs, Inl (CmdLoad (the err))))"

section \<open>The configuration of tmux\<close>

definition tmuxConf :: string where
  "tmuxConf = unlines
    [''# generated by terminalX '' @ em_dash @ '' do not edit, it is rewritten on start'',
     ''set -g prefix None'',
     ''unbind-key -a'',
     ''set -g status off'',
     ''set -g history-limit 20000'',
     ''set -g escape-time 0'',
     ''set -g destroy-unattached off'',
     ''set -g exit-empty off'',
     ''set -g mouse off'',
     ''# Claude Code asks for focus events when it detects tmux; without them its TUI'',
     ''# cannot tell whether the pane is focused.'',
     ''set -g focus-events on'',
     ''set -g default-terminal '' @ [DQUOTE] @ ''xterm-256color'' @ [DQUOTE],
     ''set -g set-titles off'',
     ''set -g allow-passthrough on'',
     ''setw -g aggressive-resize on'']"

text \<open>The files, and the path of the one written; the agent calls it with its directory.\<close>

definition WriteTmuxConf :: "bool \<Rightarrow> write_outcome \<Rightarrow> string \<Rightarrow> files \<Rightarrow> files \<times> string option" where
  "WriteTmuxConf mkdir w dir fs =
     (let path = path_join [dir, ''tmux.conf''] in
      if \<not> mkdir then (fs, None)
      else case write_file w path tmuxConf fs of (fs, ok) \<Rightarrow> (fs, if ok then Some path else None))"

text \<open>The settings of Claude for a session, written anew at every start of the tool.\<close>

definition WriteClaudeSettings ::
  "(claude_settings \<Rightarrow> string option) \<Rightarrow> bool \<Rightarrow> write_outcome \<Rightarrow> bool \<Rightarrow> string \<Rightarrow> settings_opts \<Rightarrow> files
     \<Rightarrow> files \<times> string option" where
  "WriteClaudeSettings enc mkdir w windows root opts fs =
     (let dir = path_join [root, ''sessions'', format_uint (unat (st_sid opts))]; path = path_join [dir, ''claude-settings.json''] in
      if \<not> mkdir then (fs, None)
      else case enc (ClaudeSettings windows opts) of
        None \<Rightarrow> (fs, None)
      | Some b \<Rightarrow> (case write_file w path b fs of (fs, ok) \<Rightarrow> (fs, if ok then Some path else None)))"

section \<open>The run command\<close>

text \<open>
  \<^verbatim>\<open>New\<close>: \<open>exe\<close> is the path of the running program, \<open>dirs\<close> what its directory of sessions holds. The
  path is absolute and clean, which \<^verbatim>\<open>filepath.Abs\<close> keeps as it is.
\<close>

definition New_agent ::
  "(string \<Rightarrow> url_parts option) \<Rightarrow> string option \<Rightarrow> (string, session_meta option) gomap \<Rightarrow> string \<Rightarrow> config
     \<Rightarrow> cmd_error + agent" where
  "New_agent parse exe dirs path cfg = (case Validate parse cfg of
     Some err \<Rightarrow> Inl (CmdConfig err)
   | None \<Rightarrow> (case exe of
       None \<Rightarrow> Inl CmdExecutable
     | Some x \<Rightarrow> Inr (new_agent cfg (path_dir path) x dirs)))"

text \<open>
  What the start of the agent meets: \<open>listen\<close> binds a port of the hooks endpoint, 0 for any, and
  tells which one it is; each of the two writes of the configuration has its own outcome.
\<close>

record run_env =
  rn_home :: "string option"
  rn_level_ok :: "string \<Rightarrow> bool"
  rn_level :: string
  rn_enc :: "config \<Rightarrow> string option"
  rn_dec :: "string \<Rightarrow> config option"
  rn_readable :: bool
  rn_parse :: "string \<Rightarrow> url_parts option"
  rn_exe :: "string option"
  rn_dirs :: "(string, session_meta option) gomap"
  rn_hex8 :: string
  rn_hex24 :: string
  rn_keys :: "(string \<times> string) option"
  rn_io1 :: save_io
  rn_io2 :: save_io
  rn_listen :: "int \<Rightarrow> int option"
  rn_tmux :: bool
  rn_tmux_conf :: "string option"
  rn_alive :: "u32 list"
  rn_agent_env :: agent_env

text \<open>The part of \<^verbatim>\<open>Run\<close> up to the start of its goroutines: the identity, the port, the sessions to adopt.\<close>

definition bind_port :: "(int \<Rightarrow> int option) \<Rightarrow> int \<Rightarrow> int option" where
  "bind_port listen p = (case listen p of
     Some q \<Rightarrow> Some q
   | None \<Rightarrow> if p \<noteq> 0 then listen 0 else None)"

definition Run_start :: "run_env \<Rightarrow> string \<Rightarrow> agent \<Rightarrow> files \<Rightarrow> files \<times> (cmd_error + agent)" where
  "Run_start e path a fs = (case EnsureIdentity (rn_hex8 e) (rn_hex24 e) (rn_keys e) (ag_cfg a) of
     (cfg, _, False) \<Rightarrow> (fs, Inl CmdIdentity)
   | (cfg, changed, True) \<Rightarrow>
       (case (if changed then Save (rn_enc e) (rn_io1 e) path cfg fs else (fs, None)) of
          (fs, Some err) \<Rightarrow> (fs, Inl (CmdSave err))
        | (fs, None) \<Rightarrow>
            (case bind_port (rn_listen e) (cf_hooks_port cfg) of
               None \<Rightarrow> (fs, Inl CmdListen)
             | Some port \<Rightarrow>
                 let cfg' = cfg\<lparr>cf_hooks_port := port\<rparr>
                 in case (if port \<noteq> cf_hooks_port cfg then Save (rn_enc e) (rn_io2 e) path cfg' fs else (fs, None)) of
                      (fs, Some err) \<Rightarrow> (fs, Inl (CmdSave err))
                    | (fs, None) \<Rightarrow>
                        (fs, Inr (adoptSessions (rn_agent_env e) (rn_alive e)
                               (setupPersistence (rn_tmux e) (rn_tmux_conf e) (a\<lparr>ag_cfg := cfg'\<rparr>)))))))"

text \<open>The end of \<^verbatim>\<open>Run\<close>, when its goroutines are stopped.\<close>

definition Run_stop :: "instant \<Rightarrow> agent \<Rightarrow> agent" where
  "Run_stop now a = suspendAllSessions now (closeConn a)"

definition loadConfig :: "(string \<Rightarrow> config option) \<Rightarrow> bool \<Rightarrow> string \<Rightarrow> files \<Rightarrow> load_error + config" where
  "loadConfig dec readable path fs = (case Load dec readable path fs of
     (Some c, None) \<Rightarrow> Inr c
   | (_, Some err) \<Rightarrow> Inl err
   | (None, None) \<Rightarrow> Inl ParseFailed)"

definition cmdRun :: "run_env \<Rightarrow> string list \<Rightarrow> files \<Rightarrow> files \<times> (cmd_error + agent)" where
  "cmdRun e args fs = (case parse_flags (text_flags [''config'', ''log-level'']) args [] of
     None \<Rightarrow> (fs, Inl CmdFlags)
   | Some (m, _) \<Rightarrow>
       let path = config_flag (rn_home e) m;
           level = (case mget m ''log-level'' of None \<Rightarrow> rn_level e | Some l \<Rightarrow> l)
       in if \<not> rn_level_ok e level then (fs, Inl CmdLog)
          else case loadConfig (rn_dec e) (rn_readable e) path fs of
            Inl err \<Rightarrow> (fs, Inl (CmdLoad err))
          | Inr cfg \<Rightarrow>
              (case New_agent (rn_parse e) (rn_exe e) (rn_dirs e) path cfg of
                 Inl err \<Rightarrow> (fs, Inl err)
               | Inr a \<Rightarrow> Run_start e path a fs))"

section \<open>Saving\<close>

lemma tmp_path_other [simp]: "tmp_path path \<noteq> path" "path \<noteq> tmp_path path"
  by (auto simp: tmp_path_def)

text \<open>The moments of a save that writes the bytes \<open>b\<close>, in which the process may end.\<close>

definition save_moments :: "string \<Rightarrow> string \<Rightarrow> files \<Rightarrow> files list" where
  "save_moments path b fs = fs # map (\<lambda>n. mput (tmp_path path) (take n b) fs) [0 ..< Suc (length b)]
     @ [mput path b (mdel (tmp_path path) (mput (tmp_path path) b fs))]"

lemma write_moment: "n \<le> length b \<Longrightarrow> mput (tmp_path path) (take n b) fs \<in> set (save_moments path b fs)"
  by (auto simp: save_moments_def simp del: upt_Suc)

text \<open>Where a save ends: at one of its moments, or with the temporary file removed again.\<close>

lemma Save_ends:
  assumes "Save enc io path c fs = (fs', err)"
  shows "fs' = fs \<or> (\<exists>text. enc c = Some text \<and>
    (fs' \<in> set (save_moments path (text @ [NL]) fs) \<or> fs' = mdel (tmp_path path) (mput (tmp_path path) (text @ [NL]) fs)))"
proof (cases "enc c")
  case (Some body)
  let ?b = "body @ [NL]"
  have cut: "mput (tmp_path path) (take n ?b) fs \<in> set (save_moments path ?b fs)" for n
  proof -
    have "take n ?b = take (min n (length ?b)) ?b"
      by (simp only: take_take [symmetric] take_all order_refl)
    then show ?thesis by (metis min.cobounded2 write_moment)
  qed
  from cut [of "length ?b"] have "mput (tmp_path path) ?b fs \<in> set (save_moments path ?b fs)" by simp
  moreover have "mput path ?b (mdel (tmp_path path) (mput (tmp_path path) ?b fs)) \<in> set (save_moments path ?b fs)"
    by (simp add: save_moments_def)
  ultimately show ?thesis
    using assms cut by (auto simp: Save_def Some Let_def split: if_splits write_outcome.splits)
qed (use assms in \<open>auto simp: Save_def split: if_splits\<close>)

lemma Save_done:
  "Save enc io path c fs = (fs', None) \<Longrightarrow> \<exists>text. enc c = Some text \<and> mget fs' path = Some (text @ [NL])
     \<and> mget fs' (tmp_path path) = None \<and> (\<forall>p. p \<noteq> path \<longrightarrow> p \<noteq> tmp_path path \<longrightarrow> mget fs' p = mget fs p)"
  by (auto simp: Save_def Let_def split: if_splits option.splits write_outcome.splits)

lemma Save_failed: "Save enc io path c fs = (fs', Some err) \<Longrightarrow> mget fs' path = mget fs path"
  by (auto simp: Save_def Let_def split: if_splits option.splits write_outcome.splits)

text \<open>C9: The configuration is never torn: at every moment of a save, in which the process may end, and
  however its system calls fail, the file holds what it held before or the whole new text, and
  no file but it and its temporary one is touched; a save that reports an error has left it as
  it was, and one that reports none has replaced it and removed the temporary file.\<close>

theorem config_never_torn:
  assumes "Save enc io path c fs = (fs', err)" and "enc c = Some text" and "t \<in> insert fs' (set (save_moments path (text @ [NL]) fs))"
  shows "(mget t path = mget fs path \<or> mget t path = Some (text @ [NL]))
    \<and> (\<forall>p. p \<noteq> path \<longrightarrow> p \<noteq> tmp_path path \<longrightarrow> mget t p = mget fs p)
    \<and> (if err = None then mget fs' path = Some (text @ [NL]) \<and> mget fs' (tmp_path path) = None
       else mget fs' path = mget fs path)"
proof -
  have moment: "(mget t path = mget fs path \<or> mget t path = Some (text @ [NL]))
      \<and> (\<forall>p. p \<noteq> path \<longrightarrow> p \<noteq> tmp_path path \<longrightarrow> mget t p = mget fs p)"
    if "t \<in> set (save_moments path (text @ [NL]) fs) \<or> t = fs \<or> t = mdel (tmp_path path) (mput (tmp_path path) (text @ [NL]) fs)" for t
    using that by (auto simp: save_moments_def)
  have "if err = None then mget fs' path = Some (text @ [NL]) \<and> mget fs' (tmp_path path) = None else mget fs' path = mget fs path"
    using assms(1,2) Save_done [of enc io path c fs fs'] Save_failed [of enc io path c fs fs'] by (cases err) auto
  then show ?thesis
    using moment [of t] assms(3) Save_ends [OF assms(1)] assms(2) by auto
qed

definition demo_io :: save_io where
  "demo_io = \<lparr>io_mkdir = True, io_write = CutShort 2, io_rename = True, io_remove = True\<rparr>"

theorem config_never_torn_witness:
  "mget (fst (Save (\<lambda>c. Some (cf_name c)) demo_io ''a.json'' (no_config\<lparr>cf_name := ''new''\<rparr>) [(''a.json'', ''old'')])) ''a.json'' = Some ''old''
   \<and> mget (fst (Save (\<lambda>c. Some (cf_name c)) demo_io ''a.json'' (no_config\<lparr>cf_name := ''new''\<rparr>) [(''a.json'', ''old'')])) ''a.json.tmp'' = Some ''ne''"
proof
  let ?s = "Save (\<lambda>c. Some (cf_name c)) demo_io ''a.json'' (no_config\<lparr>cf_name := ''new''\<rparr>) [(''a.json'', ''old'')]"
  have "?s = (fst ?s, snd ?s)" by simp
  from config_never_torn [OF this, of "''new''" "fst ?s"]
  have "if snd ?s = None then mget (fst ?s) ''a.json'' = Some (''new'' @ [NL])
      \<and> mget (fst ?s) (tmp_path ''a.json'') = None else mget (fst ?s) ''a.json'' = mget [(''a.json'', ''old'')] ''a.json''"
    by simp
  moreover have "snd ?s = Some SaveWrite" by code_simp
  ultimately show "mget (fst ?s) ''a.json'' = Some ''old''" by (simp add: mget_def)
qed code_simp

section \<open>Pairing, then running\<close>

lemma Pair_finish_ok:
  assumes "Pair_finish sha256 name answer c = (c2, Inr res)"
  shows "\<exists>a. answer = Accepted (Some a) \<and> pf_device_id a \<noteq> '''' \<and> pf_device_token a \<noteq> '''' \<and> pt_device_id res = pf_device_id a
     \<and> c2 = c\<lparr>cf_device_id := pf_device_id a, cf_device_token := pf_device_token a, cf_fingerprint := pf_fingerprint a,
           cf_name := if pf_name a \<noteq> '''' then pf_name a else name\<rparr>"
proof (cases answer)
  case (Accepted f)
  then obtain a where a: "f = Some a"
    using assms by (cases f) (simp_all add: Pair_finish_def)
  show ?thesis
  proof (intro exI [of _ a])
    have ids: "\<not> (pf_device_id a = '''' \<or> pf_device_token a = '''')"
      using assms by (rule contrapos_pn) (simp add: Pair_finish_def Accepted a)
    with assms have "c\<lparr>cf_device_id := pf_device_id a, cf_device_token := pf_device_token a, cf_fingerprint := pf_fingerprint a,
           cf_name := if pf_name a \<noteq> '''' then pf_name a else name\<rparr> = c2" "pt_device_id res = pf_device_id a"
      unfolding Pair_finish_def Accepted a Let_def by simp_all (elim conjE, hypsubst, simp)
    then show "answer = Accepted (Some a) \<and> pf_device_id a \<noteq> '''' \<and> pf_device_token a \<noteq> '''' \<and> pt_device_id res = pf_device_id a
       \<and> c2 = c\<lparr>cf_device_id := pf_device_id a, cf_device_token := pf_device_token a, cf_fingerprint := pf_fingerprint a,
             cf_name := if pf_name a \<noteq> '''' then pf_name a else name\<rparr>"
      using ids by (simp add: Accepted a)
  qed
qed (use assms in \<open>simp_all add: Pair_finish_def\<close>)

lemma cmdPair_saved:
  assumes "cmdPair e io args fs = (fs1, Inr res)" and "parse_flags (text_flags [''relay'', ''code'', ''name'', ''config'']) args [] = Some (m, rest)"
  obtains cfg name c1 url name1 req a where
    "Pair_request (ce_parse e) url_scheme (ce_render e) (ce_hex8 e) (ce_hex24 e) (ce_keys e) (ce_os e) (ce_version e)
       (flag_text m ''relay'') (flag_text m ''code'') name cfg = (c1, Inr (url, name1, req))"
    and "ce_answer e url req = Accepted (Some a)" and "pf_device_id a \<noteq> ''''" and "pf_device_token a \<noteq> ''''"
    and "Save (ce_enc e) io (config_flag (ce_home e) m)
       (c1\<lparr>cf_device_id := pf_device_id a, cf_device_token := pf_device_token a, cf_fingerprint := pf_fingerprint a,
           cf_name := if pf_name a \<noteq> '''' then pf_name a else name1\<rparr>) fs = (fs1, None)"
    and "pt_device_id res = pf_device_id a"
proof -
  obtain cfg name where p: "pair_and_save e io (config_flag (ce_home e) m) (flag_text m ''relay'') (flag_text m ''code'') name cfg fs
      = (fs1, Inr res)"
    using assms by (auto simp: cmdPair_def Let_def split: if_splits option.splits prod.splits)
  obtain c1 url name1 req c2 where
    "Pair_request (ce_parse e) url_scheme (ce_render e) (ce_hex8 e) (ce_hex24 e) (ce_keys e) (ce_os e) (ce_version e)
       (flag_text m ''relay'') (flag_text m ''code'') name cfg = (c1, Inr (url, name1, req))"
    "Pair_finish (ce_sha256 e) name1 (ce_answer e url req) c1 = (c2, Inr res)"
    "Save (ce_enc e) io (config_flag (ce_home e) m) c2 fs = (fs1, None)"
    using p by (auto simp: pair_and_save_def split: option.splits prod.splits sum.splits)
  then show ?thesis
    using that by (blast dest: Pair_finish_ok)
qed

lemma trim_slashes_idem [simp]: "trim_slashes (trim_slashes s) = trim_slashes s"
proof -
  have "dropWhile P (dropWhile P xs) = dropWhile P xs" for P and xs :: string
    by (induction xs) auto
  then show ?thesis by (simp add: trim_slashes_def)
qed

lemma EnsureIdentity_keeps:
  assumes "EnsureIdentity hex8 hex24 keys c = (c', ch, ok)"
  shows "cf_relay_url c' = cf_relay_url c" "cf_device_id c' = cf_device_id c" "cf_device_token c' = cf_device_token c"
    "cf_hooks_port c' = cf_hooks_port c"
  using assms by (auto simp: EnsureIdentity_def Let_def split: option.splits if_splits)

lemma HTTPURL_scheme:
  "HTTPURL parse scheme render c = Some base \<Longrightarrow>
     \<exists>u. parse (trim_slashes (cf_relay_url c)) = Some u \<and> scheme u \<in> {''http'', ''https'', ''ws'', ''wss''}"
  by (auto simp: HTTPURL_def split: option.splits if_splits)

lemma Pair_request_url:
  assumes "Pair_request parse url_scheme render hex8 hex24 keys goos version relay code name cfg = (c1, Inr (url, name1, req))"
  shows "cf_relay_url c1 = trim_slashes (trim_space relay)"
    and "\<exists>u. parse (cf_relay_url c1) = Some u \<and> url_scheme u \<in> {''http'', ''https'', ''ws'', ''wss''}"
proof -
  let ?c = "cfg\<lparr>cf_relay_url := trim_slashes (trim_space relay)\<rparr>"
  obtain base ch where base: "HTTPURL parse url_scheme render ?c = Some base" and "EnsureIdentity hex8 hex24 keys ?c = (c1, ch, True)"
    using assms unfolding Pair_request_def Let_def
    by (cases "HTTPURL parse url_scheme render ?c"; cases "EnsureIdentity hex8 hex24 keys ?c")
       (simp_all split: if_splits bool.splits)
  with EnsureIdentity_keeps(1) show url: "cf_relay_url c1 = trim_slashes (trim_space relay)"
    by fastforce
  from HTTPURL_scheme [OF base] show "\<exists>u. parse (cf_relay_url c1) = Some u \<and> url_scheme u \<in> {''http'', ''https'', ''ws'', ''wss''}"
    by (simp add: url)
qed

lemma Validate_ok:
  assumes "parse (cf_relay_url c) = Some u" and "url_scheme u \<in> {''http'', ''https'', ''ws'', ''wss''}" and "url_host u \<noteq> ''''"
    and "cf_relay_url c = trim_slashes s" and "cf_relay_url c \<noteq> ''''" and "cf_device_token c \<noteq> ''''" and "cf_device_id c \<noteq> ''''"
  shows "Validate parse c = None"
  using assms by (auto simp: Validate_def WSURL_def)

lemma load_saved:
  assumes "Save enc io path c fs = (fs1, None)" and "\<forall>c body. enc c = Some body \<longrightarrow> dec (body @ [NL]) = Some c"
  shows "loadConfig dec True path fs1 = Inr c"
  using Save_done [OF assms(1)] assms(2) by (auto simp: loadConfig_def Load_def)

lemma config_flags: "parse_flags (text_flags [''config'', ''log-level'']) [''--config'', p] [] = Some ([(''config'', p)], [])"
  by (simp add: text_flags_def flag_split_def mput_def)

text \<open>C10: What the pair command leaves behind is what the run command needs: if it succeeds, the file it
  wrote is read back as a valid configuration, with the device id and the token that the relay
  answered, and the agent starts from it. It rests on the JSON text being read back as what was
  written, and on the relay's address naming a host.\<close>

theorem paired_config_runs:
  assumes "cmdPair e io args fs = (fs1, Inr res)"
    and "parse_flags (text_flags [''relay'', ''code'', ''name'', ''config'']) args [] = Some (m, rest)"
    and "\<forall>c body. ce_enc e c = Some body \<longrightarrow> ce_dec e (body @ [NL]) = Some c"
    and "\<forall>u. ce_parse e (trim_slashes (trim_space (flag_text m ''relay''))) = Some u
       \<longrightarrow> url_host u \<noteq> '''' \<and> trim_slashes (trim_space (flag_text m ''relay'')) \<noteq> ''''"
    and "rn_dec r = ce_dec e" and "rn_parse r = ce_parse e" and "rn_readable r" and "rn_level_ok r (rn_level r)"
    and "rn_exe r = Some exe" and "path = config_flag (ce_home e) m"
  shows "\<exists>c a url req. loadConfig (ce_dec e) True path fs1 = Inr c \<and> Validate (ce_parse e) c = None
    \<and> ce_answer e url req = Accepted (Some a) \<and> cf_device_id c = pf_device_id a \<and> pt_device_id res = pf_device_id a
    \<and> dial_authorization c = ''Bearer '' @ pf_device_token a
    \<and> cmdRun r [''--config'', path] fs1 = Run_start r path (new_agent c (path_dir path) exe (rn_dirs r)) fs1"
proof -
  obtain cfg name c1 url name1 req a where
    request: "Pair_request (ce_parse e) url_scheme (ce_render e) (ce_hex8 e) (ce_hex24 e) (ce_keys e) (ce_os e) (ce_version e)
       (flag_text m ''relay'') (flag_text m ''code'') name cfg = (c1, Inr (url, name1, req))"
    and answer: "ce_answer e url req = Accepted (Some a)" "pf_device_id a \<noteq> ''''" "pf_device_token a \<noteq> ''''"
      "pt_device_id res = pf_device_id a"
    and save: "Save (ce_enc e) io path
       (c1\<lparr>cf_device_id := pf_device_id a, cf_device_token := pf_device_token a, cf_fingerprint := pf_fingerprint a,
           cf_name := if pf_name a \<noteq> '''' then pf_name a else name1\<rparr>) fs = (fs1, None)"
    using cmdPair_saved [OF assms(1,2)] unfolding assms(10) by metis
  define c where "c = c1\<lparr>cf_device_id := pf_device_id a, cf_device_token := pf_device_token a,
      cf_fingerprint := pf_fingerprint a, cf_name := if pf_name a \<noteq> '''' then pf_name a else name1\<rparr>"
  have c: "cf_relay_url c = cf_relay_url c1" "cf_device_id c = pf_device_id a" "cf_device_token c = pf_device_token a"
    by (simp_all add: c_def)
  have load: "loadConfig (ce_dec e) True path fs1 = Inr c"
    using load_saved [OF save assms(3)] by (simp add: c_def)
  have valid: "Validate (ce_parse e) c = None"
    using Pair_request_url [OF request] assms(4) answer(2,3) by (auto intro!: Validate_ok simp: c)
  have "cmdRun r [''--config'', path] fs1 = Run_start r path (new_agent c (path_dir path) exe (rn_dirs r)) fs1"
    using load valid assms(5-9)
    unfolding cmdRun_def config_flags by (simp add: config_flag_def mget_def New_agent_def Let_def)
  then show ?thesis using load valid answer c by (auto simp: dial_authorization_def)
qed

section \<open>Starting again\<close>

lemma adopting_keeps_cfg: "ag_cfg (adoptSessions e alive a) = ag_cfg a"
proof -
  have adopt: "ag_cfg (agent_adopt e m a) = ag_cfg a" for m a
    by (auto simp: agent_adopt_def Let_def install_session split: sum.split prod.split)
  have entry: "ag_cfg (adopt_entry e alive name a) = ag_cfg a" for name a
    by (auto simp: adopt_entry_def Let_def adopt split: option.split)
  have "ag_cfg (fold (adopt_entry e alive) names a) = ag_cfg a" for names
    by (induction names arbitrary: a) (simp_all add: entry)
  then show ?thesis by (simp add: adoptSessions_def)
qed

lemma setup_keeps_cfg: "ag_cfg (setupPersistence t conf a) = ag_cfg a"
  by (auto simp: setupPersistence_def split: option.split)

definition identified :: "config \<Rightarrow> bool" where
  "identified c \<longleftrightarrow> cf_agent_id c \<noteq> '''' \<and> cf_hook_token c \<noteq> '''' \<and> cf_privkey c \<noteq> '''' \<and> cf_pubkey c \<noteq> ''''"

lemma EnsureIdentity_done:
  assumes "EnsureIdentity hex8 hex24 keys c = (c', ch, True)" and "hex24 \<noteq> ''''"
    and "\<forall>priv pub. keys = Some (priv, pub) \<longrightarrow> priv \<noteq> '''' \<and> pub \<noteq> ''''"
  shows "identified c'" and "\<not> ch \<Longrightarrow> c' = c"
  using assms by (auto simp: EnsureIdentity_def identified_def Let_def split: option.splits if_splits)

lemma EnsureIdentity_stable: "identified c \<Longrightarrow> EnsureIdentity hex8 hex24 keys c = (c, False, True)"
  by (simp add: identified_def EnsureIdentity_def)

lemma Run_start_saved:
  assumes "Run_start e path a fs = (fs1, Inr a1)" and "loadConfig (rn_dec e) True path fs = Inr (ag_cfg a)"
    and "\<forall>c body. rn_enc e c = Some body \<longrightarrow> rn_dec e (body @ [NL]) = Some c"
    and "rn_hex24 e \<noteq> ''''" and "\<forall>priv pub. rn_keys e = Some (priv, pub) \<longrightarrow> priv \<noteq> '''' \<and> pub \<noteq> ''''"
  shows "loadConfig (rn_dec e) True path fs1 = Inr (ag_cfg a1)" and "identified (ag_cfg a1)"
    and "cf_relay_url (ag_cfg a1) = cf_relay_url (ag_cfg a)" "cf_device_id (ag_cfg a1) = cf_device_id (ag_cfg a)"
    and "cf_device_token (ag_cfg a1) = cf_device_token (ag_cfg a)"
    and "\<exists>p. bind_port (rn_listen e) p = Some (cf_hooks_port (ag_cfg a1))"
proof -
  obtain cfg ch fs0 port where
    id: "EnsureIdentity (rn_hex8 e) (rn_hex24 e) (rn_keys e) (ag_cfg a) = (cfg, ch, True)"
    and s1: "(if ch then Save (rn_enc e) (rn_io1 e) path cfg fs else (fs, None)) = (fs0, None)"
    and port: "bind_port (rn_listen e) (cf_hooks_port cfg) = Some port"
    and s2: "(if port \<noteq> cf_hooks_port cfg then Save (rn_enc e) (rn_io2 e) path (cfg\<lparr>cf_hooks_port := port\<rparr>) fs0 else (fs0, None)) = (fs1, None)"
    and a1: "ag_cfg a1 = cfg\<lparr>cf_hooks_port := port\<rparr>"
    using assms(1) unfolding Run_start_def Let_def
    by (auto simp: adopting_keeps_cfg setup_keeps_cfg split: prod.splits bool.splits option.splits)
  have "loadConfig (rn_dec e) True path fs0 = Inr cfg"
    using s1 assms(2) EnsureIdentity_done(2) [OF id assms(4,5)] load_saved [OF _ assms(3)] by (cases ch) auto
  then show "loadConfig (rn_dec e) True path fs1 = Inr (ag_cfg a1)"
    using s2 load_saved [OF _ assms(3)] by (cases "port = cf_hooks_port cfg") (auto simp: a1)
  show "identified (ag_cfg a1)"
    using EnsureIdentity_done(1) [OF id assms(4,5)] by (simp add: a1 identified_def)
  show "cf_relay_url (ag_cfg a1) = cf_relay_url (ag_cfg a)" "cf_device_id (ag_cfg a1) = cf_device_id (ag_cfg a)"
    "cf_device_token (ag_cfg a1) = cf_device_token (ag_cfg a)"
    using EnsureIdentity_keeps [OF id] by (simp_all add: a1)
  show "\<exists>p. bind_port (rn_listen e) p = Some (cf_hooks_port (ag_cfg a1))"
    using port by (auto simp: a1)
qed

text \<open>C14: A start of the agent is remembered: once it has begun to serve, the configuration on disk is the
  one it works with, with an identity and the port that its hooks endpoint listens on; and when
  it is started again from that file, whatever fresh random strings and keys it is offered, it
  keeps the identity, the pairing and, if the port is free, the port, and writes nothing.\<close>

theorem startup_is_remembered:
  assumes "Run_start e path (new_agent c root exe dirs) fs = (fs1, Inr a1)" and "loadConfig (rn_dec e) True path fs = Inr c"
    and "Validate (rn_parse e) c = None" and "\<forall>c body. rn_enc e c = Some body \<longrightarrow> rn_dec e (body @ [NL]) = Some c"
    and "rn_hex24 e \<noteq> ''''" and "\<forall>priv pub. rn_keys e = Some (priv, pub) \<longrightarrow> priv \<noteq> '''' \<and> pub \<noteq> ''''"
    and "rn_dec e2 = rn_dec e" and "rn_parse e2 = rn_parse e" and "rn_readable e2" and "rn_level_ok e2 (rn_level e2)"
    and "rn_exe e2 = Some exe2" and "rn_listen e2 (cf_hooks_port (ag_cfg a1)) = Some (cf_hooks_port (ag_cfg a1))"
  shows "loadConfig (rn_dec e) True path fs1 = Inr (ag_cfg a1) \<and> identified (ag_cfg a1)
    \<and> cf_device_token (ag_cfg a1) = cf_device_token c
    \<and> (\<exists>p. bind_port (rn_listen e) p = Some (cf_hooks_port (ag_cfg a1)))
    \<and> (\<exists>a2. cmdRun e2 [''--config'', path] fs1 = (fs1, Inr a2) \<and> ag_cfg a2 = ag_cfg a1)"
proof -
  have cfg: "ag_cfg (new_agent c root exe dirs) = c" by (simp add: new_agent_def)
  note start = Run_start_saved [OF assms(1) _ assms(4-6), unfolded cfg, OF assms(2)]
  have "WSURL (rn_parse e) (ag_cfg a1) = WSURL (rn_parse e) c"
    by (simp add: WSURL_def start(3))
  then have valid: "Validate (rn_parse e) (ag_cfg a1) = None"
    using assms(3) start(3-5) by (simp add: Validate_def split: if_splits)
  let ?a = "new_agent (ag_cfg a1) (path_dir path) exe2 (rn_dirs e2)"
  have "ag_cfg ?a = ag_cfg a1" by (simp add: new_agent_def)
  then have "\<exists>a2. Run_start e2 path ?a fs1 = (fs1, Inr a2) \<and> ag_cfg a2 = ag_cfg a1"
    using EnsureIdentity_stable [OF start(2)] assms(12)
    by (simp add: Run_start_def bind_port_def adopting_keeps_cfg setup_keeps_cfg)
  moreover have "cmdRun e2 [''--config'', path] fs1 = Run_start e2 path ?a fs1"
    using start(1) valid assms(7-11)
    unfolding cmdRun_def config_flags by (simp add: config_flag_def mget_def New_agent_def Let_def)
  ultimately show ?thesis using start by simp
qed

section \<open>A demonstration\<close>

text \<open>A machine that pairs and then starts: the texts of the two configurations stand for their JSON.\<close>

definition demo_cfg :: "int \<Rightarrow> config" where
  "demo_cfg port = no_config\<lparr>cf_relay_url := ''http://r'', cf_device_id := ''d'', cf_device_token := ''t'', cf_agent_id := ''agt_1'',
     cf_name := ''box'', cf_privkey := ''priv'', cf_pubkey := ''pub'', cf_fingerprint := ''fp'', cf_hooks_port := port,
     cf_hook_token := ''2''\<rparr>"

definition demo_enc :: "config \<Rightarrow> string option" where
  "demo_enc c = (if c = demo_cfg 0 then Some ''0'' else if c = demo_cfg 9 then Some ''9'' else None)"

definition demo_dec :: "string \<Rightarrow> config option" where
  "demo_dec b = (if b = [CHR ''0'', NL] then Some (demo_cfg 0) else if b = [CHR ''9'', NL] then Some (demo_cfg 9) else None)"

lemma demo_codec: "\<forall>c body. demo_enc c = Some body \<longrightarrow> demo_dec (body @ [NL]) = Some c"
  by (simp add: demo_enc_def demo_dec_def)

definition good_io :: save_io where
  "good_io = \<lparr>io_mkdir = True, io_write = Written, io_rename = True, io_remove = True\<rparr>"

definition demo_url :: "string \<Rightarrow> url_parts option" where
  "demo_url s = (if s = '''' then None else Some \<lparr>url_scheme = ''http'', url_host = ''r'', url_path = ''''\<rparr>)"

definition demo_cmd :: cmd_env where
  "demo_cmd = \<lparr>ce_home = Some ''/h'', ce_hostname = ''box'', ce_enc = demo_enc, ce_dec = demo_dec, ce_readable = True,
     ce_parse = demo_url, ce_render = (\<lambda>_ _. ''http://r''), ce_hex8 = ''1'', ce_hex24 = ''2'', ce_keys = Some (''priv'', ''pub''),
     ce_os = ''linux'', ce_version = ''1'', ce_sha256 = bytes_of,
     ce_answer = (\<lambda>_ _. Accepted (Some \<lparr>pf_device_id = ''d'', pf_device_token = ''t'', pf_fingerprint = ''fp'', pf_name = ''''\<rparr>))\<rparr>"

definition demo_run :: run_env where
  "demo_run = \<lparr>rn_home = Some ''/h'', rn_level_ok = (\<lambda>l. l = ''info''), rn_level = ''info'', rn_enc = demo_enc, rn_dec = demo_dec,
     rn_readable = True, rn_parse = demo_url, rn_exe = Some ''/tx'', rn_dirs = [], rn_hex8 = ''7'', rn_hex24 = ''8'',
     rn_keys = Some (''p2'', ''q2''), rn_io1 = good_io, rn_io2 = good_io, rn_listen = (\<lambda>p. if p = 0 then Some 9 else Some p),
     rn_tmux = False, rn_tmux_conf = None, rn_alive = [], rn_agent_env = undefined\<rparr>"

abbreviation demo_pair_args :: "string list" where
  "demo_pair_args \<equiv> [''--relay'', ''http://r/'', ''--code=BCDE-FGHJ'', ''--config'', ''a.json'']"

lemma demo_pairing:
  "fst (cmdPair demo_cmd good_io demo_pair_args []) = [(''a.json'', [CHR ''0'', NL])]"
  "map_sum (\<lambda>_. ()) pt_device_id (snd (cmdPair demo_cmd good_io demo_pair_args [])) = Inr ''d''"
  by code_simp+

theorem paired_config_runs_witness:
  "\<exists>c. loadConfig demo_dec True ''a.json'' (fst (cmdPair demo_cmd good_io demo_pair_args [])) = Inr c
     \<and> cf_device_id c = ''d'' \<and> dial_authorization c = ''Bearer t''"
proof -
  obtain res where res: "cmdPair demo_cmd good_io demo_pair_args [] = ([(''a.json'', [CHR ''0'', NL])], Inr res)"
    using demo_pairing by (cases "cmdPair demo_cmd good_io demo_pair_args []"; cases "snd (cmdPair demo_cmd good_io demo_pair_args [])") auto
  have flags: "parse_flags (text_flags [''relay'', ''code'', ''name'', ''config'']) demo_pair_args []
      = Some ([(''relay'', ''http://r/''), (''code'', ''BCDE-FGHJ''), (''config'', ''a.json'')], [])"
    by code_simp
  have host: "\<forall>u. ce_parse demo_cmd (trim_slashes (trim_space (flag_text
      [(''relay'', ''http://r/''), (''code'', ''BCDE-FGHJ''), (''config'', ''a.json'')] ''relay''))) = Some u
      \<longrightarrow> url_host u \<noteq> '''' \<and> trim_slashes (trim_space (flag_text
      [(''relay'', ''http://r/''), (''code'', ''BCDE-FGHJ''), (''config'', ''a.json'')] ''relay'')) \<noteq> ''''"
    by (auto simp: demo_cmd_def demo_url_def)
  have fields: "ce_enc demo_cmd = demo_enc" "ce_dec demo_cmd = demo_dec" "rn_dec demo_run = ce_dec demo_cmd"
      "rn_parse demo_run = ce_parse demo_cmd" "rn_readable demo_run" "rn_level_ok demo_run (rn_level demo_run)" "rn_exe demo_run = Some ''/tx''"
    by (simp_all add: demo_cmd_def demo_run_def)
  have codec: "\<forall>c body. ce_enc demo_cmd c = Some body \<longrightarrow> ce_dec demo_cmd (body @ [NL]) = Some c"
    using demo_codec by (simp add: fields(1,2))
  from paired_config_runs [OF res flags codec host fields(3-7) refl]
  moreover have "ce_answer demo_cmd url req = Accepted (Some \<lparr>pf_device_id = ''d'', pf_device_token = ''t'',
      pf_fingerprint = ''fp'', pf_name = ''''\<rparr>)" for url req
    by (simp add: demo_cmd_def)
  ultimately show ?thesis by (auto simp: res fields(2) config_flag_def mget_def)
qed

abbreviation demo_fresh :: agent where
  "demo_fresh \<equiv> new_agent (demo_cfg 0) '''' ''/tx'' []"

lemma demo_starting:
  "fst (Run_start demo_run ''a.json'' demo_fresh [(''a.json'', [CHR ''0'', NL])]) = [(''a.json'', [CHR ''9'', NL])]"
  "map_sum (\<lambda>_. ()) (cf_hooks_port \<circ> ag_cfg) (snd (Run_start demo_run ''a.json'' demo_fresh [(''a.json'', [CHR ''0'', NL])])) = Inr 9"
  by code_simp+

theorem startup_is_remembered_witness:
  "\<exists>a2. cmdRun demo_run [''--config'', ''a.json''] [(''a.json'', [CHR ''9'', NL])] = ([(''a.json'', [CHR ''9'', NL])], Inr a2)
     \<and> cf_hooks_port (ag_cfg a2) = 9 \<and> identified (ag_cfg a2)"
proof -
  obtain a1 where start: "Run_start demo_run ''a.json'' demo_fresh [(''a.json'', [CHR ''0'', NL])] = ([(''a.json'', [CHR ''9'', NL])], Inr a1)"
      and port: "cf_hooks_port (ag_cfg a1) = 9"
    using demo_starting by (cases "Run_start demo_run ''a.json'' demo_fresh [(''a.json'', [CHR ''0'', NL])]";
        cases "snd (Run_start demo_run ''a.json'' demo_fresh [(''a.json'', [CHR ''0'', NL])])") auto
  have load: "loadConfig (rn_dec demo_run) True ''a.json'' [(''a.json'', [CHR ''0'', NL])] = Inr (demo_cfg 0)"
    by (simp add: demo_run_def loadConfig_def Load_def mget_def demo_dec_def)
  have valid: "Validate (rn_parse demo_run) (demo_cfg 0) = None"
    by code_simp
  have codec: "\<forall>c body. rn_enc demo_run c = Some body \<longrightarrow> rn_dec demo_run (body @ [NL]) = Some c"
    using demo_codec by (simp add: demo_run_def)
  have env: "rn_hex24 demo_run \<noteq> ''''" "\<forall>priv pub. rn_keys demo_run = Some (priv, pub) \<longrightarrow> priv \<noteq> '''' \<and> pub \<noteq> ''''"
      "rn_readable demo_run" "rn_level_ok demo_run (rn_level demo_run)" "rn_exe demo_run = Some ''/tx''"
      "rn_listen demo_run (cf_hooks_port (ag_cfg a1)) = Some (cf_hooks_port (ag_cfg a1))"
    by (simp_all add: demo_run_def port)
  from startup_is_remembered [OF start load valid codec env(1,2) refl refl env(3-6)]
  show ?thesis using port by auto
qed

end
