(* ===== verification/Shells.thy ===== *)
theory Shells
  imports Paths
begin

text \<open>
  Which shell a session runs and how its processes are ended (\<^verbatim>\<open>internal/session/shell_unix.go\<close> and
  \<^verbatim>\<open>shell_windows.go\<close>), and the environment that every process starts from (\<^verbatim>\<open>baseEnv\<close> in
  \<^verbatim>\<open>internal/session/session.go\<close>). \<open>look\<close> finds a program in the path; \<open>lower\<close> is
  \<^verbatim>\<open>strings.ToLower\<close>.
\<close>

section \<open>Unix\<close>

text \<open>The resolved path, the kind that decides the quoting, and the arguments; or the name that was not found.\<close>

definition ResolveShell_unix :: "(string \<Rightarrow> string option) \<Rightarrow> string \<Rightarrow> string \<Rightarrow> string + string \<times> string \<times> string list" where
  "ResolveShell_unix look shell_var name0 =
     (let name = (if name0 = '''' then if shell_var \<noteq> '''' then shell_var else ''bash'' else name0) in
      case look name of
        Some p \<Rightarrow> Inr (p, ''sh'', [])
      | None \<Rightarrow>
          if name \<noteq> ''bash'' then Inl name
          else (case look ''sh'' of Some p \<Rightarrow> Inr (p, ''sh'', []) | None \<Rightarrow> Inl ''bash, sh''))"

definition ShellName_unix :: "string \<Rightarrow> string" where
  "ShellName_unix path = path_base path"

definition CandidateShells_unix :: "string list" where
  "CandidateShells_unix = [''bash'', ''zsh'', ''fish'', ''sh'']"

text \<open>
  \<^verbatim>\<open>terminate\<close>: the signals it sends, each with its target, a negative one being a process group.
  \<open>reachable\<close> says whether the group can be signalled; \<open>ended\<close> whether the process ends in its grace.
\<close>

datatype unix_signal = SigTerm | SigKill

definition signalGroup :: "bool \<Rightarrow> int \<Rightarrow> unix_signal \<Rightarrow> (int \<times> unix_signal) list" where
  "signalGroup reachable pid sig =
     (if pid \<le> 0 then [] else if reachable then [(- pid, sig)] else [(- pid, sig), (pid, sig)])"

definition terminate_unix :: "bool \<Rightarrow> bool \<Rightarrow> bool \<Rightarrow> int option \<Rightarrow> (int \<times> unix_signal) list" where
  "terminate_unix group1 ended group2 process = (case process of
     None \<Rightarrow> []
   | Some pid \<Rightarrow> signalGroup group1 pid SigTerm @ (if ended then [] else signalGroup group2 pid SigKill))"

section \<open>Windows\<close>

definition trim_exe :: "string \<Rightarrow> string" where
  "trim_exe s = (if ends_with ''.exe'' s then take (length s - 4) s else s)"

fun first_shell :: "(string \<Rightarrow> string option) \<Rightarrow> string list \<Rightarrow> (string \<times> string \<times> string list) option" where
  "first_shell look [] = None"
| "first_shell look (n # ns) =
     (case look (if CHR ''.'' \<in> set n then n else n @ ''.exe'') of
        None \<Rightarrow> first_shell look ns
      | Some p \<Rightarrow> Some (
          if n = ''pwsh'' \<or> n = ''powershell'' then (p, n, [''-NoLogo'', ''-NoExit'', ''-Command'',
            ''[Console]::InputEncoding=[Console]::OutputEncoding=[System.Text.Encoding]::UTF8''])
          else if n = ''cmd'' then (p, ''cmd'', [''/K'', ''chcp 65001>nul''])
          else (p, ''sh'', [])))"

definition ResolveShell_windows ::
  "(string \<Rightarrow> string) \<Rightarrow> (string \<Rightarrow> string option) \<Rightarrow> string \<Rightarrow> string + string \<times> string \<times> string list" where
  "ResolveShell_windows lower look name =
     (let order = (if name \<noteq> '''' then [trim_exe (lower name)] else [''pwsh'', ''powershell'', ''cmd'']) in
      case first_shell look order of Some r \<Rightarrow> Inr r | None \<Rightarrow> Inl (join '', '' order))"

definition CandidateShells_windows :: "string list" where
  "CandidateShells_windows = [''pwsh.exe'', ''powershell.exe'', ''cmd.exe'', ''bash.exe'']"

section \<open>The environment\<close>

definition baseEnv :: "string list \<Rightarrow> string list" where
  "baseEnv environ = filter (\<lambda>e. \<not> starts_with ''TERM='' e) environ @ [''TERM=xterm-256color'']"

section \<open>Starting a session\<close>

text \<open>\<^verbatim>\<open>defaultCwd\<close>: the home directory, if it is one, and else where the agent runs.\<close>

definition defaultCwd :: "string option \<Rightarrow> (string \<Rightarrow> bool) \<Rightarrow> string \<Rightarrow> string" where
  "defaultCwd home is_dir wd = (case home of
     Some h \<Rightarrow> if is_dir h then h else wd
   | None \<Rightarrow> wd)"

text \<open>
  \<^verbatim>\<open>typeTool\<close>: the turns of its loop before the deadline, each with whether the shell has printed
  by then and whether the process ends in the pause that follows; then whether it has ended after
  the shell has settled. The answer is what is typed.
\<close>

fun prompt_awaited :: "(bool \<times> bool) list \<Rightarrow> bool" where
  "prompt_awaited [] \<longleftrightarrow> True"
| "prompt_awaited ((printed, ended) # turns) \<longleftrightarrow> printed \<or> \<not> ended \<and> prompt_awaited turns"

definition typeTool :: "(bool \<times> bool) list \<Rightarrow> bool \<Rightarrow> string \<Rightarrow> string option" where
  "typeTool turns ended line = (if prompt_awaited turns \<and> \<not> ended then Some (line @ [CR]) else None)"

lemma baseEnv_term: "filter (starts_with ''TERM='') (baseEnv environ) = [''TERM=xterm-256color'']"
  by (simp add: baseEnv_def filter_empty_conv) (simp add: starts_with_def)

text \<open>A shell that is found is one of the four kinds of quoting; on Unix it is always the POSIX one.\<close>

lemma ResolveShell_kind:
  "ResolveShell_unix look v name = Inr (p, kind, args) \<Longrightarrow> kind = ''sh'' \<and> args = []"
  "ResolveShell_windows lower look name = Inr (p, kind, args) \<Longrightarrow> kind \<in> {''sh'', ''cmd'', ''pwsh'', ''powershell''}"
proof -
  show "ResolveShell_unix look v name = Inr (p, kind, args) \<Longrightarrow> kind = ''sh'' \<and> args = []"
    by (auto simp: ResolveShell_unix_def Let_def split: option.splits if_splits)
  have "first_shell look ns = Some (p, kind, args) \<Longrightarrow> kind \<in> {''sh'', ''cmd'', ''pwsh'', ''powershell''}" for ns
    by (induction ns) (auto split: option.splits if_splits)
  then show "ResolveShell_windows lower look name = Inr (p, kind, args) \<Longrightarrow> kind \<in> {''sh'', ''cmd'', ''pwsh'', ''powershell''}"
    by (auto simp: ResolveShell_windows_def Let_def split: option.splits)
qed

text \<open>Ending a process signals its whole group first, and kills only what has not ended.\<close>

lemma terminate_group:
  "0 < pid \<Longrightarrow> hd (terminate_unix g1 ended g2 (Some pid)) = (- pid, SigTerm)"
  "(t, SigKill) \<in> set (terminate_unix g1 ended g2 (Some pid)) \<Longrightarrow> \<not> ended \<and> 0 < pid \<and> (t = - pid \<or> t = pid)"
  by (auto simp: terminate_unix_def signalGroup_def split: if_splits)

end
