(* ===== verification/Doctor.thy ===== *)
theory Doctor
  imports Presets Shells Persist
begin

text \<open>
  The self-check of the agent (\<^verbatim>\<open>internal/agent/doctor.go\<close>): the report that \<^verbatim>\<open>Doctor\<close> prints, line
  by line, from the configuration and from what it finds on the machine. What it probes is a
  record of answers. The theorem is about confidentiality: a report can be pasted into a bug
  report, because it does not depend on the credentials it was made with.
\<close>

section \<open>Formatting\<close>

definition orDash :: "string \<Rightarrow> string" where
  "orDash s = (if s = '''' then ''-'' else s)"

text \<open>The ellipsis is one character of three bytes.\<close>

definition ellipsis :: string where
  "ellipsis = [CHR 0xE2, CHR 0x80, CHR 0xA6]"

definition mask_secret :: "string \<Rightarrow> string" where
  "mask_secret s =
     (if length s \<le> 6 then if s = '''' then ''-'' else ''***''
      else take 3 s @ ellipsis @ drop (length s - 3) s)"

text \<open>\<^verbatim>\<open>%-14s\<close> pads on the right; the names it is used with are ASCII. \<^verbatim>\<open>%v\<close> prints truth values and lists.\<close>

definition pad14 :: "string \<Rightarrow> string" where
  "pad14 s = s @ replicate (14 - length s) CHR '' ''"

definition show_bool :: "bool \<Rightarrow> string" where
  "show_bool b = (if b then ''true'' else ''false'')"

definition show_sids :: "u32 list \<Rightarrow> string" where
  "show_sids sids = ''['' @ join '' '' (map (\<lambda>n. format_uint (unat n)) sids) @ '']''"

definition curlName :: "bool \<Rightarrow> string" where
  "curlName windows = (if windows then ''curl.exe'' else ''curl'')"

section \<open>Probes\<close>

text \<open>
  What the report finds: programs in the path, the environment, the state of files and of tmux,
  the relay's answer (status, body and time taken, or the error), the port the hooks endpoint
  would get, and the status a running agent answers there. Texts of errors of the system and
  quoted texts (\<^verbatim>\<open>%q\<close>) are functions of what they are about.
\<close>

record doctor_env =
  de_version :: string
  de_goos :: string
  de_goarch :: string
  de_windows :: bool
  de_look :: "string \<Rightarrow> string option"
  de_lower :: "string \<Rightarrow> string"
  de_shell_var :: string
  de_shell_error :: "string \<Rightarrow> string"
  de_quote :: "string \<Rightarrow> string"
  de_tmux_server :: string
  de_tmux :: "string list \<Rightarrow> string + string"
  de_stat :: "string \<Rightarrow> bool"
  de_autostart :: string
  de_parse :: "string \<Rightarrow> url_parts option"
  de_render :: "string \<Rightarrow> url_parts \<Rightarrow> string"
  de_url_error :: "string \<Rightarrow> string"
  de_health :: "string \<Rightarrow> string + int \<times> string \<times> string"
  de_bind :: "int \<Rightarrow> string + int"
  de_probe :: "int \<Rightarrow> int option"

definition probeHooks :: "(string \<Rightarrow> int option) \<Rightarrow> int \<Rightarrow> int option" where
  "probeHooks get port = get (''http://127.0.0.1:'' @ format_int port @ ''/healthz'')"

section \<open>The report\<close>

definition doctor_config :: "config \<Rightarrow> string \<Rightarrow> string list" where
  "doctor_config c path =
     [''config: '' @ path,
      ''  relay_url:     '' @ orDash (cf_relay_url c),
      ''  device_id:     '' @ orDash (cf_device_id c),
      ''  name:          '' @ orDash (cf_name c),
      ''  agent_id:      '' @ orDash (cf_agent_id c),
      ''  fingerprint:   '' @ orDash (cf_fingerprint c),
      ''  paired:        '' @ show_bool (cf_device_token c \<noteq> ''''),
      ''  hooks_port:    '' @ format_int (cf_hooks_port c) @ '' (0 = random, persisted after first run)'',
      ''  hook_token:    '' @ mask_secret (cf_hook_token c),
      ''  default_shell: '' @ orDash (cf_default_shell c)]"

definition doctor_presets :: "config \<Rightarrow> string list" where
  "doctor_presets c =
     (let r = config_Resolver c in
      (''  presets:       '' @ join '', '' (Names r))
      # map (\<lambda>name. ''    '' @ pad14 name @ (case Resolve r name of Inl _ \<Rightarrow> '' not configured'' | Inr _ \<Rightarrow> '' ok''))
          [preset_minimax, preset_relay_station])"

definition doctor_shells :: "doctor_env \<Rightarrow> config \<Rightarrow> string list" where
  "doctor_shells e c =
     ''shells:''
     # (case (if de_windows e then ResolveShell_windows (de_lower e) (de_look e) (cf_default_shell c)
              else ResolveShell_unix (de_look e) (de_shell_var e) (cf_default_shell c)) of
          Inl names \<Rightarrow> ''  default:       NOT FOUND ('' @ de_shell_error e names @ '')''
        | Inr (path, kind, _) \<Rightarrow> ''  default:       '' @ path @ '' ('' @ kind @ '')'')
     # map (\<lambda>sh. ''  '' @ pad14 sh @ '' '' @ (case de_look e sh of Some p \<Rightarrow> p | None \<Rightarrow> ''-''))
         (if de_windows e then CandidateShells_windows else CandidateShells_unix)"

definition doctor_tools :: "doctor_env \<Rightarrow> string list" where
  "doctor_tools e =
     ''AI CLIs on PATH:''
     # map (\<lambda>tool. ''  '' @ pad14 tool @ '' '' @ (case de_look e tool of Some p \<Rightarrow> p | None \<Rightarrow> ''not found''))
         [''claude'', ''codex'', ''grok'']
     @ [''  '' @ pad14 (curlName (de_windows e)) @
        (if de_look e (curlName (de_windows e)) = None
         then '' not found (only needed as a fallback; hooks are forwarded by tx-agent itself)'' else '' ok'')]"

definition doctor_persist :: "doctor_env \<Rightarrow> config \<Rightarrow> string \<Rightarrow> string list" where
  "doctor_persist e c path =
     ''session persistence:''
     # (if \<not> PersistEnabled c
        then [''  off by config (persist='' @ de_quote e (cf_persist c) @ ''): sessions die when the agent restarts'']
        else if de_look e ''tmux'' = None
        then [''  tmux NOT FOUND: sessions die when the agent restarts '' @ em_dash @ '' install tmux'']
        else
          let conf0 = path_join [path_dir path, ''tmux.conf''];
              conf = (if de_stat e conf0 then conf0 else '''');
              sids = fst (TmuxSessions (\<lambda>args w. (de_tmux e args, w)) (de_tmux_server e) conf ())
          in [''  tmux ok (private server '' @ de_quote e TmuxServer @ '')'',
              ''  sessions alive right now: '' @ (if sids \<noteq> [] then show_sids sids else ''none'')])"

definition doctor_relay :: "doctor_env \<Rightarrow> config \<Rightarrow> string list" where
  "doctor_relay e c =
     ''relay:''
     # (if cf_relay_url c = '''' then [''  not configured'']
        else case HTTPURL (de_parse e) url_scheme (de_render e) c of
          None \<Rightarrow> [''  bad relay_url: '' @ de_url_error e (cf_relay_url c)]
        | Some base \<Rightarrow>
            (case de_health e (base @ ''/healthz'') of
               Inl err \<Rightarrow> ''  '' @ base @ ''/healthz: UNREACHABLE ('' @ err @ '')''
             | Inr (status, body, took) \<Rightarrow>
                 ''  '' @ base @ ''/healthz: '' @ format_int status @ '' in '' @ took @ '' '' @ trim_space (take 512 body))
            # (case WSURL (de_parse e) c of
                 None \<Rightarrow> []
               | Some ws \<Rightarrow> [''  ws endpoint:   '' @ de_render e (url_scheme ws) ws]))"

definition doctor_hooks :: "doctor_env \<Rightarrow> config \<Rightarrow> string list" where
  "doctor_hooks e c =
     (let port = cf_hooks_port c in
      ''hooks endpoint:''
      # (case de_bind e port of
           Inl err \<Rightarrow>
             (''  127.0.0.1:'' @ format_int port @ '': cannot bind ('' @ err @ '') '' @ em_dash @ '' probably the running agent holds it'')
             # (if port \<noteq> 0 then
                  (case de_probe e port of
                     Some code \<Rightarrow> [''  running agent answers /healthz: '' @ format_int code]
                   | None \<Rightarrow> [])
                else [])
         | Inr p \<Rightarrow> [''  127.0.0.1:'' @ format_int p @ '': bindable'']))"

definition Doctor :: "doctor_env \<Rightarrow> config \<Rightarrow> string \<Rightarrow> string list" where
  "Doctor e c path =
     [''tx-agent '' @ de_version e @ '' ('' @ de_goos e @ ''/'' @ de_goarch e @ '')'', '''']
     @ doctor_config c path @ doctor_presets c @ ['''']
     @ doctor_shells e c @ ['''']
     @ doctor_tools e @ ['''']
     @ doctor_persist e c path @ ['''']
     @ [''autostart:'', ''  '' @ de_autostart e, '''']
     @ doctor_relay e c @ ['''']
     @ doctor_hooks e c"

section \<open>What the report reveals\<close>

lemma mask_secret_agrees:
  assumes "6 < length s" "6 < length t" "take 3 s = take 3 t" "drop (length s - 3) s = drop (length t - 3) t"
  shows "mask_secret s = mask_secret t"
  using assms by (simp add: mask_secret_def)

lemma presets_shown_agree:
  assumes "mkeys (cf_presets c) = mkeys (cf_presets d)"
    and "(sc_minimax_key (cf_secrets c) = '''') = (sc_minimax_key (cf_secrets d) = '''')"
    and "(sc_station_url (cf_secrets c) = '''') = (sc_station_url (cf_secrets d) = '''')"
    and "(sc_station_key (cf_secrets c) = '''') = (sc_station_key (cf_secrets d) = '''')"
  shows "doctor_presets c = doctor_presets d"
proof -
  have keys: "mget (cf_presets c) k = None \<longleftrightarrow> mget (cf_presets d) k = None" for k
    using arg_cong [OF assms(1), of set] by (simp add: mget_def map_of_eq_None_iff mkeys_def)
  have names: "Names (config_Resolver c) = Names (config_Resolver d)"
    using assms(1) by (simp add: Names_def config_Resolver_def)
  have "isl (Resolve (config_Resolver c) name) = isl (Resolve (config_Resolver d) name)" for name
  proof (cases "mget (cf_presets c) (trim_space name)")
    case None
    moreover have "mget (cf_presets d) (trim_space name) = None" using None keys by simp
    ultimately show ?thesis using assms(2-4) by (simp add: Resolve_def config_Resolver_def Let_def)
  next
    case (Some m)
    moreover obtain m' where "mget (cf_presets d) (trim_space name) = Some m'"
      using Some keys [of "trim_space name"] by (cases "mget (cf_presets d) (trim_space name)") simp_all
    ultimately show ?thesis by (simp add: Resolve_def config_Resolver_def Let_def)
  qed
  then have "(case Resolve (config_Resolver c) name of Inl _ \<Rightarrow> x | Inr _ \<Rightarrow> y)
      = (case Resolve (config_Resolver d) name of Inl _ \<Rightarrow> x | Inr _ \<Rightarrow> y)" for name and x y :: string
    by (metis sum.case_eq_if)
  then show ?thesis using names by (simp add: doctor_presets_def Let_def)
qed

text \<open>
  The fields of a configuration that the report may show.
\<close>

definition shown :: "config \<Rightarrow> string list \<times> int" where
  "shown c = ([cf_relay_url c, cf_device_id c, cf_name c, cf_agent_id c, cf_fingerprint c, cf_default_shell c,
     cf_persist c], cf_hooks_port c)"

text \<open>C11: The report does not depend on the credentials. For two configurations that agree on the
  fields that are no secrets and on which credentials are present at all, whose tokens for the
  hooks are longer than six bytes and agree on the first three and last three of them, the reports made on the same
  machine are equal, whatever the device token, the private key, the rest of the hooks token, the
  keys of the vendors and the variables of the user's own presets are.
\<close>

theorem doctor_hides_secrets:
  assumes "shown c = shown d"
    and "(cf_device_token c = '''') = (cf_device_token d = '''')"
    and "6 < length (cf_hook_token c)" "6 < length (cf_hook_token d)"
    and "take 3 (cf_hook_token c) = take 3 (cf_hook_token d)"
    and "drop (length (cf_hook_token c) - 3) (cf_hook_token c) = drop (length (cf_hook_token d) - 3) (cf_hook_token d)"
    and "mkeys (cf_presets c) = mkeys (cf_presets d)"
    and "(sc_minimax_key (cf_secrets c) = '''') = (sc_minimax_key (cf_secrets d) = '''')"
    and "(sc_station_url (cf_secrets c) = '''') = (sc_station_url (cf_secrets d) = '''')"
    and "(sc_station_key (cf_secrets c) = '''') = (sc_station_key (cf_secrets d) = '''')"
  shows "Doctor e c path = Doctor e d path"
proof -
  have f: "cf_relay_url c = cf_relay_url d" "cf_device_id c = cf_device_id d" "cf_name c = cf_name d"
    "cf_agent_id c = cf_agent_id d" "cf_fingerprint c = cf_fingerprint d" "cf_default_shell c = cf_default_shell d"
    "cf_persist c = cf_persist d" "cf_hooks_port c = cf_hooks_port d"
    using assms(1) by (simp_all add: shown_def)
  have "doctor_config c path = doctor_config d path"
    using assms(2) mask_secret_agrees [OF assms(3-6)] by (simp add: doctor_config_def f show_bool_def)
  moreover have "doctor_presets c = doctor_presets d" by (rule presets_shown_agree [OF assms(7-10)])
  moreover have "doctor_shells e c = doctor_shells e d" by (simp add: doctor_shells_def f)
  moreover have "doctor_persist e c path = doctor_persist e d path"
    by (simp add: doctor_persist_def PersistEnabled_def f)
  moreover have "HTTPURL (de_parse e) url_scheme (de_render e) c = HTTPURL (de_parse e) url_scheme (de_render e) d"
    "WSURL (de_parse e) c = WSURL (de_parse e) d"
    by (simp_all add: HTTPURL_def WSURL_def f)
  then have "doctor_relay e c = doctor_relay e d" unfolding doctor_relay_def f by (simp only:)
  moreover have "doctor_hooks e c = doctor_hooks e d" by (simp add: doctor_hooks_def f)
  ultimately show ?thesis by (simp add: Doctor_def)
qed

definition demo_doctor :: doctor_env where
  "demo_doctor = \<lparr>de_version = ''1.0'', de_goos = ''linux'', de_goarch = ''amd64'', de_windows = False,
     de_look = (\<lambda>p. if p = ''tmux'' then None else Some (''/bin/'' @ p)), de_lower = (\<lambda>s. s), de_shell_var = '''',
     de_shell_error = (\<lambda>s. s), de_quote = (\<lambda>s. s), de_tmux_server = '''', de_tmux = (\<lambda>_. Inl ''''), de_stat = (\<lambda>_. False),
     de_autostart = ''off'', de_parse = (\<lambda>_. None), de_render = (\<lambda>_ _. ''''), de_url_error = (\<lambda>s. s),
     de_health = (\<lambda>_. Inl ''down''), de_bind = (\<lambda>p. Inr p), de_probe = (\<lambda>_. None)\<rparr>"

abbreviation secret_config :: "string \<Rightarrow> string \<Rightarrow> string \<Rightarrow> config" where
  "secret_config token hook key \<equiv> no_config\<lparr>cf_name := ''box'', cf_device_token := token, cf_privkey := key,
     cf_hook_token := hook, cf_presets := [(''mine'', [(''KEY'', key)])],
     cf_secrets := \<lparr>sc_minimax_key = key, sc_minimax_url = '''', sc_station_url = '''', sc_station_key = ''''\<rparr>\<rparr>"

theorem doctor_hides_secrets_witness:
  "Doctor demo_doctor (secret_config ''dt_1'' ''abc111xyz'' ''k1'') ''/c''
     = Doctor demo_doctor (secret_config ''dt_22'' ''abc2222xyz'' ''k2'') ''/c''
   \<and> doctor_config (secret_config ''dt_1'' ''abc111xyz'' ''k1'') ''/c'' ! 8
     = ''  hook_token:    abc'' @ ellipsis @ ''xyz''"
proof
  show "Doctor demo_doctor (secret_config ''dt_1'' ''abc111xyz'' ''k1'') ''/c''
     = Doctor demo_doctor (secret_config ''dt_22'' ''abc2222xyz'' ''k2'') ''/c''"
    by (rule doctor_hides_secrets) (simp_all add: shown_def no_config_def mkeys_def)
  show "doctor_config (secret_config ''dt_1'' ''abc111xyz'' ''k1'') ''/c'' ! 8
     = ''  hook_token:    abc'' @ ellipsis @ ''xyz''"
    by (simp add: doctor_config_def mask_secret_def no_config_def)
qed

end
