(* ===== verification/Install.thy ===== *)
theory Install
  imports ConfigFile Doctor
begin

text \<open>
  Starting the agent with the machine (\<^verbatim>\<open>internal/agent/install_linux.go\<close>, \<^verbatim>\<open>install_darwin.go\<close>,
  \<^verbatim>\<open>install_windows.go\<close> and \<^verbatim>\<open>install_other.go\<close>) and the remaining commands of \<^verbatim>\<open>tx-agent\<close>. An
  installation changes files and calls programs of the system: the model answers with the
  files, the calls in their order, the text printed and the error. What the programs answer is
  a function of their arguments, which each installation passes at most once.
\<close>

section \<open>The machine\<close>

text \<open>
  \<open>mc_run\<close> calls a program: the text of its error, if it fails, and its output. \<open>mc_abs\<close> makes a
  path absolute; \<open>mc_write\<close> is how the write of the file ends.
\<close>

record machine =
  mc_exe :: "string option"
  mc_look :: "string \<Rightarrow> string option"
  mc_abs :: "string \<Rightarrow> string"
  mc_getenv :: "string \<Rightarrow> string"
  mc_home :: "string option"
  mc_host :: string
  mc_user :: "string option"
  mc_uid :: int
  mc_mkdir :: "string \<Rightarrow> bool"
  mc_write :: write_outcome
  mc_remove :: bool
  mc_run :: "string list \<Rightarrow> string option \<times> string"

datatype install_error =
    NoExecutable | NoSystemctl | NoHome | MkdirFailed string | WriteFailed string | RemoveFailed string
  | CommandFailed "string list" string

type_synonym install_result = "files \<times> string list list \<times> string \<times> install_error option"

text \<open>\<^verbatim>\<open>os.Remove\<close>, where a file that does not exist is no error.\<close>

definition remove_file :: "bool \<Rightarrow> string \<Rightarrow> files \<Rightarrow> files \<times> bool" where
  "remove_file works path fs =
     (if mget fs path = None then (fs, True) else if works then (mdel path fs, True) else (fs, False))"

section \<open>Linux: a unit of systemd\<close>

definition TaskName_linux :: string where
  "TaskName_linux = ''tx-agent.service''"

definition captured_keys :: "string list" where
  "captured_keys = [''PATH'', ''SHELL'', ''LANG'']"

text \<open>What is taken over from the environment: no empty values and none that would end the line.\<close>

definition captured_linux :: "machine \<Rightarrow> string \<Rightarrow> bool" where
  "captured_linux m k \<longleftrightarrow> (let v = mc_getenv m k in v \<noteq> '''' \<and> NL \<notin> set v \<and> CR \<notin> set v)"

definition environmentLines :: "machine \<Rightarrow> string" where
  "environmentLines m =
     unlines (map (\<lambda>k. ''Environment='' @ k @ ''='' @ mc_getenv m k) (filter (captured_linux m) captured_keys))"

definition unitTemplate :: "string \<Rightarrow> string \<Rightarrow> string \<Rightarrow> string \<Rightarrow> string" where
  "unitTemplate host exe cfg env =
     unlines
      [''[Unit]'',
       ''Description=terminalX agent ('' @ host @ '')'',
       ''Documentation=https://github.com/wfighter1/terminalX'',
       ''After=network-online.target'',
       ''Wants=network-online.target'',
       '''',
       ''[Service]'',
       ''Type=simple'',
       ''ExecStart='' @ exe @ '' run --config '' @ cfg,
       ''Restart=always'',
       ''RestartSec=5'',
       ''# systemd --user starts with a minimal environment; these are captured from'',
       ''# the shell that ran '' @ [DQUOTE] @ ''tx-agent install'' @ [DQUOTE] @ '' so the agent can find your AI CLIs.'']
     @ env
     @ unlines ['''', ''[Install]'', ''WantedBy=default.target'']"

definition renderUnit :: "machine \<Rightarrow> string \<Rightarrow> string \<Rightarrow> string" where
  "renderUnit m exe cfg = unitTemplate (mc_host m) exe cfg (environmentLines m)"

definition userUnitDir :: "machine \<Rightarrow> string option" where
  "userUnitDir m =
     (let d = mc_getenv m ''XDG_CONFIG_HOME'' in
      if d \<noteq> '''' then Some (path_join [d, ''systemd'', ''user''])
      else case mc_home m of
        None \<Rightarrow> None
      | Some home \<Rightarrow> Some (path_join [home, ''.config'', ''systemd'', ''user'']))"

definition currentUser :: "machine \<Rightarrow> string" where
  "currentUser m = (case mc_user m of Some u \<Rightarrow> u | None \<Rightarrow> mc_getenv m ''USER'')"

definition manualInstructions :: "string \<Rightarrow> string \<Rightarrow> string" where
  "manualInstructions exe cfg = unlines
     [''No systemd found. Start the agent yourself, e.g. from your desktop session:'',
      ''  '' @ exe @ '' run --config '' @ cfg,
      ''or add it to whatever supervisor this system uses (runit, OpenRC, cron @reboot).'']"

abbreviation cmd_reload :: "string list" where
  "cmd_reload \<equiv> [''systemctl'', ''--user'', ''daemon-reload'']"

abbreviation cmd_enable :: "string list" where
  "cmd_enable \<equiv> [''systemctl'', ''--user'', ''enable'', ''--now'', TaskName_linux]"

abbreviation cmd_disable :: "string list" where
  "cmd_disable \<equiv> [''systemctl'', ''--user'', ''disable'', ''--now'', TaskName_linux]"

text \<open>Lingering: the commands called and what is printed.\<close>

definition enable_linger :: "machine \<Rightarrow> string list list \<times> string" where
  "enable_linger m =
     (let name = currentUser m; linger = [''loginctl'', ''enable-linger'', name] in
      if name = '''' then ([], '''')
      else case mc_run m linger of
        (Some err, b) \<Rightarrow> ([linger], b @ unlines
          [''WARNING lingering could not be enabled ('' @ err @ '').'',
           ''Without it the agent stops at logout and does not start at boot. Run as root:'',
           ''  loginctl enable-linger '' @ name])
      | (None, _) \<Rightarrow> ([linger], unlines
          [''lingering enabled for '' @ name @ '': the agent survives logout and starts at boot'']))"

definition enable_unit :: "machine \<Rightarrow> string \<Rightarrow> string list list \<times> string \<times> install_error option" where
  "enable_unit m unit =
     (let out = unlines [''unit written: '' @ unit] in
      case mc_run m cmd_reload of
        (Some err, b) \<Rightarrow> ([cmd_reload], out @ b, Some (CommandFailed cmd_reload err))
      | (None, _) \<Rightarrow>
          (case mc_run m cmd_enable of
             (Some err, b) \<Rightarrow> ([cmd_reload, cmd_enable], out @ b, Some (CommandFailed cmd_enable err))
           | (None, _) \<Rightarrow>
               (case enable_linger m of (cmds, linger) \<Rightarrow>
                  ([cmd_reload, cmd_enable] @ cmds,
                   out @ unlines [''enabled and started: '' @ TaskName_linux] @ linger
                   @ unlines [''logs: journalctl --user -u '' @ TaskName_linux @ '' -f''],
                   None))))"

definition Install_linux :: "machine \<Rightarrow> string \<Rightarrow> files \<Rightarrow> install_result" where
  "Install_linux m cfg0 fs = (case mc_exe m of
     None \<Rightarrow> (fs, [], '''', Some NoExecutable)
   | Some exe \<Rightarrow>
       if mc_look m ''systemctl'' = None then (fs, [], manualInstructions exe cfg0, Some NoSystemctl)
       else (case userUnitDir m of
          None \<Rightarrow> (fs, [], '''', Some NoHome)
        | Some dir \<Rightarrow>
            if \<not> mc_mkdir m dir then (fs, [], '''', Some (MkdirFailed dir))
            else let unit = path_join [dir, TaskName_linux] in
              (case write_file (mc_write m) unit (renderUnit m exe (mc_abs m cfg0)) fs of
                 (fs, False) \<Rightarrow> (fs, [], '''', Some (WriteFailed unit))
               | (fs, True) \<Rightarrow> (fs, enable_unit m unit))))"

definition Uninstall_linux :: "machine \<Rightarrow> files \<Rightarrow> install_result" where
  "Uninstall_linux m fs =
     (if mc_look m ''systemctl'' = None then (fs, [], '''', Some NoSystemctl)
      else
        let out = (case mc_run m cmd_disable of
              (Some err, b) \<Rightarrow> b @ unlines [''(disable reported '' @ err @ ''; removing the unit file anyway)'']
            | (None, _) \<Rightarrow> unlines [''stopped and disabled: '' @ TaskName_linux])
        in case userUnitDir m of
          None \<Rightarrow> (fs, [cmd_disable], out, Some NoHome)
        | Some dir \<Rightarrow>
            let unit = path_join [dir, TaskName_linux] in
            (case remove_file (mc_remove m) unit fs of
               (fs, False) \<Rightarrow> (fs, [cmd_disable], out, Some (RemoveFailed unit))
             | (fs, True) \<Rightarrow>
                 let name = currentUser m in
                 (fs, [cmd_disable, cmd_reload],
                  out @ unlines [''removed: '' @ unit]
                  @ (if name \<noteq> '''' then unlines
                       [''lingering left as is; disable it with: loginctl disable-linger '' @ name] else ''''),
                  None)))"

definition autostartStatus_linux :: "machine \<Rightarrow> string" where
  "autostartStatus_linux m =
     (if mc_look m ''systemctl'' = None then ''systemctl not found (no systemd; the agent must be started by hand)''
      else
        let ask = (\<lambda>q. trim_space (snd (mc_run m [''systemctl'', ''--user'', q, TaskName_linux])));
            state = TaskName_linux @ '' ('' @ ask ''is-enabled'' @ ''/'' @ ask ''is-active'' @ '')'';
            name = currentUser m;
            linger = (if name = '''' then ''unknown''
              else case mc_run m [''loginctl'', ''show-user'', name, ''--property=Linger'', ''--value''] of
                (None, b) \<Rightarrow> trim_space b
              | (Some _, _) \<Rightarrow> ''unknown'')
        in if linger = ''yes'' then state @ '', lingering: yes''
           else if linger = ''no'' then
             state @ '', lingering: NO '' @ em_dash @ '' the agent stops at logout, run: loginctl enable-linger '' @ name
           else state @ '', lingering: '' @ linger)"


section \<open>macOS: a launch agent\<close>

definition TaskName_darwin :: string where
  "TaskName_darwin = ''io.terminalx.agent''"

definition captured_darwin :: "machine \<Rightarrow> string \<Rightarrow> bool" where
  "captured_darwin m k \<longleftrightarrow>
     (let v = mc_getenv m k in v \<noteq> '''' \<and> list_all (\<lambda>c. c \<notin> set v) [CHR ''<'', CHR ''>'', CHR ''&'', NL, CR])"

definition environmentEntries :: "machine \<Rightarrow> string" where
  "environmentEntries m =
     unlines (map (\<lambda>k. ''    <key>'' @ k @ ''</key><string>'' @ mc_getenv m k @ ''</string>'')
       (filter (captured_darwin m) captured_keys))"

definition plistTemplate ::
  "string \<Rightarrow> string \<Rightarrow> string \<Rightarrow> string \<Rightarrow> string \<Rightarrow> string \<Rightarrow> string" where
  "plistTemplate label exe cfg entries out err =
     unlines
      [''<?xml version='' @ [DQUOTE] @ ''1.0'' @ [DQUOTE] @ '' encoding='' @ [DQUOTE] @ ''UTF-8'' @ [DQUOTE] @ ''?>'',
       ''<!DOCTYPE plist PUBLIC '' @ [DQUOTE] @ ''-//Apple//DTD PLIST 1.0//EN'' @ [DQUOTE] @ '' ''
         @ [DQUOTE] @ ''http://www.apple.com/DTDs/PropertyList-1.0.dtd'' @ [DQUOTE] @ ''>'',
       ''<plist version='' @ [DQUOTE] @ ''1.0'' @ [DQUOTE] @ ''>'',
       ''<dict>'',
       ''  <key>Label</key><string>'' @ label @ ''</string>'',
       ''  <key>ProgramArguments</key>'',
       ''  <array>'',
       ''    <string>'' @ exe @ ''</string><string>run</string><string>--config</string><string>'' @ cfg @ ''</string>'',
       ''  </array>'',
       ''  <key>RunAtLoad</key><true/>'',
       ''  <key>KeepAlive</key><true/>'',
       ''  <key>EnvironmentVariables</key>'',
       ''  <dict>'']
     @ entries
     @ unlines
      [''  </dict>'',
       ''  <key>StandardOutPath</key><string>'' @ out @ ''</string>'',
       ''  <key>StandardErrorPath</key><string>'' @ err @ ''</string>'',
       ''</dict>'',
       ''</plist>'']"

definition launch_target :: "machine \<Rightarrow> string" where
  "launch_target m = ''gui/'' @ format_int (mc_uid m)"

abbreviation cmd_bootout :: "machine \<Rightarrow> string list" where
  "cmd_bootout m \<equiv> [''launchctl'', ''bootout'', launch_target m @ ''/'' @ TaskName_darwin]"

text \<open>Loading: the newer call, and the older one when it fails; the error reported is the first one.\<close>

definition load_plist :: "machine \<Rightarrow> string \<Rightarrow> string list list \<times> string \<times> install_error option" where
  "load_plist m plist =
     (let boot = [''launchctl'', ''bootstrap'', launch_target m, plist]; load = [''launchctl'', ''load'', ''-w'', plist] in
      case mc_run m boot of
        (None, _) \<Rightarrow> ([boot], '''', None)
      | (Some err, b) \<Rightarrow>
          (case mc_run m load of
             (None, _) \<Rightarrow> ([boot, load], b, None)
           | (Some _, b2) \<Rightarrow> ([boot, load], b @ b2, Some (CommandFailed boot err))))"

definition Install_darwin :: "machine \<Rightarrow> string \<Rightarrow> files \<Rightarrow> install_result" where
  "Install_darwin m cfg0 fs = (case mc_exe m of
     None \<Rightarrow> (fs, [], '''', Some NoExecutable)
   | Some exe \<Rightarrow> (case mc_home m of
       None \<Rightarrow> (fs, [], '''', Some NoHome)
     | Some home \<Rightarrow>
         let dir = path_join [home, ''Library'', ''LaunchAgents''];
             log = path_join [path_join [home, ''Library'', ''Logs'', ''terminalX''], ''tx-agent.log''];
             plist = path_join [dir, TaskName_darwin @ ''.plist'']
         in if \<not> mc_mkdir m dir then (fs, [], '''', Some (MkdirFailed dir))
            else (case write_file (mc_write m) plist (plistTemplate TaskName_darwin exe (mc_abs m cfg0) (environmentEntries m) log log) fs of
               (fs, False) \<Rightarrow> (fs, [], '''', Some (WriteFailed plist))
             | (fs, True) \<Rightarrow>
                 let out = unlines [''LaunchAgent written: '' @ plist] in
                 (case load_plist m plist of
                    (cmds, b, Some err) \<Rightarrow> (fs, cmd_bootout m # cmds, out @ b, Some err)
                  | (cmds, b, None) \<Rightarrow>
                      (fs, cmd_bootout m # cmds,
                       out @ b @ unlines
                        [''loaded: '' @ TaskName_darwin @ '' (starts at login, restarted if it exits)'',
                         ''logs: '' @ log,
                         ''Note: a Mac that sleeps takes the agent offline; check Energy Saver if it must stay reachable.''],
                       None)))))"

definition Uninstall_darwin :: "machine \<Rightarrow> files \<Rightarrow> install_result" where
  "Uninstall_darwin m fs = (case mc_home m of
     None \<Rightarrow> (fs, [], '''', Some NoHome)
   | Some home \<Rightarrow>
       let plist = path_join [home, ''Library'', ''LaunchAgents'', TaskName_darwin @ ''.plist''];
           (cmds, out) = (case mc_run m (cmd_bootout m) of
               (Some _, b) \<Rightarrow> ([cmd_bootout m, [''launchctl'', ''unload'', ''-w'', plist]], b)
             | (None, _) \<Rightarrow> ([cmd_bootout m], ''''))
       in (case remove_file (mc_remove m) plist fs of
             (fs, False) \<Rightarrow> (fs, cmds, out, Some (RemoveFailed plist))
           | (fs, True) \<Rightarrow> (fs, cmds, out @ unlines [''removed: '' @ plist], None)))"

text \<open>
  The line that holds the process id: what follows its first equals sign, without spaces and
  semicolons. A line with the key and no equals sign is an index out of range: None.
\<close>

definition trim_both :: "(char \<Rightarrow> bool) \<Rightarrow> string \<Rightarrow> string" where
  "trim_both p s = trim_right p (trim_left p s)"

fun pid_of_lines :: "string \<Rightarrow> string list \<Rightarrow> string option" where
  "pid_of_lines pid [] = Some pid"
| "pid_of_lines pid (l # ls) =
     (if \<not> contains ([DQUOTE] @ ''PID'' @ [DQUOTE]) l then pid_of_lines pid ls
      else if CHR ''='' \<notin> set l then None
      else pid_of_lines
        (trim_space (trim_both (\<lambda>c. c = CHR '' '' \<or> c = CHR '';'') (tl (dropWhile (\<lambda>c. c \<noteq> CHR ''='') l)))) ls)"

definition autostartStatus_darwin :: "machine \<Rightarrow> string option" where
  "autostartStatus_darwin m = (case mc_run m [''launchctl'', ''list'', TaskName_darwin] of
     (Some _, _) \<Rightarrow> Some (TaskName_darwin @ '' not loaded (run '' @ [BACKTICK] @ ''tx-agent install'' @ [BACKTICK] @ '')'')
   | (None, b) \<Rightarrow>
       map_option (\<lambda>pid. TaskName_darwin @ '' loaded, pid '' @ pid) (pid_of_lines ''-'' (split_at NL b)))"

section \<open>Windows: a scheduled task\<close>

definition TaskName_windows :: string where
  "TaskName_windows = ''terminalX Agent''"

definition quoted_task :: string where
  "quoted_task = [DQUOTE] @ TaskName_windows @ [DQUOTE]"

definition arrow :: string where
  "arrow = [CHR 0xE2, CHR 0x86, CHR 0x92]"

definition restart_script :: string where
  "restart_script =
     ''$s = New-ScheduledTaskSettingsSet -RestartCount 999 -RestartInterval (New-TimeSpan -Minutes 1) ''
     @ ''-ExecutionTimeLimit ([TimeSpan]::Zero) -AllowStartIfOnBatteries -DontStopIfGoingOnBatteries; ''
     @ ''Set-ScheduledTask -TaskName '' @ [SQUOTE] @ replace_char SQUOTE [SQUOTE, SQUOTE] TaskName_windows @ [SQUOTE]
     @ '' -Settings $s | Out-Null''"

definition Install_windows :: "machine \<Rightarrow> string \<Rightarrow> files \<Rightarrow> install_result" where
  "Install_windows m cfg fs = (case mc_exe m of
     None \<Rightarrow> (fs, [], '''', Some NoExecutable)
   | Some exe \<Rightarrow>
       let tr = [DQUOTE] @ exe @ [DQUOTE] @ '' run --config '' @ [DQUOTE] @ cfg @ [DQUOTE];
           create = [''schtasks.exe'', ''/Create'', ''/F'', ''/SC'', ''ONLOGON'', ''/RL'', ''LIMITED'', ''/TN'', TaskName_windows,
             ''/TR'', tr];
           ps = [''powershell.exe'', ''-NoProfile'', ''-NonInteractive'', ''-Command'', restart_script]
       in (case mc_run m create of
             (Some err, b) \<Rightarrow> (fs, [create], b, Some (CommandFailed create err))
           | (None, b) \<Rightarrow>
               (fs, [create, ps],
                b @ unlines [''task '' @ quoted_task @ '' registered: '' @ tr]
                @ (case mc_run m ps of
                     (Some err, b2) \<Rightarrow> b2 @ unlines
                       [''RestartOnFailure could not be set automatically ('' @ err @ '').'',
                        ''Set it by hand: Task Scheduler '' @ arrow @ '' '' @ TaskName_windows @ '' '' @ arrow @ '' Settings '' @ arrow @ '' ''
                        @ [DQUOTE] @ ''If the task fails, restart every 1 minute, up to 999 times'' @ [DQUOTE] @ '' and clear ''
                        @ [DQUOTE] @ ''Stop the task if it runs longer than'' @ [DQUOTE] @ ''.'']
                   | (None, _) \<Rightarrow> unlines
                       [''RestartOnFailure: every 1 minute, up to 999 times; ExecutionTimeLimit: none; runs on battery.''])
                @ unlines
                   [''The task starts at the next logon. Start it now with: schtasks /Run /TN '' @ quoted_task,
                    ''Note: sleep, logout or a locked auto-logon keeps the agent offline; consider '' @ [BACKTICK] @ ''powercfg''
                    @ [BACKTICK] @ '' and auto-logon on an always-on machine.''],
                None)))"

definition Uninstall_windows :: "machine \<Rightarrow> files \<Rightarrow> install_result" where
  "Uninstall_windows m fs =
     (let delete = [''schtasks.exe'', ''/Delete'', ''/F'', ''/TN'', TaskName_windows] in
      case mc_run m delete of
        (Some err, b) \<Rightarrow> (fs, [delete], b, Some (CommandFailed delete err))
      | (None, b) \<Rightarrow> (fs, [delete], b @ unlines [''task '' @ quoted_task @ '' removed''], None))"

definition autostartStatus_windows :: "machine \<Rightarrow> string" where
  "autostartStatus_windows m = (case mc_run m [''schtasks.exe'', ''/Query'', ''/TN'', TaskName_windows, ''/FO'', ''LIST''] of
     (Some _, _) \<Rightarrow> ''task '' @ quoted_task @ '' not registered (run '' @ [BACKTICK] @ ''tx-agent install'' @ [BACKTICK] @ '')''
   | (None, b) \<Rightarrow>
       let status = fold (\<lambda>l st. if starts_with ''Status:'' l then trim_space (drop 7 l) else st) (split_at NL b) ''''
       in ''task '' @ quoted_task @ '' registered'' @ (if status = '''' then '''' else '', status '' @ status))"


section \<open>Other systems\<close>

definition Install_other :: "string \<Rightarrow> machine \<Rightarrow> string \<Rightarrow> files \<Rightarrow> install_result" where
  "Install_other goos m cfg fs = (case mc_exe m of
     None \<Rightarrow> (fs, [], '''', Some NoExecutable)
   | Some exe \<Rightarrow> (fs, [], unlines
       [''Automatic install is not implemented for '' @ goos @ ''. Register this command with'',
        ''whatever supervisor the system uses so it starts at login and restarts on exit:'',
        '''',
        ''  '' @ exe @ '' run --config '' @ cfg,
        ''''], None))"

definition Uninstall_other :: "string \<Rightarrow> files \<Rightarrow> install_result" where
  "Uninstall_other goos fs =
     (fs, [], unlines [''Automatic uninstall is not implemented for '' @ goos @ ''; remove the entry you created by hand.''], None)"

definition autostartStatus_other :: "string \<Rightarrow> string" where
  "autostartStatus_other goos = ''no autostart integration for '' @ goos"

section \<open>The commands\<close>

text \<open>
  \<^verbatim>\<open>tx-agent install\<close> and \<^verbatim>\<open>tx-agent uninstall\<close>, over the two functions of the platform; only the
  first needs a configuration that can be loaded.
\<close>

definition cmdInstall ::
  "run_env \<Rightarrow> (string \<Rightarrow> files \<Rightarrow> install_result) \<Rightarrow> (files \<Rightarrow> install_result) \<Rightarrow> bool \<Rightarrow> string list \<Rightarrow> files
     \<Rightarrow> cmd_error + install_result" where
  "cmdInstall e inst uninst enable args fs = (case parse_flags (text_flags [''config'']) args [] of
     None \<Rightarrow> Inl CmdFlags
   | Some (m, _) \<Rightarrow>
       if \<not> enable then Inr (uninst fs)
       else let path = config_flag (rn_home e) m in
         (case loadConfig (rn_dec e) (rn_readable e) path fs of
            Inl err \<Rightarrow> Inl (CmdLoad err)
          | Inr _ \<Rightarrow> Inr (inst path fs)))"

text \<open>\<^verbatim>\<open>tx-agent doctor\<close>: a missing configuration is reported and checked as an empty one.\<close>

definition cmdDoctor :: "run_env \<Rightarrow> doctor_env \<Rightarrow> string list \<Rightarrow> files \<Rightarrow> cmd_error + string list" where
  "cmdDoctor e d args fs = (case parse_flags (text_flags [''config'']) args [] of
     None \<Rightarrow> Inl CmdFlags
   | Some (m, _) \<Rightarrow>
       let path = config_flag (rn_home e) m in
       (case Load (rn_dec e) (rn_readable e) path fs of
          (Some cfg, None) \<Rightarrow> Inr (Doctor d cfg path)
        | (Some cfg, Some NotExist) \<Rightarrow>
            Inr ([''config '' @ path @ '' not found (not paired yet)'', ''''] @ Doctor d cfg path)
        | (_, Some err) \<Rightarrow> Inl (CmdLoad err)
        | (None, None) \<Rightarrow> Inl (CmdLoad ParseFailed)))"

text \<open>
  Which command the arguments name (\<^verbatim>\<open>run\<close> in \<^verbatim>\<open>cmd/tx-agent/main.go\<close>), and what it is given. An argument
  with a dash in front is never taken for a command, so \<^verbatim>\<open>--version\<close> and \<^verbatim>\<open>-h\<close>, which the code
  lists beside \<^verbatim>\<open>version\<close> and \<^verbatim>\<open>help\<close>, go to the run command, which refuses them.
\<close>

datatype agent_command =
    DoPair | DoRun | DoDoctor | DoInstall bool | DoNotify | DoHook | DoVersion | DoHelp | DoUnknown string

definition command_of :: "string list \<Rightarrow> string \<times> string list" where
  "command_of args = (case args of
     a # as \<Rightarrow> if starts_with ''-'' a then (''run'', args) else (a, as)
   | [] \<Rightarrow> (''run'', []))"

definition dispatch :: "string list \<Rightarrow> agent_command \<times> string list" where
  "dispatch args =
     (let (cmd, args) = command_of args in
      (if cmd = ''pair'' then DoPair
       else if cmd = ''run'' then DoRun
       else if cmd = ''doctor'' then DoDoctor
       else if cmd = ''install'' then DoInstall True
       else if cmd = ''uninstall'' then DoInstall False
       else if cmd = ''notify'' then DoNotify
       else if cmd = ''hook'' then DoHook
       else if cmd \<in> {''version'', ''--version'', ''-v''} then DoVersion
       else if cmd \<in> {''help'', ''--help'', ''-h''} then DoHelp
       else DoUnknown cmd, args))"

lemma version_flag_is_refused:
  "a \<in> {''--version'', ''-v'', ''--help'', ''-h''} \<Longrightarrow> dispatch [a] = (DoRun, [a]) \<and> cmdRun e [a] fs = (fs, Inl CmdFlags)"
  by (auto simp: dispatch_def command_of_def starts_with_def cmdRun_def text_flags_def flag_split_def)

section \<open>What systemd reads\<close>

text \<open>
  Unit files as \<^verbatim>\<open>systemd.syntax\<close> documents them: a line that ends in a backslash is continued on the
  next one, empty lines and those that start with a number sign or a semicolon are skipped, a line in brackets opens a section, and any
  other one assigns what follows its first equals sign.
\<close>

function unit_lines :: "string list \<Rightarrow> string list" where
  "unit_lines [] = []"
| "unit_lines [l] = [l]"
| "unit_lines (l # k # ls) =
     (if ends_with [BSLASH] l then unit_lines ((butlast l @ '' '' @ k) # ls) else l # unit_lines (k # ls))"
  by pat_completeness auto
termination by (relation "measure length") simp_all

fun unit_settings :: "string \<Rightarrow> string list \<Rightarrow> (string \<times> string \<times> string) list" where
  "unit_settings sec [] = []"
| "unit_settings sec (l # ls) =
     (if l = '''' \<or> hd l = CHR ''#'' \<or> hd l = CHR '';'' then unit_settings sec ls
      else if hd l = CHR ''['' then unit_settings l ls
      else (sec, env_split l) # unit_settings sec ls)"

definition read_unit :: "string \<Rightarrow> (string \<times> string \<times> string) list" where
  "read_unit text' = unit_settings '''' (unit_lines (split_at NL text'))"

definition plain_value :: "string \<Rightarrow> bool" where
  "plain_value v \<longleftrightarrow> NL \<notin> set v \<and> \<not> ends_with [BSLASH] v"

lemma unit_lines_plain: "\<forall>l \<in> set ls. \<not> ends_with [BSLASH] l \<Longrightarrow> unit_lines ls = ls"
  by (induction ls rule: unit_lines.induct) simp_all

lemma read_unlines: "\<forall>l \<in> set ls. plain_value l \<Longrightarrow> read_unit (unlines ls) = unit_settings '''' (ls @ [''''])"
proof -
  assume "\<forall>l \<in> set ls. plain_value l"
  moreover have "\<not> ends_with [BSLASH] ''''" by (simp add: ends_with_def starts_with_def)
  ultimately show ?thesis
    using split_unlines [of ls] unit_lines_plain [of "ls @ ['''']"] by (auto simp: read_unit_def plain_value_def)
qed

lemma ends_with_append: "v \<noteq> '''' \<Longrightarrow> ends_with [c] (u @ v) \<longleftrightarrow> ends_with [c] v"
  by (cases v rule: rev_cases) (simp_all add: ends_with_def starts_with_def)

lemma plain_append: "NL \<notin> set u \<Longrightarrow> v \<noteq> '''' \<Longrightarrow> plain_value (u @ v) \<longleftrightarrow> plain_value v"
  by (auto simp: plain_value_def ends_with_append)

lemma unit_settings_append_env:
  "unit_settings sec (map (\<lambda>k. ''Environment='' @ k @ ''='' @ f k) ks @ ls)
     = map (\<lambda>k. (sec, ''Environment'', k @ ''='' @ f k)) ks @ unit_settings sec ls"
  by (induction ks) (simp_all add: env_split_join [of "''Environment''", simplified])


definition unit_environment :: "machine \<Rightarrow> string list" where
  "unit_environment m = map (\<lambda>k. k @ ''='' @ mc_getenv m k) (filter (captured_linux m) captured_keys)"

lemma render_reads_back:
  assumes host: "NL \<notin> set (mc_host m)" and exe: "NL \<notin> set exe" and cfg: "plain_value cfg"
    and env: "\<forall>k. \<not> ends_with [BSLASH] (mc_getenv m k)"
  shows "read_unit (renderUnit m exe cfg) =
    [(''[Unit]'', ''Description'', ''terminalX agent ('' @ mc_host m @ '')''),
     (''[Unit]'', ''Documentation'', ''https://github.com/wfighter1/terminalX''),
     (''[Unit]'', ''After'', ''network-online.target''),
     (''[Unit]'', ''Wants'', ''network-online.target''),
     (''[Service]'', ''Type'', ''simple''),
     (''[Service]'', ''ExecStart'', exe @ '' run --config '' @ cfg),
     (''[Service]'', ''Restart'', ''always''),
     (''[Service]'', ''RestartSec'', ''5'')]
    @ map (\<lambda>v. (''[Service]'', ''Environment'', v)) (unit_environment m)
    @ [(''[Install]'', ''WantedBy'', ''default.target'')]"
proof -
  have literal: "plain_value '')''" "plain_value '' run --config ''"
    by (simp_all add: plain_value_def ends_with_def starts_with_def NL_def BSLASH_def)
  have host_line: "plain_value (''Description=terminalX agent ('' @ mc_host m @ '')'')"
    using plain_append [of "''Description=terminalX agent ('' @ mc_host m" "'')''"] literal(1) host by (simp add: NL_def)
  have exec_line: "plain_value (''ExecStart='' @ exe @ '' run --config '' @ cfg)"
  proof (cases "cfg = ''''")
    case True
    then show ?thesis
      using plain_append [of "''ExecStart='' @ exe" "'' run --config ''"] literal(2) exe by (simp add: NL_def)
  next
    case False
    then show ?thesis
      using plain_append [of "''ExecStart='' @ exe @ '' run --config ''" cfg] cfg exe by (simp add: NL_def)
  qed
  have env_line: "plain_value (''Environment='' @ k @ ''='' @ mc_getenv m k)"
    if "captured_linux m k" "NL \<notin> set k" for k
  proof -
    have "NL \<notin> set (''Environment='' @ k @ ''='')" using that by (simp add: NL_def)
    moreover have "plain_value (mc_getenv m k)" "mc_getenv m k \<noteq> ''''"
      using that env by (simp_all add: captured_linux_def plain_value_def Let_def)
    ultimately show ?thesis
      using plain_append [of "''Environment='' @ k @ ''=''" "mc_getenv m k"] by simp
  qed
  let ?head = "[''[Unit]'',
       ''Description=terminalX agent ('' @ mc_host m @ '')'',
       ''Documentation=https://github.com/wfighter1/terminalX'',
       ''After=network-online.target'',
       ''Wants=network-online.target'',
       '''',
       ''[Service]'',
       ''Type=simple'',
       ''ExecStart='' @ exe @ '' run --config '' @ cfg,
       ''Restart=always'',
       ''RestartSec=5'',
       ''# systemd --user starts with a minimal environment; these are captured from'',
       ''# the shell that ran '' @ [DQUOTE] @ ''tx-agent install'' @ [DQUOTE] @ '' so the agent can find your AI CLIs.'']"
  let ?env = "map (\<lambda>k. ''Environment='' @ k @ ''='' @ mc_getenv m k) (filter (captured_linux m) captured_keys)"
  let ?tail = "['''', ''[Install]'', ''WantedBy=default.target'']"
  have text': "renderUnit m exe cfg = unlines (?head @ ?env @ ?tail)"
    by (simp only: renderUnit_def unitTemplate_def environmentLines_def unlines_append append_assoc)
  have fixed: "list_all plain_value [''[Unit]'', ''Documentation=https://github.com/wfighter1/terminalX'',
       ''After=network-online.target'', ''Wants=network-online.target'', '''', ''[Service]'', ''Type=simple'',
       ''Restart=always'', ''RestartSec=5'',
       ''# systemd --user starts with a minimal environment; these are captured from'',
       ''# the shell that ran '' @ [DQUOTE] @ ''tx-agent install'' @ [DQUOTE] @ '' so the agent can find your AI CLIs.'',
       ''[Install]'', ''WantedBy=default.target'']"
    by code_simp
  have keys: "\<forall>k \<in> set captured_keys. NL \<notin> set k"
    by (simp add: captured_keys_def NL_def)
  have "list_all plain_value ?head" using fixed host_line exec_line by simp
  moreover have "list_all plain_value ?env" using keys env_line by (simp add: list_all_iff)
  moreover have "list_all plain_value ?tail" using fixed by simp
  ultimately have "list_all plain_value (?head @ ?env @ ?tail)" by (simp only: list_all_append)
  then have "read_unit (renderUnit m exe cfg) = unit_settings '''' (?head @ ?env @ ?tail @ [''''])"
    using read_unlines [of "?head @ ?env @ ?tail"] by (simp only: text' list_all_iff append_assoc)
  also have "\<dots> = [(''[Unit]'', ''Description'', ''terminalX agent ('' @ mc_host m @ '')''),
     (''[Unit]'', ''Documentation'', ''https://github.com/wfighter1/terminalX''),
     (''[Unit]'', ''After'', ''network-online.target''),
     (''[Unit]'', ''Wants'', ''network-online.target''),
     (''[Service]'', ''Type'', ''simple''),
     (''[Service]'', ''ExecStart'', exe @ '' run --config '' @ cfg),
     (''[Service]'', ''Restart'', ''always''),
     (''[Service]'', ''RestartSec'', ''5'')]
    @ unit_settings ''[Service]'' (?env @ ?tail @ [''''])"
    by simp
  also have "unit_settings ''[Service]'' (?env @ ?tail @ [''''])
      = map (\<lambda>v. (''[Service]'', ''Environment'', v)) (unit_environment m) @ [(''[Install]'', ''WantedBy'', ''default.target'')]"
    by (simp only: unit_settings_append_env) (simp add: unit_environment_def)
  finally show ?thesis by simp
qed


section \<open>Installing and removing\<close>

lemma enable_unit_ok:
  assumes "enable_unit m unit = (cmds, out, None)"
  shows "\<exists>rest. cmds = [cmd_reload, cmd_enable] @ rest \<and> (\<forall>c \<in> set [cmd_reload, cmd_enable]. fst (mc_run m c) = None)"
  using assms by (auto simp: enable_unit_def Let_def split: prod.splits option.splits)

lemma write_file_ok: "write_file w path b fs = (fs', True) \<Longrightarrow> fs' = mput path b fs"
  by (auto simp: write_file_def split: write_outcome.splits)

lemma Install_linux_ok:
  assumes "Install_linux m cfg fs = (fs', cmds, out, None)"
  obtains dir exe where "userUnitDir m = Some dir" "mc_exe m = Some exe"
    "fs' = mput (path_join [dir, TaskName_linux]) (renderUnit m exe (mc_abs m cfg)) fs"
    "enable_unit m (path_join [dir, TaskName_linux]) = (cmds, out, None)"
  using assms by (auto simp: Install_linux_def Let_def split: option.splits if_splits prod.splits bool.splits dest: write_file_ok)


definition demo_machine :: machine where
  "demo_machine = \<lparr>mc_exe = Some ''/usr/bin/tx-agent'', mc_look = (\<lambda>p. Some (''/bin/'' @ p)), mc_abs = (\<lambda>p. p),
     mc_getenv = (\<lambda>k. if k = ''PATH'' then ''/usr/bin:/bin'' else if k = ''LANG'' then ''C'' @ [NL] else ''''),
     mc_home = Some ''/home/u'', mc_host = ''box'', mc_user = Some ''u'', mc_uid = 1000, mc_mkdir = (\<lambda>_. True), mc_write = Written,
     mc_remove = True, mc_run = (\<lambda>_. (None, ''''))\<rparr>"


end
