(* ===== verification/RelayMain.thy ===== *)
theory RelayMain
  imports RelayApi HookLink Paths
begin

text \<open>
  The start of the relay (\<^verbatim>\<open>cmd/tx-relay/main.go\<close>): its flags with their defaults from the
  environment, the checks in their order, and the server they lead to. Opening the database is a
  parameter; serving requests is the rest of the model.
\<close>

definition envOr :: "(string \<Rightarrow> string) \<Rightarrow> string \<Rightarrow> string \<Rightarrow> string" where
  "envOr getenv key other = (if getenv key \<noteq> '''' then getenv key else other)"

record relay_env =
  rv_getenv :: "string \<Rightarrow> string"
  rv_level_ok :: "string \<Rightarrow> bool"
  rv_is_dir :: "string \<Rightarrow> bool"
  rv_open :: "string \<Rightarrow> string + database"

datatype web_source = WebDirectory string | WebEmbedded

datatype relay_failure =
    RelayFlags | RelayLogLevel | RelayNoPassword | RelayWebDir string | RelayOpen string | RelayNew new_error

record relay_start =
  rt_listen :: string
  rt_web :: web_source
  rt_origins :: "string list"
  rt_server :: relay

definition relay_flag_names :: "string list" where
  "relay_flag_names = [''listen'', ''data'', ''admin-password'', ''web-dir'', ''public-url'', ''allow-origin'', ''log-level'']"

definition flag_or :: "(string, string) gomap \<Rightarrow> string \<Rightarrow> string \<Rightarrow> string" where
  "flag_or m k other = (case mget m k of Some v \<Rightarrow> v | None \<Rightarrow> other)"

definition allowed_origins :: "string \<Rightarrow> string list" where
  "allowed_origins origins = filter (\<lambda>o'. o' \<noteq> '''') (map trim_space (split_at (CHR '','') origins))"

definition relay_run :: "relay_env \<Rightarrow> string list \<Rightarrow> relay_failure + relay_start" where
  "relay_run e args = (case parse_flags (\<lambda>k _. k \<in> set relay_flag_names) args [] of
     None \<Rightarrow> Inl RelayFlags
   | Some (m, _) \<Rightarrow>
       let listen = flag_or m ''listen'' (envOr (rv_getenv e) ''TX_LISTEN'' '':8080'');
           data = flag_or m ''data'' (envOr (rv_getenv e) ''TX_DATA'' ''./data'');
           password = flag_or m ''admin-password'' (rv_getenv e ''TX_ADMIN_PASSWORD'');
           web = flag_or m ''web-dir'' (rv_getenv e ''TX_WEB_DIR'');
           public = flag_or m ''public-url'' (rv_getenv e ''TX_PUBLIC_URL'');
           origins = flag_or m ''allow-origin'' (rv_getenv e ''TX_ALLOW_ORIGIN'');
           level = flag_or m ''log-level'' (envOr (rv_getenv e) ''TX_LOG_LEVEL'' ''info'')
       in if \<not> rv_level_ok e level then Inl RelayLogLevel
          else if password = '''' then Inl RelayNoPassword
          else if web \<noteq> '''' \<and> \<not> rv_is_dir e web then Inl (RelayWebDir web)
          else case rv_open e (path_join [data, ''relay.db'']) of
            Inl err \<Rightarrow> Inl (RelayOpen err)
          | Inr db \<Rightarrow>
              (case New \<lparr>rc_admin_password = password, rc_public_url = public, rc_heartbeat_timeout = 0, rc_sweep_interval = 0,
                     rc_session_ttl = 0, rc_pair_code_ttl = 0, rc_lockout_after = 0, rc_lockout_for = 0\<rparr> db of
                 Inl err \<Rightarrow> Inl (RelayNew err)
               | Inr s \<Rightarrow> Inr \<lparr>rt_listen = listen, rt_web = (if web \<noteq> '''' then WebDirectory web else WebEmbedded),
                     rt_origins = allowed_origins origins, rt_server = s\<rparr>))"

text \<open>
  A relay that starts has a password, which a hash without collisions keeps apart from the empty
  one, and its lock-out and its times are the defaults.
\<close>

lemma loadState_cfg: "loadState s = Inr s' \<Longrightarrow> sv_cfg s' = sv_cfg s"
  by (auto simp: loadState_def Let_def split: sum.splits)

lemma relay_run_config:
  assumes "relay_run e args = Inr r"
  shows "rc_admin_password (sv_cfg (rt_server r)) \<noteq> ''''
    \<and> rc_lockout_after (sv_cfg (rt_server r)) = 5 \<and> rc_lockout_for (sv_cfg (rt_server r)) = 15 * minute
    \<and> rc_pair_code_ttl (sv_cfg (rt_server r)) = 5 * minute"
  using assms
  by (auto simp: relay_run_def New_def config_defaults_def Let_def dest!: loadState_cfg split: option.splits sum.splits if_splits)

lemma relay_refuses_empty_password:
  assumes "relay_run e args = Inr r" and "inj sha256"
  shows "\<not> passwordOK sha256 (rc_admin_password (sv_cfg (rt_server r))) ''''"
  using relay_run_config [OF assms(1)] assms(2) by (auto simp: passwordOK_def dest: injD)

end
