(* ===== verification/Spec2Isabelle.thy ===== *)
theory Spec2Isabelle
  imports Frames Ring Messages Heuristic Cmdline Persist Session Approvals HooksServer Presets AgentLink AgentLife
    RelayDatabase RelayErrors EndToEnd StaticFiles Install RelayMain
begin

text \<open>
  terminalX lets a person watch and steer the AI command line tools on their machines from a web
  console. On each machine runs an agent (\<^verbatim>\<open>cmd/tx-agent\<close>, \<^verbatim>\<open>internal/agent\<close>, \<^verbatim>\<open>internal/session\<close>,
  \<^verbatim>\<open>internal/hooks\<close>); a relay (\<^verbatim>\<open>cmd/tx-relay\<close>, \<^verbatim>\<open>internal/relay\<close>) connects agents and consoles over
  WebSockets. A session is a shell or a tool on a pseudo terminal. Its output goes into a ring and,
  in frames, to the relay and on to the consoles that are attached to it. The tools call
  the agent's local endpoint with their hooks; what needs a decision becomes an approval, which a
  console answers through the relay.

  This root only gathers the theories; every definition stands in the theory of its component.

  \<^bold>\<open>Data.\<close> Machine integers are words (\<open>u32\<close>, \<open>u64\<close>), Go's \<^verbatim>\<open>int\<close> is \<open>int\<close>, strings are lists of bytes
  as characters, times are nanoseconds, maps are association lists with distinct keys
  (\<open>mget\<close>, \<open>mput\<close>, \<open>mdel\<close>), structs are records, errors are values of a sum or an option. State is
  passed on explicitly. A mutex is not modelled: an operation that the code runs under a lock is one
  step, and goroutines are the sequences of the steps they take.

  \<^bold>\<open>Shared.\<close> \<open>Prelude\<close> (words, strings as Go's library treats them, maps, numbers as text), \<open>Paths\<close>
  (\<^verbatim>\<open>path.Clean\<close> and its relatives), \<open>Messages\<close> (\<^verbatim>\<open>internal/proto/messages.go\<close>), \<open>Frames\<close>
  (\<^verbatim>\<open>frame.go\<close>: header, chunks, control payloads). The lemmas of \<open>Frames\<close> are the round trips of the
  codec, in the locale \<open>frame_codec\<close>, and that chunks reassemble to what was cut.

  \<^bold>\<open>Sessions.\<close> \<open>Ring\<close> (\<^verbatim>\<open>ring.go\<close>, refining the stream of all bytes written, in the locale
  \<open>scrollback\<close>), \<open>Heuristic\<close> (\<^verbatim>\<open>heuristic.go\<close>, refining an automaton of quiet, suspected and lost),
  \<open>Cmdline\<close> (\<^verbatim>\<open>cmdline.go\<close>: what is typed is read by the shell as the intended arguments), \<open>Persist\<close>
  (\<^verbatim>\<open>persist.go\<close>: tmux), \<open>Shells\<close> (\<^verbatim>\<open>shell_unix.go\<close>, \<^verbatim>\<open>shell_windows.go\<close>), \<open>Session\<close> (\<^verbatim>\<open>session.go\<close>: the
  record \<open>session\<close>, one function per method, effects on the terminal and callbacks as a list). The
  lemmas of \<open>Session\<close> relate the output handed over, the batch that waits and the ring to the
  stream the terminal produced, for every sequence of operations.

  \<^bold>\<open>The agent.\<close> \<open>Presets\<close> (\<^verbatim>\<open>presets.go\<close>, \<^verbatim>\<open>config.go\<close>), \<open>Approvals\<close> (\<^verbatim>\<open>hooks/approvals.go\<close>: every approval is
  settled at most once, in the locale \<open>approval_book\<close>, and a decision wakes its waiter), \<open>HooksServer\<close>
  (\<^verbatim>\<open>hooks/server.go\<close>), \<open>HookLink\<close> (\<^verbatim>\<open>hooks/claude.go\<close>, \<^verbatim>\<open>notify.go\<close>: a signal of a tool arrives at its
  handler, through the generated settings, the shell and the command line), \<open>Agent\<close> (\<^verbatim>\<open>agent.go\<close>,
  \<^verbatim>\<open>handle.go\<close>, \<^verbatim>\<open>conn.go\<close>, \<^verbatim>\<open>agent/persist.go\<close>: the record \<open>agent\<close> with its sessions as objects with handles),
  \<open>AgentLink\<close> (the queue to the relay loses nothing silently, an attachment's replay reaches it),
  \<open>AgentLife\<close> (fresh ids, the adoption of persisted sessions by the next process), \<open>Pairing\<close>
  (\<^verbatim>\<open>pair.go\<close> against the relay's side), \<open>ConfigFile\<close> (saving and loading with every failure and at
  every moment of a write, the commands \<^verbatim>\<open>pair\<close> and \<^verbatim>\<open>run\<close>, start and stop), \<open>Doctor\<close> (\<^verbatim>\<open>doctor.go\<close>: the
  report hides the credentials), \<open>Install\<close> (\<^verbatim>\<open>install_*.go\<close>, read back as systemd reads a unit, and the
  other commands).

  \<^bold>\<open>The relay.\<close> \<open>StoreTime\<close> and \<open>RelayStore\<close> (\<^verbatim>\<open>store.go\<close>: the five tables as lists of rows, each
  statement a function; times are kept as the texts that are stored and compared), \<open>RelayAuth\<close>
  (\<^verbatim>\<open>auth.go\<close>, \<^verbatim>\<open>pair.go\<close>), \<open>RelayHub\<close> (\<^verbatim>\<open>hub.go\<close>, \<^verbatim>\<open>server.go\<close>, \<^verbatim>\<open>webhook.go\<close>: the record \<open>relay\<close>),
  \<open>RelayConns\<close> (\<^verbatim>\<open>ws_agent.go\<close>, \<^verbatim>\<open>ws_client.go\<close>), \<open>RelayApi\<close> (\<^verbatim>\<open>api.go\<close>), \<open>StaticFiles\<close> (\<^verbatim>\<open>static.go\<close>),
  \<open>RelayMain\<close> (\<^verbatim>\<open>cmd/tx-relay/main.go\<close>). \<open>RelayRouting\<close> and \<open>RelaySystem\<close> make its operations into events and
  prove the invariant of all reachable states; \<open>RelayFrames\<close> (who gets which frame), \<open>RelayOnce\<close>
  (decisions, pairing codes and revocations, instances of the locale \<open>spendable\<close>), \<open>RelayGuard\<close>
  (the lock-out bounds guesses), \<open>RelayDatabase\<close> (tables stay well-formed) and \<open>RelayErrors\<close> (errors
  change nothing that others see) rest on it.

  \<^bold>\<open>Together.\<close> \<open>EndToEnd\<close> follows the output of a terminal through the session, the agent's queue
  and the relay to a console: the console shows what the terminal produced, gapless and once.
  \<open>Pairing\<close> and \<open>HookLink\<close> do the same for the identity of an agent and for the signals of the tools.

  \<^bold>\<open>Bounds and fuel.\<close> Sequence numbers are 64-bit words; theorems about streams assume that fewer
  than \<open>stream_bound\<close> bytes were written. Loops are structural or have a measure; the search for a
  fresh id, which may meet ids that are taken, is given its random numbers as a list, and it is
  shown when it ends. No other fuel is used.

  \<^bold>\<open>Parameters.\<close> Random bytes, SHA-256, the signature keys, the JSON text of messages and files,
  \<^verbatim>\<open>url.Parse\<close>, HTTP requests, tmux and the other programs that are called, and the clock. Hypotheses on
  them (a hash without collisions, a codec that reads back what it wrote) are stated where they are used.

  \<^bold>\<open>Not modelled.\<close> The text of JSON and of HTTP messages, WebSocket frames and TLS, which are Go's library
  or third-party packages; SQLite, beyond the meaning of the statements the store sends it; the
  pseudo terminal, whose reads and writes are the events of a session; the scheduler: two goroutines
  interleave only at the boundaries of the steps, which are those of the locks; log lines; the
  usage text; the signals that end the two programs; the attributes of new processes, and the display
  name of a shell on Windows; the files embedded at build time; the web console, which is TypeScript.
\<close>

end
